(* ===== verification/Rust_Prelude.thy ===== *)
theory Rust_Prelude
  imports Main "HOL-Library.Word" "HOL-Library.AList"
begin

text \<open>
  What the components of ethrex-replay share: the machine integers of Rust, results that may be
  an \<open>eyre\<close> error or a panic, actions that pass the state of the world, hash maps, and the
  decimal and hexadecimal formatting and parsing of the standard library.

  Conventions. A Rust value of type \<open>eyre::Result<T>\<close> whose evaluation may also panic is a value
  of \<open>'a res\<close>. An \<open>async fn\<close> or a function with side effects is an action \<open>('s, 'a) act\<close> on the
  part \<open>'s\<close> of the world that it can change. A Rust \<open>HashMap\<close> is an association list: the order of
  the list is the iteration order, about which no property assumes anything.
\<close>

named_theorems res_simps \<open>how results and actions compose\<close>
named_theorems fs_simps \<open>the laws of the file system model\<close>

section \<open>Machine integers, results and panics\<close>

type_synonym u8 = "8 word"
type_synonym u32 = "32 word"
type_synonym u64 = "64 word"
type_synonym u256 = "256 word"
type_synonym bytes = "8 word list"
type_synonym address = "160 word"
type_synonym h256 = "256 word"

text \<open>\<open>Error\<close> is an \<open>eyre::Report\<close> handed upwards by \<open>?\<close>; \<open>Panic\<close> unwinds past every \<open>?\<close>.\<close>

datatype fault = Error string | Panic string

type_synonym 'a res = "fault + 'a"

definition bind_res :: "'a res \<Rightarrow> ('a \<Rightarrow> 'b res) \<Rightarrow> 'b res" where
  "bind_res r f = (case r of Inl e \<Rightarrow> Inl e | Inr x \<Rightarrow> f x)"

text \<open>\<open>Option::ok_or\<close> (an error) and \<open>Option::unwrap\<close> (a panic).\<close>

definition ok_or :: "'a option \<Rightarrow> string \<Rightarrow> 'a res" where
  "ok_or v msg = (case v of None \<Rightarrow> Inl (Error msg) | Some x \<Rightarrow> Inr x)"

definition unwrap :: "'a option \<Rightarrow> 'a res" where
  "unwrap v = (case v of None \<Rightarrow> Inl (Panic ''called Option::unwrap() on a None value'') | Some x \<Rightarrow> Inr x)"

text \<open>Indexing a \<open>Vec\<close> or a slice.\<close>

definition index_at :: "'a list \<Rightarrow> nat \<Rightarrow> 'a res" where
  "index_at xs i = (if i < length xs then Inr (xs ! i) else Inl (Panic ''index out of bounds''))"

text \<open>A library call that returns \<open>Result<T, E>\<close>, propagated with \<open>?\<close>.\<close>

definition of_result :: "string + 'a \<Rightarrow> 'a res" where
  "of_result r = (case r of Inl e \<Rightarrow> Inl (Error e) | Inr x \<Rightarrow> Inr x)"

fun is_panic :: "'a res \<Rightarrow> bool" where
  "is_panic (Inl (Panic _)) = True"
| "is_panic _ = False"

lemma bind_res_simps [simp, res_simps]:
  "bind_res (Inl e) f = Inl e"
  "bind_res (Inr x) f = f x"
  by (simp_all add: bind_res_def)

lemma bind_res_Inr_iff [res_simps]:
  "bind_res r f = Inr y \<longleftrightarrow> (\<exists>x. r = Inr x \<and> f x = Inr y)"
  by (cases r) auto

lemma bind_res_assoc: "bind_res (bind_res r f) g = bind_res r (\<lambda>x. bind_res (f x) g)"
  by (cases r) auto

lemma ok_or_simps [simp]: "ok_or None msg = Inl (Error msg)" "ok_or (Some x) msg = Inr x"
  by (simp_all add: ok_or_def)

lemma unwrap_simps [simp]:
  "unwrap None = Inl (Panic ''called Option::unwrap() on a None value'')" "unwrap (Some x) = Inr x"
  by (simp_all add: unwrap_def)

lemma of_result_simps [simp]: "of_result (Inl e) = Inl (Error e)" "of_result (Inr x) = Inr x"
  by (simp_all add: of_result_def)

lemma index_at_simps [simp]:
  "i < length xs \<Longrightarrow> index_at xs i = Inr (xs ! i)"
  "index_at [] i = Inl (Panic ''index out of bounds'')"
  by (simp_all add: index_at_def)

lemma ok_or_Inr_iff [res_simps]: "ok_or v msg = Inr x \<longleftrightarrow> v = Some x"
  by (cases v) auto

lemma unwrap_Inr_iff [res_simps]: "unwrap v = Inr x \<longleftrightarrow> v = Some x"
  by (cases v) auto

lemma of_result_Inr_iff [res_simps]: "of_result r = Inr x \<longleftrightarrow> r = Inr x"
  by (cases r) auto

text \<open>
  The operators \<open>+\<close> and \<open>-\<close> on an unsigned integer panic on overflow when the build profile has
  overflow checks (the default of \<open>cargo build\<close>) and wrap around when it has not (the profile
  \<open>release\<close> of \<open>Cargo.toml\<close>). The flag \<open>chk\<close> is that switch.
\<close>

definition add_ovf :: "bool \<Rightarrow> 'a::len word \<Rightarrow> 'a word \<Rightarrow> 'a word res" where
  "add_ovf chk a b =
     (if chk \<and> 2 ^ LENGTH('a) \<le> unat a + unat b then Inl (Panic ''attempt to add with overflow'')
      else Inr (a + b))"

definition sub_ovf :: "bool \<Rightarrow> 'a::len word \<Rightarrow> 'a word \<Rightarrow> 'a word res" where
  "sub_ovf chk a b =
     (if chk \<and> a < b then Inl (Panic ''attempt to subtract with overflow'') else Inr (a - b))"

lemma unat_eq_iff [simp]: "unat a = unat b \<longleftrightarrow> a = b"
  by (auto intro: unsigned_word_eqI)

lemma add_ovf_Inr: "add_ovf chk a b = Inr c \<Longrightarrow> c = a + b"
  by (auto simp: add_ovf_def split: if_splits)

lemma add_ovf_release [simp]: "add_ovf False a b = Inr (a + b)"
  by (simp add: add_ovf_def)

lemma sub_ovf_release [simp]: "sub_ovf False a b = Inr (a - b)"
  by (simp add: sub_ovf_def)

lemma add_ovf_exact:
  "unat a + unat b < 2 ^ LENGTH('a) \<Longrightarrow> add_ovf chk (a :: 'a::len word) b = Inr (a + b)"
  by (simp add: add_ovf_def)

section \<open>Actions on the world\<close>

type_synonym ('s, 'a) act = "'s \<Rightarrow> 'a res \<times> 's"

definition ret :: "'a \<Rightarrow> ('s, 'a) act" where
  "ret x = (\<lambda>s. (Inr x, s))"

definition throw :: "fault \<Rightarrow> ('s, 'a) act" where
  "throw e = (\<lambda>s. (Inl e, s))"

definition lift_res :: "'a res \<Rightarrow> ('s, 'a) act" where
  "lift_res r = (\<lambda>s. (r, s))"

definition andthen :: "('s, 'a) act \<Rightarrow> ('a \<Rightarrow> ('s, 'b) act) \<Rightarrow> ('s, 'b) act" where
  "andthen m f = (\<lambda>s. case m s of (Inl e, s') \<Rightarrow> (Inl e, s') | (Inr x, s') \<Rightarrow> f x s')"

text \<open>Keeps an \<open>Err\<close> as a value instead of returning it with \<open>?\<close>; a panic still unwinds.\<close>

definition attempt :: "('s, 'a) act \<Rightarrow> ('s, string + 'a) act" where
  "attempt m = (\<lambda>s. case m s of
       (Inl (Panic p), s') \<Rightarrow> (Inl (Panic p), s')
     | (Inl (Error e), s') \<Rightarrow> (Inr (Inl e), s')
     | (Inr x, s') \<Rightarrow> (Inr (Inr x), s'))"

text \<open>\<open>map_err\<close>, and \<open>wrap_err\<close>, which puts a context in front of the message.\<close>

definition map_err :: "(string \<Rightarrow> string) \<Rightarrow> ('s, 'a) act \<Rightarrow> ('s, 'a) act" where
  "map_err f m = (\<lambda>s. case m s of
       (Inl (Error e), s') \<Rightarrow> (Inl (Error (f e)), s')
     | (Inl (Panic p), s') \<Rightarrow> (Inl (Panic p), s')
     | (Inr x, s') \<Rightarrow> (Inr x, s'))"

definition wrap_err :: "string \<Rightarrow> ('s, 'a) act \<Rightarrow> ('s, 'a) act" where
  "wrap_err ctx m = map_err (\<lambda>e. ctx @ '': '' @ e) m"

text \<open>A \<open>for\<close> loop whose body may leave the function early.\<close>

primrec for_each :: "('a \<Rightarrow> ('s, unit) act) \<Rightarrow> 'a list \<Rightarrow> ('s, unit) act" where
  "for_each f [] = ret ()"
| "for_each f (x # xs) = andthen (f x) (\<lambda>_. for_each f xs)"

lemma act_simps [simp, res_simps]:
  "ret x s = (Inr x, s)"
  "throw e s = (Inl e, s)"
  "lift_res r s = (r, s)"
  by (simp_all add: ret_def throw_def lift_res_def)

lemma andthen_simps [simp]:
  "andthen (Pair (Inr x)) f = f x"
  "andthen (Pair (Inl e)) f = throw e"
  by (auto simp: andthen_def fun_eq_iff)

lemma andthen_Inl [res_simps]: "m s = (Inl e, s') \<Longrightarrow> andthen m f s = (Inl e, s')"
  by (simp add: andthen_def)

lemma andthen_Inr [res_simps]: "m s = (Inr x, s') \<Longrightarrow> andthen m f s = f x s'"
  by (simp add: andthen_def)

lemma andthen_assoc: "andthen (andthen m f) g = andthen m (\<lambda>x. andthen (f x) g)"
  by (auto simp: andthen_def fun_eq_iff split: prod.splits sum.splits)

lemma andthen_Inr_E:
  assumes "andthen m f s = (Inr y, t)"
  obtains x s' where "m s = (Inr x, s')" and "f x s' = (Inr y, t)"
  using assms by (auto simp: andthen_def split: prod.splits sum.splits)

lemma attempt_simps [simp]:
  "m s = (Inr x, s') \<Longrightarrow> attempt m s = (Inr (Inr x), s')"
  "m s = (Inl (Error e), s') \<Longrightarrow> attempt m s = (Inr (Inl e), s')"
  "m s = (Inl (Panic p), s') \<Longrightarrow> attempt m s = (Inl (Panic p), s')"
  by (simp_all add: attempt_def)

lemma snd_attempt [simp]: "snd (attempt m s) = snd (m s)"
  by (auto simp: attempt_def split: prod.splits sum.splits fault.splits)

lemma map_err_Inr_iff [res_simps, simp]: "map_err f m s = (Inr x, t) \<longleftrightarrow> m s = (Inr x, t)"
  by (auto simp: map_err_def split: prod.splits sum.splits fault.splits)

lemma map_err_pair [simp]:
  "m s = (Inr x, t) \<Longrightarrow> map_err f m s = (Inr x, t)"
  "m s = (Inl (Error e), t) \<Longrightarrow> map_err f m s = (Inl (Error (f e)), t)"
  "m s = (Inl (Panic p), t) \<Longrightarrow> map_err f m s = (Inl (Panic p), t)"
  by (simp_all add: map_err_def)

lemma snd_map_err [simp]: "snd (map_err f m s) = snd (m s)"
  by (auto simp: map_err_def split: prod.splits sum.splits fault.splits)

lemma snd_wrap_err [simp]: "snd (wrap_err ctx m s) = snd (m s)"
  by (simp add: wrap_err_def)

lemma wrap_err_Inr_iff [res_simps, simp]: "wrap_err ctx m s = (Inr x, t) \<longleftrightarrow> m s = (Inr x, t)"
  by (simp add: wrap_err_def)

lemma for_each_append:
  "for_each f (xs @ ys) = andthen (for_each f xs) (\<lambda>_. for_each f ys)"
  by (induction xs) (simp_all add: andthen_assoc)

text \<open>An invariant of the state that the body keeps, whatever it returns, is kept by the loop.\<close>

lemma for_each_inv:
  assumes "I s" and "\<And>x s. x \<in> set xs \<Longrightarrow> I s \<Longrightarrow> I (snd (f x s))"
  shows "I (snd (for_each f xs s))"
  using assms
proof (induction xs arbitrary: s)
  case Nil
  then show ?case by simp
next
  case (Cons x xs)
  have step: "I (snd (f x s))" using Cons.prems by simp
  show ?case
  proof (cases "f x s")
    case (Pair r t)
    have it: "I t" using step Pair by simp
    show ?thesis
    proof (cases r)
      case (Inl e)
      then show ?thesis using Pair it by (simp add: andthen_def)
    next
      case (Inr u)
      have "I (snd (for_each f xs t))"
        using Cons.IH [OF it] Cons.prems(2) by simp
      then show ?thesis using Pair Inr by (simp add: andthen_def)
    qed
  qed
qed

text \<open>
  An action on a component of the state; collecting an iterator of results (the first error wins);
  and \<open>join_all\<close>, which runs every future of a list to its end before any result is looked at.
  The futures run one after the other, in the order of the list.
\<close>

definition zoom :: "('s \<Rightarrow> 'x) \<Rightarrow> ('x \<Rightarrow> 's \<Rightarrow> 's) \<Rightarrow> ('x, 'a) act \<Rightarrow> ('s, 'a) act" where
  "zoom view upd m = (\<lambda>s. case m (view s) of (r, x) \<Rightarrow> (r, upd x s))"

primrec map_res :: "('a \<Rightarrow> 'b res) \<Rightarrow> 'a list \<Rightarrow> 'b list res" where
  "map_res f [] = Inr []"
| "map_res f (x # xs) = bind_res (f x) (\<lambda>y. bind_res (map_res f xs) (\<lambda>ys. Inr (y # ys)))"

primrec join_all :: "('a \<Rightarrow> ('s, 'b) act) \<Rightarrow> 'a list \<Rightarrow> ('s, (string + 'b) list) act" where
  "join_all f [] = ret []"
| "join_all f (x # xs) =
     andthen (attempt (f x)) (\<lambda>r. andthen (join_all f xs) (\<lambda>rs. ret (r # rs)))"

text \<open>A loop over a list that changes local variables, and may leave the function.\<close>

primrec fold_res :: "('a \<Rightarrow> 's \<Rightarrow> 's res) \<Rightarrow> 'a list \<Rightarrow> 's \<Rightarrow> 's res" where
  "fold_res f [] s = Inr s"
| "fold_res f (x # xs) s = bind_res (f x s) (fold_res f xs)"

lemma fold_res_rel:
  assumes "fold_res f xs s = Inr t" "R s s" "\<And>x u v. x \<in> set xs \<Longrightarrow> R s u \<Longrightarrow> f x u = Inr v \<Longrightarrow> R s v"
  shows "R s t"
proof -
  have "R s0 u \<Longrightarrow> fold_res f ys u = Inr t \<Longrightarrow> set ys \<subseteq> set xs \<Longrightarrow>
      (\<And>x u v. x \<in> set xs \<Longrightarrow> R s0 u \<Longrightarrow> f x u = Inr v \<Longrightarrow> R s0 v) \<Longrightarrow> R s0 t" for ys u s0
    by (induction ys arbitrary: u) (auto simp: res_simps)
  then show ?thesis using assms by blast
qed

lemma map_res_Inr_length: "map_res f xs = Inr ys \<Longrightarrow> length ys = length xs"
  by (induction xs arbitrary: ys) (auto simp: res_simps)

lemma map_res_Inr_iff: "map_res f xs = Inr ys \<longleftrightarrow> list_all2 (\<lambda>x y. f x = Inr y) xs ys"
  by (induction xs arbitrary: ys) (auto simp: res_simps list_all2_Cons1)

lemma map_res_no_panic: "(\<And>x. x \<in> set xs \<Longrightarrow> \<not> is_panic (f x)) \<Longrightarrow> \<not> is_panic (map_res f xs)"
proof (induction xs)
  case Nil
  then show ?case by simp
next
  case (Cons x xs)
  then have "\<not> is_panic (f x)" "\<not> is_panic (map_res f xs)" by simp_all
  then show ?case by (cases "f x"; cases "map_res f xs") (auto elim: is_panic.elims)
qed

lemma is_panic_simps [simp]:
  "is_panic (Inl e) \<longleftrightarrow> (\<exists>p. e = Panic p)" "\<not> is_panic (of_result r)" "\<not> is_panic (ok_or v msg)"
proof -
  show "is_panic (Inl e) \<longleftrightarrow> (\<exists>p. e = Panic p)" by (cases e) simp_all
  show "\<not> is_panic (of_result r)" by (cases r) simp_all
  show "\<not> is_panic (ok_or v msg)" by (cases v) simp_all
qed

subsection \<open>Preconditions and postconditions\<close>

text \<open>
  \<open>triple P m Q E\<close>: started in a state with \<open>P\<close>, the action ends with a value and a state in \<open>Q\<close>, or
  with a fault and a state in \<open>E\<close>. Actions are total functions, so it always ends.
\<close>

definition triple ::
    "('s \<Rightarrow> bool) \<Rightarrow> ('s, 'a) act \<Rightarrow> ('a \<Rightarrow> 's \<Rightarrow> bool) \<Rightarrow> (fault \<Rightarrow> 's \<Rightarrow> bool) \<Rightarrow> bool" where
  "triple P m Q E \<longleftrightarrow> (\<forall>s. P s \<longrightarrow> (case m s of (Inl e, t) \<Rightarrow> E e t | (Inr x, t) \<Rightarrow> Q x t))"

text \<open>Failing with an error, never a panic, in a state that still has the invariant.\<close>

abbreviation errs :: "('s \<Rightarrow> bool) \<Rightarrow> fault \<Rightarrow> 's \<Rightarrow> bool" where
  "errs I \<equiv> \<lambda>e t. I t \<and> (\<forall>p. e \<noteq> Panic p)"

named_theorems triple_intros \<open>rules that take a triple apart\<close>

lemma tripleI:
  "(\<And>s e t. P s \<Longrightarrow> m s = (Inl e, t) \<Longrightarrow> E e t) \<Longrightarrow> (\<And>s x t. P s \<Longrightarrow> m s = (Inr x, t) \<Longrightarrow> Q x t) \<Longrightarrow>
     triple P m Q E"
  by (auto simp: triple_def split: prod.split sum.split)

lemma tripleD:
  "triple P m Q E \<Longrightarrow> P s \<Longrightarrow> m s = (Inr x, t) \<Longrightarrow> Q x t"
  "triple P m Q E \<Longrightarrow> P s \<Longrightarrow> m s = (Inl e, t) \<Longrightarrow> E e t"
  unfolding triple_def by (metis (no_types, lifting) case_prod_conv sum.case(2), metis (no_types, lifting) case_prod_conv sum.case(1))

lemma tripleD_case: "triple P m Q E \<Longrightarrow> P s \<Longrightarrow> (case m s of (Inl e, t) \<Rightarrow> E e t | (Inr x, t) \<Rightarrow> Q x t)"
  by (simp add: triple_def)

lemma triple_conseq:
  assumes "triple P' m Q' E'" "\<And>s. P s \<Longrightarrow> P' s" "\<And>x t. Q' x t \<Longrightarrow> Q x t" "\<And>e t. E' e t \<Longrightarrow> E e t"
  shows "triple P m Q E"
  using assms unfolding triple_def by (fastforce split: prod.splits sum.splits)

lemma triple_ret [triple_intros]: "(\<And>s. P s \<Longrightarrow> Q x s) \<Longrightarrow> triple P (ret x) Q E"
  by (auto intro!: tripleI)

lemma triple_Pair [simp]:
  "triple P (Pair (Inr x)) Q E \<longleftrightarrow> (\<forall>s. P s \<longrightarrow> Q x s)"
  "triple P (Pair (Inl e)) Q E \<longleftrightarrow> (\<forall>s. P s \<longrightarrow> E e s)"
  by (simp_all add: triple_def)

lemma triple_lift_res [triple_intros]:
  "(\<And>s x. P s \<Longrightarrow> r = Inr x \<Longrightarrow> Q x s) \<Longrightarrow> (\<And>s e. P s \<Longrightarrow> r = Inl e \<Longrightarrow> E e s) \<Longrightarrow> triple P (lift_res r) Q E"
  by (auto intro!: tripleI)

lemma triple_andthen:
  assumes "triple P m R E" "\<And>x. triple (R x) (f x) Q E"
  shows "triple P (andthen m f) Q E"
proof (rule tripleI)
  fix s e t
  assume P: "P s" and run: "andthen m f s = (Inl e, t)"
  show "E e t"
  proof (cases "m s")
    case (Pair r s')
    then show ?thesis
      using P run assms by (cases r) (auto simp: andthen_def dest: tripleD)
  qed
next
  fix s x t
  assume P: "P s" and run: "andthen m f s = (Inr x, t)"
  then obtain y s' where "m s = (Inr y, s')" "f y s' = (Inr x, t)" by (auto elim: andthen_Inr_E)
  then show "Q x t" using P assms by (auto dest: tripleD)
qed

lemma triple_map_err:
  "triple P m Q (\<lambda>e t. case e of Error msg \<Rightarrow> E (Error (f msg)) t | Panic p \<Rightarrow> E (Panic p) t) \<Longrightarrow>
     triple P (map_err f m) Q E"
  by (fastforce simp: triple_def map_err_def split: prod.splits sum.splits fault.splits)

lemma triple_attempt:
  assumes "triple P m Q E" "\<And>p t. \<not> E (Panic p) t"
  shows "triple P (attempt m) (\<lambda>r t. case r of Inl e \<Rightarrow> E (Error e) t | Inr x \<Rightarrow> Q x t) F"
  using assms by (fastforce simp: triple_def attempt_def split: prod.splits sum.splits fault.splits)

lemma triple_lift_errs:
  "\<not> is_panic r \<Longrightarrow> (\<And>x. r = Inr x \<Longrightarrow> Q x) \<Longrightarrow> triple I (lift_res r) (\<lambda>x t. I t \<and> Q x) (errs I)"
  by (rule triple_lift_res) auto

lemma triple_lift_then:
  assumes "\<not> is_panic r" "\<And>x. r = Inr x \<Longrightarrow> triple I (f x) Q (errs I)"
  shows "triple I (andthen (lift_res r) f) Q (errs I)"
  using assms by (cases r) (simp_all add: triple_def andthen_def)

text \<open>An action that reads the state it starts in.\<close>

lemma triple_read:
  assumes "\<And>s0. P s0 \<Longrightarrow> triple P (f s0) Q E"
  shows "triple P (\<lambda>s. f s s) Q E"
  using assms by (simp add: triple_def)

lemma triple_map_errs:
  "triple P m Q (errs I) \<Longrightarrow> triple P (map_err f m) Q (errs I)"
  by (rule triple_map_err, erule triple_conseq) (auto split: fault.split)

text \<open>A fact that the first action establishes about its value, whatever the state.\<close>

lemma triple_andthen_fact:
  assumes "triple P m (\<lambda>x t. R t \<and> F x) E" "\<And>x. F x \<Longrightarrow> triple R (f x) Q E"
  shows "triple P (andthen m f) Q E"
  by (rule triple_andthen [OF assms(1)]) (use assms(2) in \<open>auto simp: triple_def\<close>)

lemma triple_for_each:
  assumes "\<And>x. x \<in> set xs \<Longrightarrow> triple I (f x) (\<lambda>_. I) E"
  shows "triple I (for_each f xs) (\<lambda>_. I) E"
  using assms by (induction xs) (auto intro: triple_ret triple_andthen)

lemma triple_zoom:
  assumes "\<And>s. P s \<Longrightarrow> triple (\<lambda>x. x = view s) m (\<lambda>y x. Q y (upd x s)) (\<lambda>e x. E e (upd x s))"
  shows "triple P (zoom view upd m) Q E"
  using assms by (fastforce simp: triple_def zoom_def split: prod.splits sum.splits)

lemma triple_zoom_inv:
  assumes "triple P m (\<lambda>x t. P t \<and> Q x) (errs P)" "\<And>s. I s \<Longrightarrow> P (view s)"
    and "\<And>s x. I s \<Longrightarrow> P x \<Longrightarrow> I (upd x s)"
  shows "triple I (zoom view upd m) (\<lambda>x t. I t \<and> Q x) (errs I)"
proof (rule tripleI)
  fix s e t
  assume I: "I s" and run: "zoom view upd m s = (Inl e, t)"
  then obtain x where "m (view s) = (Inl e, x)" "t = upd x s" by (auto simp: zoom_def split: prod.splits)
  then show "errs I e t" using tripleD(2) [OF assms(1)] assms(2,3) I by blast
next
  fix s y t
  assume I: "I s" and run: "zoom view upd m s = (Inr y, t)"
  then obtain x where "m (view s) = (Inr y, x)" "t = upd x s" by (auto simp: zoom_def split: prod.splits)
  then show "I t \<and> Q y" using tripleD(1) [OF assms(1)] assms(2,3) I by blast
qed

text \<open>Futures that keep an invariant and do not panic: each result is an error or as promised.\<close>

lemma triple_join_all:
  assumes "\<And>x. x \<in> set xs \<Longrightarrow> triple I (f x) (\<lambda>y t. I t \<and> Q x y) (errs I)"
  shows "triple I (join_all f xs)
    (\<lambda>rs t. I t \<and> list_all2 (\<lambda>x r. \<forall>y. r = Inr y \<longrightarrow> Q x y) xs rs) (\<lambda>_ _. False)"
  using assms
proof (induction xs)
  case Nil
  then show ?case by simp
next
  case (Cons x xs)
  have first: "triple I (attempt (f x)) (\<lambda>r t. I t \<and> (\<forall>y. r = Inr y \<longrightarrow> Q x y)) (\<lambda>_ _. False)"
    by (rule triple_conseq [OF triple_attempt [OF Cons.prems [of x]]]) (auto split: sum.splits)
  have rest: "triple I (join_all f xs)
      (\<lambda>rs t. I t \<and> list_all2 (\<lambda>x r. \<forall>y. r = Inr y \<longrightarrow> Q x y) xs rs) (\<lambda>_ _. False)"
    using Cons by simp
  have tail: "triple (\<lambda>t. I t \<and> (\<forall>y. r = Inr y \<longrightarrow> Q x y)) (andthen (join_all f xs) (\<lambda>rs. ret (r # rs)))
      (\<lambda>rs t. I t \<and> list_all2 (\<lambda>x r. \<forall>y. r = Inr y \<longrightarrow> Q x y) (x # xs) rs) (\<lambda>_ _. False)" for r
  proof (cases "\<forall>y. r = Inr y \<longrightarrow> Q x y")
    case True
    have "triple I (andthen (join_all f xs) (\<lambda>rs. ret (r # rs)))
        (\<lambda>rs t. I t \<and> list_all2 (\<lambda>x r. \<forall>y. r = Inr y \<longrightarrow> Q x y) (x # xs) rs) (\<lambda>_ _. False)"
      by (rule triple_andthen [OF rest], rule triple_ret) (use True in auto)
    then show ?thesis using True by simp
  next
    case False
    then show ?thesis by (simp only: triple_def) blast
  qed
  show ?case
    unfolding join_all.simps by (rule triple_andthen [OF first tail])
qed

subsection \<open>Observations that do not change\<close>

text \<open>\<open>keeps f m\<close>: whatever \<open>m\<close> returns, it leaves the observation \<open>f\<close> of the state as it was.\<close>

definition keeps :: "('s \<Rightarrow> 'v) \<Rightarrow> ('s, 'a) act \<Rightarrow> bool" where
  "keeps f m \<longleftrightarrow> (\<forall>s. f (snd (m s)) = f s)"

named_theorems keeps_intros \<open>how actions that keep an observation compose\<close>

lemma keepsD: "keeps f m \<Longrightarrow> m s = (r, t) \<Longrightarrow> f t = f s"
  unfolding keeps_def by (metis snd_conv)

lemma keeps_basic [keeps_intros]: "keeps f (ret x)" "keeps f (throw e)" "keeps f (lift_res r)"
  by (simp_all add: keeps_def)

lemma keeps_andthen [keeps_intros]: "keeps f m \<Longrightarrow> (\<And>x. keeps f (k x)) \<Longrightarrow> keeps f (andthen m k)"
  unfolding keeps_def andthen_def by (auto split: prod.split sum.split) (metis snd_conv)+

lemma keeps_attempt [keeps_intros]:
  "keeps f m \<Longrightarrow> keeps f (attempt m)" "keeps f m \<Longrightarrow> keeps f (map_err g m)" "keeps f m \<Longrightarrow> keeps f (wrap_err ctx m)"
  by (simp_all add: keeps_def)

lemma keeps_cases [keeps_intros]:
  "keeps f m \<Longrightarrow> keeps f m' \<Longrightarrow> keeps f (if P then m else m')"
  "(\<And>e. keeps f (g e)) \<Longrightarrow> (\<And>x. keeps f (h x)) \<Longrightarrow> keeps f (case r of Inl e \<Rightarrow> g e | Inr x \<Rightarrow> h x)"
  "keeps f m \<Longrightarrow> (\<And>x. keeps f (k x)) \<Longrightarrow> keeps f (case v of None \<Rightarrow> m | Some x \<Rightarrow> k x)"
  "(\<And>x y. keeps f (l x y)) \<Longrightarrow> keeps f (case p of (x, y) \<Rightarrow> l x y)"
  by (auto split: sum.split option.split prod.split)

lemma keeps_for_each [keeps_intros]: "(\<And>x. keeps f (g x)) \<Longrightarrow> keeps f (for_each g xs)"
  by (induction xs) (auto intro!: keeps_intros)

section \<open>Hash maps\<close>

type_synonym ('k, 'v) hmap = "('k \<times> 'v) list"

definition hm_extend :: "('k, 'v) hmap \<Rightarrow> ('k \<times> 'v) list \<Rightarrow> ('k, 'v) hmap" where
  "hm_extend m kvs = fold (\<lambda>(k, v). AList.update k v) kvs m"

text \<open>\<open>entry(k).or_insert(v)\<close>, and collecting an iterator of pairs into a map.\<close>

definition hm_or_insert :: "'k \<Rightarrow> 'v \<Rightarrow> ('k, 'v) hmap \<Rightarrow> ('k, 'v) hmap" where
  "hm_or_insert k v m = (case map_of m k of None \<Rightarrow> AList.update k v m | Some _ \<Rightarrow> m)"

definition hm_collect :: "('k \<times> 'v) list \<Rightarrow> ('k, 'v) hmap" where
  "hm_collect kvs = hm_extend [] kvs"

definition hm_keys :: "('k, 'v) hmap \<Rightarrow> 'k list" where
  "hm_keys m = map fst m"

definition hm_wf :: "('k, 'v) hmap \<Rightarrow> bool" where
  "hm_wf m \<longleftrightarrow> distinct (map fst m)"

text \<open>
  The interface the components rely on: a lookup and an insertion related by one law. Everything
  the proofs use of \<open>extend\<close> and of insertion loops follows from it.
\<close>

locale dictionary =
  fixes get :: "'m \<Rightarrow> 'k \<Rightarrow> 'v option"
    and put :: "'k \<Rightarrow> 'v \<Rightarrow> 'm \<Rightarrow> 'm"
  assumes get_put: "get (put k v m) = (get m)(k \<mapsto> v)"
begin

lemma get_put_same: "get (put k v m) k = Some v"
  by (simp add: get_put)

lemma get_put_other: "k \<noteq> k' \<Longrightarrow> get (put k v m) k' = get m k'"
  by (simp add: get_put)

lemma get_puts: "get (fold (\<lambda>(k, v). put k v) kvs m) = get m ++ map_of (rev kvs)"
proof (induction kvs arbitrary: m)
  case Nil
  then show ?case by simp
next
  case (Cons kv kvs)
  obtain k v where kv: "kv = (k, v)" by (cases kv)
  have "get (fold (\<lambda>(k, v). put k v) kvs (put k v m)) = (get m ++ [k \<mapsto> v]) ++ map_of (rev kvs)"
    using Cons.IH [of "put k v m"] by (simp only: get_put map_add_upd map_add_empty)
  also have "\<dots> = get m ++ map_of (rev (kv # kvs))"
    unfolding map_add_assoc [symmetric] by (simp add: kv)
  finally show ?case by (simp add: kv)
qed

lemma dom_puts: "dom (get (fold (\<lambda>(k, v). put k v) kvs m)) = dom (get m) \<union> fst ` set kvs"
  by (simp add: get_puts dom_map_of_conv_image_fst Un_commute)

lemma get_puts_new:
  "get m k = None \<Longrightarrow> get (fold (\<lambda>(k, v). put k v) kvs m) k = map_of (rev kvs) k"
  by (simp add: get_puts map_add_def split: option.splits)

end

interpretation hm: dictionary map_of AList.update
  by unfold_locales (simp add: update_conv')

lemma hm_get_extend: "map_of (hm_extend m kvs) = map_of m ++ map_of (rev kvs)"
  unfolding hm_extend_def by (rule hm.get_puts)

lemma hm_get_extend_Some:
  "map_of (hm_extend m kvs) k = Some v \<longleftrightarrow>
     map_of (rev kvs) k = Some v \<or> map_of (rev kvs) k = None \<and> map_of m k = Some v"
  by (simp add: hm_get_extend map_add_Some_iff)

lemma hm_get_collect: "map_of (hm_collect kvs) = map_of (rev kvs)"
  by (simp add: hm_collect_def hm_get_extend)

lemma hm_get_or_insert:
  "map_of (hm_or_insert k v m) = (if map_of m k = None then (map_of m)(k \<mapsto> v) else map_of m)"
  by (auto simp: hm_or_insert_def update_conv' split: option.splits)

lemma hm_wf_Nil [simp]: "hm_wf []"
  by (simp add: hm_wf_def)

lemma hm_wf_update [simp]: "hm_wf m \<Longrightarrow> hm_wf (AList.update k v m)"
  by (simp add: hm_wf_def distinct_update)

lemma hm_wf_extend [simp]: "hm_wf m \<Longrightarrow> hm_wf (hm_extend m kvs)"
  unfolding hm_extend_def by (induction kvs arbitrary: m) auto

lemma hm_wf_or_insert [simp]: "hm_wf m \<Longrightarrow> hm_wf (hm_or_insert k v m)"
  by (simp add: hm_or_insert_def split: option.splits)

lemma map_of_rev_hm [simp]: "hm_wf kvs \<Longrightarrow> map_of (rev kvs) = map_of kvs"
  unfolding hm_wf_def by (metis distinct_rev map_of_inject_set rev_map set_rev)

subsection \<open>Counters\<close>

text \<open>\<open>*map.entry(k).or_insert(0) += d\<close>\<close>

definition hm_bump :: "bool \<Rightarrow> 'k \<Rightarrow> u64 \<Rightarrow> ('k, u64) hmap \<Rightarrow> ('k, u64) hmap res" where
  "hm_bump chk k d m =
     bind_res (add_ovf chk (case map_of m k of None \<Rightarrow> 0 | Some c \<Rightarrow> c) d)
       (\<lambda>c. Inr (AList.update k c m))"

definition hm_total :: "('k, u64) hmap \<Rightarrow> u64" where
  "hm_total m = sum_list (map snd m)"

lemma hm_total_Nil [simp]: "hm_total [] = 0"
  by (simp add: hm_total_def)

lemma hm_total_update:
  "hm_total (AList.update k v m) = hm_total m - (case map_of m k of None \<Rightarrow> 0 | Some c \<Rightarrow> c) + v"
  by (induction m) (auto simp: hm_total_def algebra_simps split: option.splits)

lemma hm_total_bump: "hm_bump chk k d m = Inr m' \<Longrightarrow> hm_total m' = hm_total m + d"
  by (auto simp: hm_bump_def res_simps hm_total_update dest: add_ovf_Inr)

lemma hm_wf_bump: "hm_bump chk k d m = Inr m' \<Longrightarrow> hm_wf m \<Longrightarrow> hm_wf m'"
  by (auto simp: hm_bump_def res_simps)

lemma hm_bump_release:
  "hm_bump False k d m = Inr (AList.update k ((case map_of m k of None \<Rightarrow> 0 | Some c \<Rightarrow> c) + d) m)"
  by (simp add: hm_bump_def)

section \<open>Numbers as text\<close>

definition digit_chr :: "nat \<Rightarrow> char" where
  "digit_chr d = (if d < 10 then char_of (48 + d) else char_of (87 + d))"

text \<open>\<open>Display\<close> (radix 10) and \<open>LowerHex\<close> (radix 16) of an unsigned integer.\<close>

function show_radix :: "nat \<Rightarrow> nat \<Rightarrow> string" where
  "show_radix b n =
     (if b < 2 \<or> n < b then [digit_chr n] else show_radix b (n div b) @ [digit_chr (n mod b)])"
  by pat_completeness auto
termination
  by (relation "measure snd") (auto intro: div_less_dividend)

declare show_radix.simps [simp del]

abbreviation show_nat :: "nat \<Rightarrow> string" where
  "show_nat n \<equiv> show_radix 10 n"

abbreviation show_u64 :: "u64 \<Rightarrow> string" where
  "show_u64 n \<equiv> show_nat (unat n)"

abbreviation show_hex :: "nat \<Rightarrow> string" where
  "show_hex n \<equiv> show_radix 16 n"

text \<open>\<open>char::to_digit\<close>, and \<open>from_str_radix\<close> for an unsigned type with \<open>m\<close> values.\<close>

definition to_digit :: "nat \<Rightarrow> char \<Rightarrow> nat option" where
  "to_digit b c =
     (let n = of_char c :: nat;
          d = (if 48 \<le> n \<and> n \<le> 57 then n - 48
               else if 97 \<le> n \<and> n \<le> 122 then n - 87
               else if 65 \<le> n \<and> n \<le> 90 then n - 55
               else b)
      in if d < b then Some d else None)"

fun digits_val :: "nat \<Rightarrow> nat \<Rightarrow> nat \<Rightarrow> string \<Rightarrow> nat option" where
  "digits_val b m acc [] = Some acc"
| "digits_val b m acc (c # cs) =
     (case to_digit b c of
        None \<Rightarrow> None
      | Some d \<Rightarrow> (if acc * b + d < m then digits_val b m (acc * b + d) cs else None))"

definition from_str_radix :: "nat \<Rightarrow> nat \<Rightarrow> string \<Rightarrow> nat option" where
  "from_str_radix b m s =
     (case s of
        [] \<Rightarrow> None
      | c # cs \<Rightarrow>
          (if c = CHR ''+'' then (if cs = [] then None else digits_val b m 0 cs)
           else digits_val b m 0 s))"

definition parse_u64 :: "string \<Rightarrow> u64 option" where
  "parse_u64 s = map_option of_nat (from_str_radix 10 (2 ^ 64) s)"

definition is_digit :: "char \<Rightarrow> bool" where
  "is_digit c \<longleftrightarrow> to_digit 10 c \<noteq> None"

lemma to_digit_digit_chr [simp]:
  assumes "d < b" "b \<le> 16"
  shows "to_digit b (digit_chr d) = Some d"
proof -
  have "of_char (digit_chr d) = (if d < 10 then 48 + d else 87 + d)"
    using assms by (simp add: digit_chr_def)
  then show ?thesis using assms by (simp add: to_digit_def)
qed

lemma digit_chr_inj:
  assumes "d < 16" "e < 16" "digit_chr d = digit_chr e"
  shows "d = e"
proof -
  have "to_digit 16 (digit_chr d) = Some d" "to_digit 16 (digit_chr e) = Some e"
    by (rule to_digit_digit_chr; use assms in simp)+
  then show ?thesis using assms(3) by (metis option.inject)
qed

lemma digit_chr_neq_plus: "d < 16 \<Longrightarrow> digit_chr d \<noteq> CHR ''+''"
  using to_digit_digit_chr [of d 16] by (cases "digit_chr d = CHR ''+''") (simp_all add: to_digit_def)

lemma show_radix_nonempty [simp]: "show_radix b n \<noteq> []"
  by (subst show_radix.simps) simp

lemma show_radix_last: "2 \<le> b \<Longrightarrow> last (show_radix b n) = digit_chr (n mod b)"
  by (subst show_radix.simps) simp

lemma show_radix_digits:
  "c \<in> set (show_radix b n) \<Longrightarrow> 2 \<le> b \<Longrightarrow> \<exists>d < b. c = digit_chr d"
proof (induction b n rule: show_radix.induct)
  case (1 b n)
  show ?case
  proof (cases "b < 2 \<or> n < b")
    case True
    then show ?thesis using "1.prems" by (auto simp: show_radix.simps [of b n])
  next
    case False
    then have "c \<in> set (show_radix b (n div b)) \<or> c = digit_chr (n mod b)"
      using "1.prems"(1) by (auto simp: show_radix.simps [of b n])
    then show ?thesis
    proof
      assume "c \<in> set (show_radix b (n div b))"
      then show ?thesis using "1.IH" "1.prems"(2) False by simp
    next
      assume "c = digit_chr (n mod b)"
      moreover have "n mod b < b" using "1.prems"(2) by simp
      ultimately show ?thesis by blast
    qed
  qed
qed

lemma digits_val_append:
  "digits_val b m acc xs = Some v \<Longrightarrow> digits_val b m acc (xs @ ys) = digits_val b m v ys"
  by (induction xs arbitrary: acc) (auto split: option.splits if_splits)

lemma digits_val_show_radix:
  assumes "2 \<le> b" "b \<le> 16" "n < m"
  shows "digits_val b m 0 (show_radix b n) = Some n"
  using assms
proof (induction b n rule: show_radix.induct)
  case (1 b n)
  show ?case
  proof (cases "n < b")
    case True
    then show ?thesis using "1.prems" by (simp add: show_radix.simps [of b n])
  next
    case False
    have "n div b < m" using "1.prems" by (meson div_le_dividend le_less_trans)
    then have "digits_val b m 0 (show_radix b (n div b)) = Some (n div b)"
      using "1.IH" "1.prems" False by simp
    moreover have "n mod b < b" using "1.prems" by simp
    ultimately show ?thesis
      using False "1.prems" by (simp add: show_radix.simps [of b n] digits_val_append)
  qed
qed

lemma show_radix_hd_not_plus: "2 \<le> b \<Longrightarrow> b \<le> 16 \<Longrightarrow> hd (show_radix b n) \<noteq> CHR ''+''"
  using show_radix_digits [of "hd (show_radix b n)" b n] digit_chr_neq_plus hd_in_set
  by (metis less_le_trans show_radix_nonempty)

theorem from_str_radix_show_radix:
  assumes "2 \<le> b" "b \<le> 16" "n < m"
  shows "from_str_radix b m (show_radix b n) = Some n"
proof (cases "show_radix b n")
  case Nil
  then show ?thesis by simp
next
  case (Cons c cs)
  then have "c \<noteq> CHR ''+''" using show_radix_hd_not_plus [OF assms(1,2), of n] by simp
  then show ?thesis
    using digits_val_show_radix [OF assms] Cons by (simp add: from_str_radix_def)
qed

lemma parse_show_u64 [simp]: "parse_u64 (show_u64 n) = Some n"
proof -
  have "unat n < 2 ^ LENGTH(64)" by (rule unsigned_less)
  then have "from_str_radix 10 (2 ^ 64) (show_u64 n) = Some (unat n)"
    by (intro from_str_radix_show_radix) simp_all
  then show ?thesis by (simp add: parse_u64_def)
qed

lemma show_u64_inj [simp]: "show_u64 a = show_u64 b \<longleftrightarrow> a = b"
  by (metis option.inject parse_show_u64)

lemma show_nat_inj [simp]: "show_nat a = show_nat b \<longleftrightarrow> a = b"
proof
  assume *: "show_nat a = show_nat b"
  have "digits_val 10 (Suc (max a b)) 0 (show_nat a) = Some a"
    by (rule digits_val_show_radix) simp_all
  moreover have "digits_val 10 (Suc (max a b)) 0 (show_nat b) = Some b"
    by (rule digits_val_show_radix) simp_all
  ultimately show "a = b" using * by (metis option.inject)
qed simp

lemma show_nat_digits: "c \<in> set (show_nat n) \<Longrightarrow> is_digit c"
  using show_radix_digits [of c 10 n] by (auto simp: is_digit_def)

lemma digits_val_Some_digits: "digits_val 10 m acc s = Some v \<Longrightarrow> c \<in> set s \<Longrightarrow> is_digit c"
  by (induction s arbitrary: acc) (auto simp: is_digit_def split: option.splits if_splits)

text \<open>
  Reading a formatted number back from the front of a text: what follows the digits starts with
  a character that is no digit.
\<close>

lemma show_nat_append_inj:
  assumes "show_nat a @ x = show_nat b @ y"
    and "x = [] \<or> \<not> is_digit (hd x)" and "y = [] \<or> \<not> is_digit (hd y)"
  shows "a = b \<and> x = y"
proof -
  have tw: "takeWhile is_digit (show_nat n @ z) = show_nat n"
    if "z = [] \<or> \<not> is_digit (hd z)" for n z
    using that by (cases z) (auto simp: takeWhile_append2 show_nat_digits)
  have "show_nat a = show_nat b" using tw [OF assms(2)] tw [OF assms(3)] assms(1) by metis
  then show ?thesis using assms(1) by simp
qed

section \<open>Texts\<close>

text \<open>\<open>starts_with\<close>, \<open>ends_with\<close>, \<open>trim_start_matches\<close>, and \<open>{:0w}\<close> padding.\<close>

definition starts_with :: "string \<Rightarrow> string \<Rightarrow> bool" where
  "starts_with s p \<longleftrightarrow> take (length p) s = p"

definition ends_with :: "string \<Rightarrow> string \<Rightarrow> bool" where
  "ends_with s p \<longleftrightarrow> length p \<le> length s \<and> drop (length s - length p) s = p"

function trim_start_matches :: "string \<Rightarrow> string \<Rightarrow> string" where
  "trim_start_matches p s =
     (if p \<noteq> [] \<and> starts_with s p then trim_start_matches p (drop (length p) s) else s)"
  by pat_completeness auto
termination
  by (relation "measure (\<lambda>(p, s). length s)") (auto simp: starts_with_def intro!: diff_less)

declare trim_start_matches.simps [simp del]

definition pad0 :: "nat \<Rightarrow> string \<Rightarrow> string" where
  "pad0 w s = replicate (w - length s) (CHR ''0'') @ s"

lemma digits_val_zeros: "0 < m \<Longrightarrow> digits_val 10 m 0 (replicate k (CHR ''0'') @ s) = digits_val 10 m 0 s"
  by (induction k) (simp_all add: to_digit_def)

lemma pad0_digits: "c \<in> set (pad0 w (show_nat n)) \<Longrightarrow> is_digit c"
  by (auto simp: pad0_def show_nat_digits is_digit_def to_digit_def dest: show_nat_digits)

lemma pad0_show_inj: "pad0 w (show_nat a) = pad0 w (show_nat b) \<Longrightarrow> a = b"
proof -
  assume *: "pad0 w (show_nat a) = pad0 w (show_nat b)"
  have "digits_val 10 (Suc (max a b)) 0 (pad0 w (show_nat n)) = Some n" if "n \<le> max a b" for n
    using that digits_val_show_radix [of 10 n "Suc (max a b)"]
    by (simp add: pad0_def digits_val_zeros)
  from this [of a] this [of b] have "Some a = Some b" unfolding * by simp
  then show "a = b" by simp
qed

lemma pad0_append_inj:
  assumes "pad0 w (show_nat a) @ c # x = pad0 w (show_nat b) @ d # y"
    and "\<not> is_digit c" and "\<not> is_digit d"
  shows "a = b \<and> c = d \<and> x = y"
proof -
  have tw: "takeWhile is_digit (pad0 w (show_nat n) @ e # z) = pad0 w (show_nat n)"
    if "\<not> is_digit e" for n e z
    using that by (simp add: takeWhile_append2 pad0_digits)
  have "pad0 w (show_nat a) = pad0 w (show_nat b)"
    using tw [OF assms(2)] tw [OF assms(3)] assms(1) by metis
  then show ?thesis using assms(1) pad0_show_inj by auto
qed

lemma starts_with_append [simp]: "starts_with (p @ s) p"
  by (simp add: starts_with_def)

lemma ends_with_append [simp]: "ends_with (s @ p) p"
  by (simp add: ends_with_def)

lemma starts_withE: "starts_with s p \<Longrightarrow> \<exists>t. s = p @ t"
  by (metis append_take_drop_id starts_with_def)

lemma ends_withE: "ends_with s p \<Longrightarrow> \<exists>t. s = t @ p"
  by (metis append_take_drop_id ends_with_def)

lemma trim_start_matches_done:
  assumes "p \<noteq> []"
  shows "\<not> starts_with (trim_start_matches p s) p"
  using assms
proof (induction p s rule: trim_start_matches.induct)
  case (1 p s)
  then show ?case by (cases "starts_with s p") (simp_all add: trim_start_matches.simps [of p s])
qed

end
