(* ===== verification/Durations.thy ===== *)
theory Durations
  imports Rust_Prelude Complex_Main "HOL-Library.Multiset"
begin

text \<open>
  \<open>std::time::Duration\<close> as a number of nanoseconds, the statistics of \<open>src/profiling.rs\<close> over
  repeated runs, and \<open>format_duration\<close>, of which \<open>src/report.rs\<close>, \<open>src/fetcher.rs\<close> and
  \<open>src/cli.rs\<close> have one textually identical copy each.

  The \<open>f64\<close> computations (\<open>percentile\<close>, \<open>stddev_ms\<close>) are over the reals: rounding of the
  floating-point operations is not modelled.
\<close>

section \<open>Durations\<close>

type_synonym duration = nat

definition dur_limit :: nat where
  "dur_limit = 2 ^ 64 * 10 ^ 9"

definition as_secs :: "duration \<Rightarrow> nat" where
  "as_secs d = d div 10 ^ 9"

definition subsec_millis :: "duration \<Rightarrow> nat" where
  "subsec_millis d = d mod 10 ^ 9 div 10 ^ 6"

definition as_secs_f64 :: "duration \<Rightarrow> real" where
  "as_secs_f64 d = real d / 10 ^ 9"

definition dur_add :: "duration \<Rightarrow> duration \<Rightarrow> duration res" where
  "dur_add a b =
     (if a + b < dur_limit then Inr (a + b) else Inl (Panic ''overflow when adding durations''))"

definition dur_sum :: "duration list \<Rightarrow> duration res" where
  "dur_sum ds =
     (if sum_list ds < dur_limit then Inr (sum_list ds)
      else Inl (Panic ''overflow in iter::sum over durations''))"

definition dur_div :: "duration \<Rightarrow> nat \<Rightarrow> duration res" where
  "dur_div d n =
     (if n = 0 then Inl (Panic ''divide by zero error when dividing duration by scalar'')
      else Inr (d div n))"

section \<open>Run statistics\<close>

record run_stats =
  rs_sorted :: "duration list"

definition run_stats_new :: "duration list \<Rightarrow> run_stats" where
  "run_stats_new durations = \<lparr>rs_sorted = sort durations\<rparr>"

definition rs_min :: "run_stats \<Rightarrow> duration res" where
  "rs_min rs = index_at (rs_sorted rs) 0"

definition rs_max :: "run_stats \<Rightarrow> duration res" where
  "rs_max rs = (if rs_sorted rs = [] then unwrap None else unwrap (Some (last (rs_sorted rs))))"

text \<open>\<open>len as u32\<close> keeps the low 32 bits of the length.\<close>

definition rs_mean :: "run_stats \<Rightarrow> duration res" where
  "rs_mean rs =
     bind_res (dur_sum (rs_sorted rs)) (\<lambda>total. dur_div total (length (rs_sorted rs) mod 2 ^ 32))"

text \<open>
  On no samples \<open>len / 2 - 1\<close> underflows: a panic of the subtraction, or, in a release build, of
  the indexing that follows.
\<close>

definition rs_median :: "run_stats \<Rightarrow> duration res" where
  "rs_median rs =
     (let xs = rs_sorted rs; len = length xs in
      if len mod 2 = 0 then
        (if len = 0 then Inl (Panic ''attempt to subtract with overflow'')
         else bind_res (index_at xs (len div 2 - 1)) (\<lambda>a.
              bind_res (index_at xs (len div 2)) (\<lambda>b.
              bind_res (dur_add a b) (\<lambda>t. dur_div t 2))))
      else index_at xs (len div 2))"

definition rs_stddev_ms :: "run_stats \<Rightarrow> real res" where
  "rs_stddev_ms rs =
     bind_res (rs_mean rs) (\<lambda>m.
       let mean_ms = as_secs_f64 m * 1000;
           sq = (\<lambda>d. let diff = as_secs_f64 d * 1000 - mean_ms in diff * diff);
           variance = sum_list (map sq (rs_sorted rs)) / real (length (rs_sorted rs))
       in Inr (sqrt variance))"

text \<open>\<open>f64::round\<close> then \<open>as usize\<close>, which sends what is negative to 0.\<close>

definition percentile_idx :: "real \<Rightarrow> nat \<Rightarrow> nat" where
  "percentile_idx p len = nat (round ((p / 100) * real (len - 1)))"

definition rs_percentile :: "run_stats \<Rightarrow> real \<Rightarrow> duration res" where
  "rs_percentile rs p =
     (let xs = rs_sorted rs in
      if xs = [] then Inl (Panic ''attempt to subtract with overflow'')
      else index_at xs (min (percentile_idx p (length xs)) (length xs - 1)))"

definition rs_len :: "run_stats \<Rightarrow> nat" where
  "rs_len rs = length (rs_sorted rs)"

definition rs_is_empty :: "run_stats \<Rightarrow> bool" where
  "rs_is_empty rs \<longleftrightarrow> rs_sorted rs = []"

text \<open>
  \<open>Display for RunStats\<close>: the values written, line by line, in order; the first one that panics
  ends the formatting.
\<close>

datatype stat_value = DurVal duration | MsVal real

definition rs_fmt :: "run_stats \<Rightarrow> (string \<times> stat_value) list res" where
  "rs_fmt rs =
     bind_res (rs_min rs) (\<lambda>a. bind_res (rs_max rs) (\<lambda>b. bind_res (rs_mean rs) (\<lambda>c.
     bind_res (rs_median rs) (\<lambda>d. bind_res (rs_stddev_ms rs) (\<lambda>e.
     bind_res (rs_percentile rs 95) (\<lambda>f. bind_res (rs_percentile rs 99) (\<lambda>g.
       Inr [(''min'', DurVal a), (''max'', DurVal b), (''mean'', DurVal c), (''median'', DurVal d),
            (''stddev'', MsVal e), (''p95'', DurVal f), (''p99'', DurVal g)])))))))"

text \<open>\<open>print_individual_runs\<close>: the rows \<open>(i + 1, prep, exec, total)\<close> it logs.\<close>

fun individual_rows :: "nat \<Rightarrow> (duration \<times> duration) list \<Rightarrow> (nat \<times> duration \<times> duration \<times> duration) list res" where
  "individual_rows i [] = Inr []"
| "individual_rows i ((p, e) # rest) =
     bind_res (dur_add p e) (\<lambda>total.
     bind_res (individual_rows (i + 1) rest) (\<lambda>rows. Inr ((i + 1, p, e, total) # rows)))"

definition print_individual_runs ::
    "duration list \<Rightarrow> duration list \<Rightarrow> (nat \<times> duration \<times> duration \<times> duration) list res" where
  "print_individual_runs prep exec = individual_rows 0 (zip prep exec)"

section \<open>Formatting\<close>

definition format_duration :: "duration \<Rightarrow> string" where
  "format_duration d =
     (let total_seconds = as_secs d;
          hours = total_seconds div 3600;
          minutes = total_seconds mod 3600 div 60;
          seconds = total_seconds mod 60;
          milliseconds = subsec_millis d
      in if hours > 0 then
           pad0 2 (show_nat hours) @ ''h '' @ pad0 2 (show_nat minutes) @ ''m '' @
           pad0 2 (show_nat seconds) @ ''s '' @ pad0 3 (show_nat milliseconds) @ ''ms''
         else if minutes = 0 then
           pad0 2 (show_nat seconds) @ ''s '' @ pad0 3 (show_nat milliseconds) @ ''ms''
         else pad0 2 (show_nat minutes) @ ''m '' @ pad0 2 (show_nat seconds) @ ''s'')"

section \<open>Lemmas\<close>

lemma rs_sorted_new [simp]: "rs_sorted (run_stats_new ds) = sort ds"
  by (simp add: run_stats_new_def)

lemma sorted_nth_bounds:
  assumes "i < length ds"
  shows "sort ds ! 0 \<le> sort ds ! i" "sort ds ! i \<le> last (sort ds)"
proof -
  have "sort ds \<noteq> []" using assms by (cases "sort ds") (auto dest: arg_cong [of _ _ length])
  then show "sort ds ! 0 \<le> sort ds ! i" "sort ds ! i \<le> last (sort ds)"
    using assms by (auto simp: last_conv_nth intro!: sorted_nth_mono)
qed

lemma nth_pair_le_sum_list:
  assumes "Suc i < length (xs :: nat list)"
  shows "xs ! i + xs ! Suc i \<le> sum_list xs"
proof -
  have "xs = take i xs @ xs ! i # xs ! Suc i # drop (Suc (Suc i)) xs"
    using assms by (metis Cons_nth_drop_Suc Suc_lessD id_take_nth_drop)
  then have "sum_list xs = sum_list (take i xs) + (xs ! i + (xs ! Suc i + sum_list (drop (Suc (Suc i)) xs)))"
    by (metis sum_list.append sum_list.Cons)
  then show ?thesis by simp
qed

lemma sum_list_sort [simp]: "sum_list (sort ds) = sum_list (ds :: nat list)"
  by (metis mset_sort sum_mset_sum_list)

lemma sum_list_between:
  assumes "\<And>x. x \<in> set xs \<Longrightarrow> lo \<le> x \<and> x \<le> (hi :: nat)"
  shows "length xs * lo \<le> sum_list xs \<and> sum_list xs \<le> length xs * hi"
  using assms
proof (induction xs)
  case Nil
  then show ?case by simp
next
  case (Cons x xs)
  then show ?case by (simp add: add_mono)
qed

text \<open>The median of a non-empty sample lies between two elements of the middle of the order.\<close>

lemma rs_median_middle:
  assumes "ds \<noteq> []" "sum_list ds < dur_limit"
  obtains m where "rs_median (run_stats_new ds) = Inr m"
    and "sort ds ! ((length ds - 1) div 2) \<le> m" and "m \<le> sort ds ! (length ds div 2)"
proof (cases "length ds mod 2 = 0")
  case True
  define k where "k = length ds div 2 - 1"
  have k: "Suc k < length ds" "length ds div 2 = Suc k" "(length ds - 1) div 2 = k"
    using True assms(1) by (cases "length ds"; auto simp: k_def elim!: evenE)+
  let ?a = "sort ds ! k" and ?b = "sort ds ! Suc k"
  have "?a + ?b \<le> sum_list ds" using nth_pair_le_sum_list [of k "sort ds"] k(1) by simp
  then have "rs_median (run_stats_new ds) = Inr ((?a + ?b) div 2)"
    using True k assms by (simp add: rs_median_def Let_def dur_add_def dur_div_def)
  moreover have "?a \<le> ?b" using k(1) by (simp add: sorted_nth_mono)
  then have "?a \<le> (?a + ?b) div 2" "(?a + ?b) div 2 \<le> ?b" by auto
  ultimately show ?thesis using that k by simp
next
  case False
  then have "(length ds - 1) div 2 = length ds div 2" by (metis even_iff_mod_2_eq_zero even_succ_div_two odd_pos odd_two_times_div_two_nat odd_two_times_div_two_succ add_diff_cancel_right' nonzero_mult_div_cancel_left zero_neq_numeral)
  moreover have "rs_median (run_stats_new ds) = Inr (sort ds ! (length ds div 2))"
    using False assms by (simp add: rs_median_def Let_def)
  ultimately show ?thesis using that by simp
qed

lemma rs_min_new: "ds \<noteq> [] \<Longrightarrow> rs_min (run_stats_new ds) = Inr (sort ds ! 0)"
  by (simp add: rs_min_def)

lemma sort_eq_Nil [simp]: "sort ds = [] \<longleftrightarrow> ds = []"
  by (metis length_0_conv length_sort)

lemma rs_max_new: "ds \<noteq> [] \<Longrightarrow> rs_max (run_stats_new ds) = Inr (last (sort ds))"
  by (simp add: rs_max_def)

lemma rs_mean_new:
  assumes "ds \<noteq> []" "sum_list ds < dur_limit" "length ds < 2 ^ 32"
  shows "rs_mean (run_stats_new ds) = Inr (sum_list ds div length ds)"
  using assms by (simp add: rs_mean_def dur_sum_def dur_div_def)

lemma rs_mean_bounds:
  assumes "ds \<noteq> []"
  shows "sort ds ! 0 \<le> sum_list ds div length ds" "sum_list ds div length ds \<le> last (sort ds)"
proof -
  have "sort ds ! 0 \<le> x \<and> x \<le> last (sort ds)" if "x \<in> set ds" for x
  proof -
    have "x \<in> set (sort ds)" using that by simp
    then obtain i where "i < length ds" "sort ds ! i = x"
      by (auto simp: in_set_conv_nth simp del: set_sort)
    then show ?thesis using sorted_nth_bounds by blast
  qed
  then have *: "length ds * (sort ds ! 0) \<le> sum_list ds \<and> sum_list ds \<le> length ds * last (sort ds)"
    by (rule sum_list_between)
  have pos: "0 < length ds" using assms by simp
  show "sort ds ! 0 \<le> sum_list ds div length ds"
    using * pos by (simp add: less_eq_div_iff_mult_less_eq mult.commute)
  show "sum_list ds div length ds \<le> last (sort ds)"
    using div_le_mono [of _ _ "length ds"] * pos by fastforce
qed

lemma rs_percentile_new:
  assumes "ds \<noteq> []"
  shows "rs_percentile (run_stats_new ds) p
    = Inr (sort ds ! min (percentile_idx p (length ds)) (length ds - 1))"
proof -
  have "min (percentile_idx p (length ds)) (length ds - 1) < length (sort ds)"
    using assms by (simp add: min_def le_less_trans)
  then show ?thesis using assms unfolding rs_percentile_def Let_def by simp
qed

lemma percentile_idx_mono: "p \<le> q \<Longrightarrow> percentile_idx p n \<le> percentile_idx q n"
  unfolding percentile_idx_def
  by (intro nat_mono round_mono mult_right_mono divide_right_mono) simp_all

lemma percentile_idx_0: "percentile_idx 0 n = 0"
  by (simp add: percentile_idx_def)

lemma percentile_idx_100: "percentile_idx 100 n = n - 1"
  by (simp add: percentile_idx_def)


text \<open>Where a duration shorter than an hour shows no milliseconds.\<close>

lemma format_duration_cases:
  obtains (hours) "as_secs d div 3600 > 0" "format_duration d =
      pad0 2 (show_nat (as_secs d div 3600)) @ ''h '' @ pad0 2 (show_nat (as_secs d mod 3600 div 60)) @ ''m '' @
      pad0 2 (show_nat (as_secs d mod 60)) @ ''s '' @ pad0 3 (show_nat (subsec_millis d)) @ ''ms''"
  | (seconds) "as_secs d < 60" "format_duration d =
      pad0 2 (show_nat (as_secs d)) @ ''s '' @ pad0 3 (show_nat (subsec_millis d)) @ ''ms''"
  | (minutes) "60 \<le> as_secs d" "as_secs d < 3600" "format_duration d =
      pad0 2 (show_nat (as_secs d div 60)) @ ''m '' @ pad0 2 (show_nat (as_secs d mod 60)) @ ''s''"
proof -
  consider "as_secs d div 3600 > 0" | "as_secs d < 60" | "60 \<le> as_secs d" "as_secs d < 3600"
    by (metis div_less div_greater_zero_iff not_less zero_less_numeral)
  then show ?thesis
    by cases (auto simp: format_duration_def Let_def intro: hours seconds minutes)
qed

lemma not_digit_units [simp]: "\<not> is_digit CHR ''h''" "\<not> is_digit CHR ''m''" "\<not> is_digit CHR ''s''"
  by (simp_all add: is_digit_def to_digit_def)

lemma hms_eq:
  "x div 3600 = y div 3600 \<Longrightarrow> x mod 3600 div 60 = y mod 3600 div 60 \<Longrightarrow> x mod 60 = y mod 60 \<Longrightarrow> x = (y :: nat)"
proof -
  have eq: "z = 3600 * (z div 3600) + (60 * (z mod 3600 div 60) + z mod 60)" for z :: nat
  proof -
    have "z mod 60 = z mod 3600 mod 60" by (simp add: mod_mod_cancel)
    then show ?thesis by (metis mult_div_mod_eq)
  qed
  assume "x div 3600 = y div 3600" "x mod 3600 div 60 = y mod 3600 div 60" "x mod 60 = y mod 60"
  then show "x = y" using eq [of x] eq [of y] by simp
qed

lemma card_nth_filter:
  assumes "\<And>i. i \<in> I \<Longrightarrow> i < length xs \<and> P (xs ! i)"
  shows "card I \<le> length (filter P xs)"
proof -
  have "card I \<le> card {i. i < length xs \<and> P (xs ! i)}"
    using assms by (intro card_mono) auto
  then show ?thesis by (simp add: length_filter_conv_card)
qed

lemma length_filter_sort [simp]: "length (filter P (sort ds)) = length (filter P ds)"
  by (metis mset_filter mset_sort size_mset)

section \<open>Properties\<close>

text \<open>
  C35. Over at least one sample (with a total that \<open>Duration\<close> can hold and fewer than \<open>2^32\<close>
  samples), none of the four statistics panics, and the median and the mean lie between the
  minimum and the maximum.
\<close>

theorem run_stats_bounds:
  assumes "ds \<noteq> []" "sum_list ds < dur_limit" "length ds < 2 ^ 32"
  shows "\<exists>lo md mn hi. rs_min (run_stats_new ds) = Inr lo \<and> rs_median (run_stats_new ds) = Inr md \<and>
    rs_mean (run_stats_new ds) = Inr mn \<and> rs_max (run_stats_new ds) = Inr hi \<and>
    lo \<le> md \<and> md \<le> hi \<and> lo \<le> mn \<and> mn \<le> hi"
proof -
  obtain m where m: "rs_median (run_stats_new ds) = Inr m"
    "sort ds ! ((length ds - 1) div 2) \<le> m" "m \<le> sort ds ! (length ds div 2)"
    using assms(1,2) by (rule rs_median_middle)
  have pos: "0 < length ds" using assms(1) by simp
  then have "(length ds - 1) div 2 < length ds" "length ds div 2 < length ds" by linarith+
  then have "sort ds ! 0 \<le> m" "m \<le> last (sort ds)"
    using m(2,3) sorted_nth_bounds order_trans by blast+
  then show ?thesis
    using assms m(1) rs_mean_bounds [OF assms(1)]
    by (simp add: rs_min_new rs_max_new rs_mean_new)
qed

theorem run_stats_bounds_witness:
  "\<exists>lo md mn hi. rs_min (run_stats_new [30, 10]) = Inr lo \<and> rs_median (run_stats_new [30, 10]) = Inr md \<and>
    rs_mean (run_stats_new [30, 10]) = Inr mn \<and> rs_max (run_stats_new [30, 10]) = Inr hi \<and>
    lo \<le> md \<and> md \<le> hi \<and> lo \<le> mn \<and> mn \<le> hi"
  by (rule run_stats_bounds) (simp_all add: dur_limit_def)

text \<open>
  The median is one: at least half of the samples are at most it and at least half of them
  are at least it, for an even and for an odd number of samples.
\<close>

theorem rs_median_halves:
  assumes "ds \<noteq> []" "sum_list ds < dur_limit" "rs_median (run_stats_new ds) = Inr m"
  shows "length ds \<le> 2 * length (filter (\<lambda>d. d \<le> m) ds) \<and> length ds \<le> 2 * length (filter (\<lambda>d. m \<le> d) ds)"
proof -
  have m: "sort ds ! ((length ds - 1) div 2) \<le> m" "m \<le> sort ds ! (length ds div 2)"
    using rs_median_middle [OF assms(1,2)] assms(3) by auto
  have pos: "0 < length ds" using assms(1) by simp
  have q: "(length ds - 1) div 2 < length ds" using pos by linarith
  have lo: "sort ds ! i \<le> m" if "i \<le> (length ds - 1) div 2" for i
  proof -
    have "sort ds ! i \<le> sort ds ! ((length ds - 1) div 2)"
      using that q by (intro sorted_nth_mono) (simp_all only: sorted_sort length_sort)
    then show ?thesis using m(1) by (rule order_trans)
  qed
  have hi: "m \<le> sort ds ! i" if "length ds div 2 \<le> i" "i < length ds" for i
    using that m(2) sorted_nth_mono [of "sort ds" "length ds div 2" i] by simp
  have "card {..(length ds - 1) div 2} \<le> length (filter (\<lambda>d. d \<le> m) (sort ds))"
    using lo q by (intro card_nth_filter) auto
  moreover have "card {length ds div 2..<length ds} \<le> length (filter (\<lambda>d. m \<le> d) (sort ds))"
    using hi by (intro card_nth_filter) auto
  ultimately show ?thesis using pos by simp linarith
qed

theorem rs_median_halves_witness:
  "length [30, 10, 20::nat] \<le> 2 * length (filter (\<lambda>d. d \<le> 20) [30, 10, 20::nat]) \<and>
   length [30, 10, 20::nat] \<le> 2 * length (filter (\<lambda>d. 20 \<le> d) [30, 10, 20::nat])"
  by (rule rs_median_halves) (simp_all add: dur_limit_def rs_median_def run_stats_new_def)

text \<open>
  A percentile is one of the samples and grows with its rank; the 0th is the minimum and the
  100th the maximum.
\<close>

theorem rs_percentile_rank:
  assumes "ds \<noteq> []" "p \<le> q"
  shows "\<exists>a b. rs_percentile (run_stats_new ds) p = Inr a \<and> rs_percentile (run_stats_new ds) q = Inr b \<and>
    a \<le> b \<and> a \<in> set ds \<and> b \<in> set ds \<and>
    rs_percentile (run_stats_new ds) 0 = rs_min (run_stats_new ds) \<and>
    rs_percentile (run_stats_new ds) 100 = rs_max (run_stats_new ds)"
proof -
  define i where "i = min (percentile_idx p (length ds)) (length ds - 1)"
  define j where "j = min (percentile_idx q (length ds)) (length ds - 1)"
  have ij: "i \<le> j" "i < length ds" "j < length ds"
    using assms percentile_idx_mono [OF assms(2), of "length ds"]
    by (auto simp: i_def j_def min_def le_less_trans intro: le_less_trans)
  then have "sort ds ! i \<le> sort ds ! j" "sort ds ! i \<in> set ds" "sort ds ! j \<in> set ds"
    using nth_mem [of i "sort ds"] nth_mem [of j "sort ds"] by (auto simp: sorted_nth_mono)
  moreover have "sort ds ! (length ds - 1) = last (sort ds)"
    using assms(1) by (simp add: last_conv_nth)
  ultimately show ?thesis
    using assms(1)
    by (simp add: rs_percentile_new i_def j_def percentile_idx_0 percentile_idx_100 rs_min_new rs_max_new)
qed

theorem rs_percentile_rank_witness:
  "\<exists>a b. rs_percentile (run_stats_new [5, 3]) 95 = Inr a \<and> rs_percentile (run_stats_new [5, 3]) 99 = Inr b \<and>
    a \<le> b \<and> a \<in> set [5, 3] \<and> b \<in> set [5, 3] \<and>
    rs_percentile (run_stats_new [5, 3]) 0 = rs_min (run_stats_new [5, 3]) \<and>
    rs_percentile (run_stats_new [5, 3]) 100 = rs_max (run_stats_new [5, 3])"
  by (rule rs_percentile_rank) simp_all

text \<open>
  Two durations with the same text are the same number of whole seconds, and the same number
  of milliseconds unless both are shown in the minutes format, which drops them.
\<close>

theorem format_duration_injective:
  assumes "format_duration a = format_duration b"
  shows "as_secs a = as_secs b \<and>
    (subsec_millis a = subsec_millis b \<or> 60 \<le> as_secs a \<and> as_secs a < 3600)"
  using assms
  by (cases a rule: format_duration_cases; cases b rule: format_duration_cases)
    (auto dest!: pad0_append_inj pad0_show_inj intro: hms_eq)

theorem format_duration_injective_witness:
  "as_secs 61000000000 = as_secs 61999999999 \<and>
   (subsec_millis 61000000000 = subsec_millis 61999999999 \<or> 60 \<le> as_secs 61000000000 \<and> as_secs 61000000000 < 3600)"
  by (rule format_duration_injective) (simp add: format_duration_def as_secs_def Let_def)

end
