(* ===== verification/Rust_Fs.thy ===== *)
theory Rust_Fs
  imports Rust_Prelude
begin

text \<open>
  The part of \<open>std::fs\<close> and \<open>std::path\<close> the program uses. A path is the list of its components;
  \<open>join\<close> appends one component, which is what the program does with the file names it builds. A file system is a finite map
  from paths to contents, a set of directories, and what the operating system refuses
  (permissions, a full disk): the message of the \<open>io::Error\<close> an operation on a path ends with.
\<close>

section \<open>Paths and the state\<close>

type_synonym path = "string list"

datatype fs_op = OpenRead | CreateWrite | MakeDirs | RemoveFile | ListDir

record 'c fs =
  fs_files :: "(path \<times> 'c) list"
  fs_dirs :: "path list"
  fs_denied :: "fs_op \<Rightarrow> path \<Rightarrow> string option"

definition join :: "path \<Rightarrow> string \<Rightarrow> path" where
  "join d name = d @ [name]"

fun path_display :: "path \<Rightarrow> string" where
  "path_display [] = []"
| "path_display [c] = c"
| "path_display (c # cs) = c @ ''/'' @ path_display cs"

definition ancestors :: "path \<Rightarrow> path list" where
  "ancestors d = map (\<lambda>i. take (Suc i) d) [0..<length d]"

abbreviation fs_read :: "('c, 'z) fs_scheme \<Rightarrow> path \<Rightarrow> 'c option" where
  "fs_read s \<equiv> map_of (fs_files s)"

definition fs_is_dir :: "('c, 'z) fs_scheme \<Rightarrow> path \<Rightarrow> bool" where
  "fs_is_dir s p \<longleftrightarrow> p = [] \<or> p \<in> set (fs_dirs s)"

definition fs_exists :: "('c, 'z) fs_scheme \<Rightarrow> path \<Rightarrow> bool" where
  "fs_exists s p \<longleftrightarrow> fs_is_dir s p \<or> fs_read s p \<noteq> None"

definition empty_fs :: "'c fs" where
  "empty_fs = \<lparr>fs_files = [], fs_dirs = [], fs_denied = (\<lambda>_ _. None)\<rparr>"

section \<open>Operations\<close>

definition permitted :: "fs_op \<Rightarrow> path \<Rightarrow> (('c, 'z) fs_scheme, 'a) act \<Rightarrow> (('c, 'z) fs_scheme, 'a) act" where
  "permitted op p m = (\<lambda>s. case fs_denied s op p of Some e \<Rightarrow> (Inl (Error e), s) | None \<Rightarrow> m s)"

text \<open>\<open>File::open\<close> and reading to the end.\<close>

definition fs_open :: "path \<Rightarrow> (('c, 'z) fs_scheme, 'c) act" where
  "fs_open p = permitted OpenRead p
     (\<lambda>s. (ok_or (fs_read s p) ''No such file or directory'', s))"

text \<open>\<open>create_dir_all\<close>: the directory and every missing parent; an existing file in the way is an error.\<close>

definition fs_create_dir_all :: "path \<Rightarrow> (('c, 'z) fs_scheme, unit) act" where
  "fs_create_dir_all d = permitted MakeDirs d
     (\<lambda>s. if list_ex (\<lambda>q. fs_read s q \<noteq> None) (ancestors d) then (Inl (Error ''File exists''), s)
          else (Inr (), s\<lparr>fs_dirs := ancestors d @ fs_dirs s\<rparr>))"

text \<open>
  \<open>File::create\<close> (the parent must be a directory; an existing file is truncated) and writing the
  content.
\<close>

definition fs_write :: "path \<Rightarrow> 'c \<Rightarrow> (('c, 'z) fs_scheme, unit) act" where
  "fs_write p c = permitted CreateWrite p
     (\<lambda>s. if fs_is_dir s p then (Inl (Error ''Is a directory''), s)
          else if \<not> fs_is_dir s (butlast p) then (Inl (Error ''No such file or directory''), s)
          else (Inr (), s\<lparr>fs_files := AList.update p c (fs_files s)\<rparr>))"

definition fs_remove :: "path \<Rightarrow> (('c, 'z) fs_scheme, unit) act" where
  "fs_remove p = permitted RemoveFile p
     (\<lambda>s. if fs_read s p = None then (Inl (Error ''No such file or directory''), s)
          else (Inr (), s\<lparr>fs_files := AList.delete p (fs_files s)\<rparr>))"

text \<open>\<open>read_dir\<close>: the name of each entry and whether it is a regular file.\<close>

definition fs_list :: "path \<Rightarrow> (('c, 'z) fs_scheme, (string \<times> bool) list) act" where
  "fs_list d = permitted ListDir d
     (\<lambda>s. if fs_is_dir s d then
            (Inr (map (\<lambda>p. (last p, True)) (filter (\<lambda>p. p \<noteq> [] \<and> butlast p = d) (map fst (fs_files s))) @
                  map (\<lambda>p. (last p, False)) (filter (\<lambda>p. p \<noteq> [] \<and> butlast p = d) (fs_dirs s))), s)
          else (Inl (Error ''No such file or directory''), s))"

section \<open>The interface of a store of files\<close>

text \<open>
  What a client of the file system relies on: writing and removing change the file they name and
  no other, and an operation that fails changes no file.
\<close>

locale file_store =
  fixes view :: "'s \<Rightarrow> path \<Rightarrow> 'c option"
    and put :: "path \<Rightarrow> 'c \<Rightarrow> ('s, unit) act"
    and del :: "path \<Rightarrow> ('s, unit) act"
  assumes put_Inr: "put p c s = (Inr (), s') \<Longrightarrow> view s' = (view s)(p \<mapsto> c)"
    and put_Inl: "put p c s = (Inl e, s') \<Longrightarrow> view s' = view s"
    and del_Inr: "del p s = (Inr (), s') \<Longrightarrow> view s' = (view s)(p := None)"
    and del_Inl: "del p s = (Inl e, s') \<Longrightarrow> view s' = view s"
begin

lemma put_frame: "put p c s = (r, s') \<Longrightarrow> q \<noteq> p \<Longrightarrow> view s' q = view s q"
  using put_Inr [of p c s s'] put_Inl [of p c s _ s'] by (cases r) simp_all

lemma del_frame: "del p s = (r, s') \<Longrightarrow> q \<noteq> p \<Longrightarrow> view s' q = view s q"
  using del_Inr [of p s s'] del_Inl [of p s _ s'] by (cases r) simp_all

lemma put_del_fresh:
  assumes "view s p = None" "put p c s = (Inr (), t)" "view u = view t" "del p u = (Inr (), v)"
  shows "view v = view s"
  using del_Inr [OF assms(4)] put_Inr [OF assms(2)] assms(1,3) by (simp add: fun_eq_iff)

end

lemma permitted_None [simp]: "fs_denied s op p = None \<Longrightarrow> permitted op p m s = m s"
  by (simp add: permitted_def)

interpretation disk: file_store fs_read fs_write fs_remove
  by unfold_locales
    (auto simp: fs_write_def fs_remove_def permitted_def update_conv' delete_conv'
      split: option.splits if_splits)

section \<open>Lemmas\<close>

lemma fs_open_state [fs_simps, simp]: "snd (fs_open p s) = s"
  by (simp add: fs_open_def permitted_def split: option.splits)

lemma fs_open_Some [fs_simps]:
  "fs_denied s OpenRead p = None \<Longrightarrow> fs_read s p = Some c \<Longrightarrow> fs_open p s = (Inr c, s)"
  by (simp add: fs_open_def)

lemma fs_open_InrD: "fs_open p s = (Inr c, t) \<Longrightarrow> t = s \<and> fs_read s p = Some c"
  by (auto simp: fs_open_def permitted_def res_simps split: option.splits)

lemma fs_open_missing: "fs_read s p = None \<Longrightarrow> \<exists>e. fs_open p s = (Inl (Error e), s)"
  by (auto simp: fs_open_def permitted_def split: option.splits)

lemma fs_create_dir_all_frame [fs_simps]:
  "fs_create_dir_all d s = (r, t) \<Longrightarrow> fs_files t = fs_files s \<and> fs_denied t = fs_denied s"
  by (auto simp: fs_create_dir_all_def permitted_def split: option.splits if_splits)

lemma fs_write_frame [fs_simps]: "fs_write p c s = (r, t) \<Longrightarrow> fs_denied t = fs_denied s \<and> fs_dirs t = fs_dirs s"
  by (auto simp: fs_write_def permitted_def split: option.splits if_splits)

lemma fs_remove_frame [fs_simps]: "fs_remove p s = (r, t) \<Longrightarrow> fs_denied t = fs_denied s \<and> fs_dirs t = fs_dirs s"
  by (auto simp: fs_remove_def permitted_def split: option.splits if_splits)

lemma fs_remove_present:
  assumes "fs_denied s RemoveFile p = None" "fs_read s p = Some c"
  obtains t where "fs_remove p s = (Inr (), t)"
  using assms by (auto simp: fs_remove_def)

lemma butlast_join [simp]: "butlast (join d name) = d"
  by (simp add: join_def)

lemma last_join [simp]: "last (join d name) = name"
  by (simp add: join_def)

lemma join_inj [simp]: "join d a = join e b \<longleftrightarrow> d = e \<and> a = b"
  by (simp add: join_def)

lemma join_nonempty [simp]: "join d a \<noteq> []"
  by (simp add: join_def)

lemma in_ancestors: "d \<noteq> [] \<Longrightarrow> d \<in> set (ancestors d)"
  by (auto simp: ancestors_def intro!: image_eqI [of _ _ "length d - 1"])

lemma fs_create_dir_all_dir: "fs_create_dir_all d s = (Inr (), t) \<Longrightarrow> fs_is_dir t d"
  by (cases "d = []")
    (auto simp: fs_create_dir_all_def permitted_def fs_is_dir_def in_ancestors split: option.splits if_splits)

lemma fs_listD:
  assumes "fs_list d s = (Inr es, t)"
  shows "t = s" and "(name, True) \<in> set es \<longleftrightarrow> fs_read s (join d name) \<noteq> None"
proof -
  show "t = s" using assms by (auto simp: fs_list_def permitted_def split: option.splits if_splits)
  define ks where "ks = map fst (fs_files s)"
  have "es = map (\<lambda>p. (last p, True)) (filter (\<lambda>p. p \<noteq> [] \<and> butlast p = d) ks) @
             map (\<lambda>p. (last p, False)) (filter (\<lambda>p. p \<noteq> [] \<and> butlast p = d) (fs_dirs s))"
    using assms by (auto simp: ks_def fs_list_def permitted_def split: option.splits if_splits)
  then have es: "(name, True) \<in> set es \<longleftrightarrow> (\<exists>p \<in> set ks. p \<noteq> [] \<and> butlast p = d \<and> last p = name)"
    by (auto simp: image_iff)
  have "p \<noteq> [] \<and> butlast p = d \<and> last p = name \<longleftrightarrow> p = join d name" for p
    by (metis append_butlast_last_id butlast_join join_def join_nonempty last_join)
  then have "(name, True) \<in> set es \<longleftrightarrow> join d name \<in> fst ` set (fs_files s)"
    using es by (auto simp: ks_def)
  then show "(name, True) \<in> set es \<longleftrightarrow> fs_read s (join d name) \<noteq> None"
    by (metis map_of_eq_None_iff)
qed

end
