(* ===== verification/Chain_Types.thy ===== *)
theory Chain_Types
  imports Rust_Prelude
begin

text \<open>
  The data that the program passes around, as far as it reads it: blocks, transactions, accounts,
  networks. Their types belong to \<open>ethrex-common\<close> and \<open>ethrex-config\<close>; the model keeps the fields
  and methods that \<open>src/\<close> uses (\<open>tx.hash()\<close> and \<open>tx.sender()\<close> are observations of a transaction,
  hence fields), and for an enum the constructors it names, with one more constructor for the
  others where the code has a catch-all case. The chain-id constants and the feature flags of the
  build are records the definitions take as arguments.
\<close>

datatype public_network = Mainnet | Holesky | Hoodi | Sepolia | OtherPublic string

datatype network =
    PublicNetwork public_network
  | LocalDevnet
  | LocalDevnetL2
  | L2Chain u64
  | OtherNetwork string

text \<open>\<open>MAINNET_CHAIN_ID\<close> and so on, of \<open>ethrex_config::networks\<close>.\<close>

record chain_ids =
  mainnet_chain_id :: u64
  holesky_chain_id :: u64
  hoodi_chain_id :: u64
  sepolia_chain_id :: u64

text \<open>The cargo features that select code in \<open>src/\<close>.\<close>

record features =
  feat_l2 :: bool
  feat_sp1 :: bool
  feat_risc0 :: bool
  feat_zisk :: bool
  feat_openvm :: bool

definition no_features :: features where
  "no_features = \<lparr>feat_l2 = False, feat_sp1 = False, feat_risc0 = False, feat_zisk = False, feat_openvm = False\<rparr>"

text \<open>\<open>network_from_chain_id\<close>: the arms of the match, in order.\<close>

definition network_from_chain_id :: "chain_ids \<Rightarrow> features \<Rightarrow> u64 \<Rightarrow> network" where
  "network_from_chain_id ids feats chain_id =
     (if chain_id = mainnet_chain_id ids then PublicNetwork Mainnet
      else if chain_id = holesky_chain_id ids then PublicNetwork Holesky
      else if chain_id = hoodi_chain_id ids then PublicNetwork Hoodi
      else if chain_id = sepolia_chain_id ids then PublicNetwork Sepolia
      else if feat_l2 feats then L2Chain chain_id
      else LocalDevnet)"

record chain_config =
  cc_chain_id :: u64

record genesis_account =
  ga_code :: bytes
  ga_storage :: "(h256 \<times> u256) list"
  ga_balance :: u256
  ga_nonce :: u64

record genesis =
  gen_config :: chain_config
  gen_timestamp :: u64
  gen_alloc :: "(address, genesis_account) hmap"

datatype tx_kind = Create | Call address

datatype tx_type = Legacy | EIP2930 | EIP1559 | EIP4844 | EIP7702 | FeeToken | Privileged

record transaction =
  tx_type :: tx_type
  tx_to :: tx_kind
  tx_data :: bytes
  tx_value :: u256
  tx_gas_limit :: u64
  tx_hash :: h256
  tx_sender :: "string + address"
  tx_access_list :: "(address \<times> h256 list) list"

record block_header =
  bh_number :: u64
  bh_gas_limit :: u64
  bh_gas_used :: u64

record block =
  b_header :: block_header
  b_transactions :: "transaction list"

abbreviation blk_number :: "block \<Rightarrow> u64" where
  "blk_number b \<equiv> bh_number (b_header b)"

record rpc_execution_witness =
  w_state :: "bytes list"
  w_keys :: "bytes list"
  w_codes :: "bytes list"
  w_headers :: "bytes list"

text \<open>The chain ids are pairwise different, as those of the four public networks are.\<close>

definition ids_distinct :: "chain_ids \<Rightarrow> bool" where
  "ids_distinct ids \<longleftrightarrow>
     distinct [mainnet_chain_id ids, holesky_chain_id ids, hoodi_chain_id ids, sepolia_chain_id ids]"

definition example_ids :: chain_ids where
  "example_ids = \<lparr>mainnet_chain_id = 1, holesky_chain_id = 17000, hoodi_chain_id = 560048,
     sepolia_chain_id = 11155111\<rparr>"

lemma network_from_chain_id_l2_inj:
  assumes "ids_distinct ids" "feat_l2 feats"
    and "network_from_chain_id ids feats a = network_from_chain_id ids feats b"
  shows "a = b"
  using assms by (auto simp: network_from_chain_id_def ids_distinct_def split: if_splits)

end
