(* ===== verification/Options.thy ===== *)
theory Options
  imports Rust_Fs Chain_Types
begin

text \<open>
  The command line of \<open>src/cli.rs\<close>: the option structs with the constraints their \<open>clap\<close> attributes
  state, the value enums with their texts, and the choice of the backend. URLs are strings.

  A constraint on an option that has a default speaks of the option being given; the model sees that
  when its value is not the default.
\<close>

section \<open>Value enums\<close>

datatype zkvm = Jolt | Nexus | OpenVM | Pico | Risc0 | SP1 | Ziren | Zisk

fun show_zkvm :: "zkvm \<Rightarrow> string" where
  "show_zkvm Jolt = ''Jolt''"
| "show_zkvm Nexus = ''Nexus''"
| "show_zkvm OpenVM = ''OpenVM''"
| "show_zkvm Pico = ''Pico''"
| "show_zkvm Risc0 = ''RISC0''"
| "show_zkvm SP1 = ''SP1''"
| "show_zkvm Ziren = ''Ziren''"
| "show_zkvm Zisk = ''ZisK''"

datatype resource = CPU | GPU

fun show_resource :: "resource \<Rightarrow> string" where
  "show_resource CPU = ''CPU''"
| "show_resource GPU = ''GPU''"

datatype action = Execute | Prove

fun show_action :: "action \<Rightarrow> string" where
  "show_action Execute = ''Execute''"
| "show_action Prove = ''Prove''"

datatype proof_type = Compressed | Groth16

fun show_proof_type :: "proof_type \<Rightarrow> string" where
  "show_proof_type Compressed = ''Compressed''"
| "show_proof_type Groth16 = ''Groth16''"

text \<open>\<open>ProofFormat\<close> of \<open>ethrex-prover\<close>, and the conversion into it.\<close>

datatype proof_format = FormatCompressed | FormatGroth16

fun proof_format_from :: "proof_type \<Rightarrow> proof_format" where
  "proof_format_from Compressed = FormatCompressed"
| "proof_format_from Groth16 = FormatGroth16"

datatype cache_level = CacheFailed | CacheOff | CacheOn

datatype notification_level = NotifyFailed | NotifyOff | NotifyOn

datatype tx_variant = ETHTransfer | ERC20Transfer

section \<open>Option structs\<close>

record common_options =
  o_zkvm :: "zkvm option"
  o_resource :: resource
  o_action :: action
  o_proof_type :: proof_type
  o_verbose :: bool

definition common_default :: common_options where
  "common_default = \<lparr>o_zkvm = None, o_resource = CPU, o_action = Execute, o_proof_type = Compressed, o_verbose = False\<rparr>"

record replay_options =
  o_common :: common_options
  o_rpc_url :: "string option"
  o_cached :: bool
  o_network :: "network option"
  o_cache_dir :: path
  o_cache_level :: cache_level
  o_slack_url :: "string option"
  o_no_zkvm :: bool
  o_repeat :: u32
  o_bench :: bool
  o_notification_level :: notification_level

text \<open>The constraints of \<open>EthrexReplayOptions\<close>: one data source, and what the attributes require.\<close>

definition replay_options_ok :: "replay_options \<Rightarrow> bool" where
  "replay_options_ok opts \<longleftrightarrow>
     (o_rpc_url opts \<noteq> None) \<noteq> o_cached opts \<and>
     (o_cached opts \<longrightarrow> o_network opts \<noteq> None \<and> o_cache_level opts = CacheOn) \<and>
     (o_cache_level opts \<noteq> CacheOn \<longrightarrow> o_rpc_url opts \<noteq> None) \<and>
     (o_no_zkvm opts \<longrightarrow> o_zkvm (o_common opts) = None \<and> o_proof_type (o_common opts) = Compressed) \<and>
     (o_repeat opts \<noteq> 1 \<longrightarrow> o_no_zkvm opts) \<and>
     (o_bench opts \<longrightarrow> o_zkvm (o_common opts) \<noteq> None) \<and>
     (o_notification_level opts \<noteq> NotifyFailed \<longrightarrow> o_slack_url opts \<noteq> None)"

record block_options =
  bo_block :: "u64 option"
  bo_opts :: replay_options

record blocks_options =
  bs_blocks :: "u64 list"
  bs_from :: "u64 option"
  bs_to :: "u64 option"
  bs_endless :: bool
  bs_only_eth_proofs_blocks :: bool
  bs_opts :: replay_options

definition blocks_options_ok :: "blocks_options \<Rightarrow> bool" where
  "blocks_options_ok args \<longleftrightarrow>
     replay_options_ok (bs_opts args) \<and>
     (bs_blocks args \<noteq> [] \<or> bs_from args \<noteq> None \<or> bs_endless args \<or> o_cached (bs_opts args)) \<and>
     (bs_blocks args \<noteq> [] \<longrightarrow> bs_from args = None \<and> bs_to args = None \<and> \<not> bs_endless args \<and> \<not> bs_only_eth_proofs_blocks args) \<and>
     (bs_to args \<noteq> None \<longrightarrow> bs_from args \<noteq> None) \<and>
     (bs_endless args \<longrightarrow> bs_to args = None \<and> \<not> o_cached (bs_opts args))"

record transaction_opts =
  to_tx_hash :: h256
  to_block_number :: "u64 option"
  to_opts :: replay_options

record batch_options =
  bt_batch :: u64
  bt_opts :: replay_options

record custom_block_options =
  cb_common :: common_options
  cb_n_txs :: "u64 option"
  cb_tx :: "tx_variant option"
  cb_save_program_input :: "path option"

definition custom_block_options_ok :: "custom_block_options \<Rightarrow> bool" where
  "custom_block_options_ok args \<longleftrightarrow> (cb_n_txs args \<noteq> None) = (cb_tx args \<noteq> None)"

record custom_batch_options =
  cu_n_blocks :: u64
  cu_block_opts :: custom_block_options

record generate_input_options =
  gi_block :: "u64 option"
  gi_blocks :: "u64 list"
  gi_from :: "u64 option"
  gi_to :: "u64 option"
  gi_output_dir :: path
  gi_rpc_url :: string

definition generate_input_options_ok :: "generate_input_options \<Rightarrow> bool" where
  "generate_input_options_ok args \<longleftrightarrow>
     (gi_block args \<noteq> None \<or> gi_blocks args \<noteq> [] \<or> gi_from args \<noteq> None) \<and>
     (gi_block args \<noteq> None \<longrightarrow> gi_blocks args = [] \<and> gi_from args = None \<and> gi_to args = None) \<and>
     (gi_blocks args \<noteq> [] \<longrightarrow> gi_from args = None \<and> gi_to args = None) \<and>
     (gi_to args \<noteq> None \<longrightarrow> gi_from args \<noteq> None)"

record block_composition_options =
  bc_block :: "u64 option"
  bc_from :: "u64 option"
  bc_to :: "u64 option"
  bc_rpc_url :: "string option"
  bc_cached :: bool
  bc_network :: "network option"
  bc_cache_dir :: path
  bc_output_dir :: path

definition block_composition_options_ok :: "block_composition_options \<Rightarrow> bool" where
  "block_composition_options_ok args \<longleftrightarrow>
     (bc_block args \<noteq> None \<longrightarrow> bc_from args = None \<and> bc_to args = None) \<and>
     (bc_to args \<noteq> None \<longrightarrow> bc_from args \<noteq> None) \<and>
     (bc_rpc_url args \<noteq> None) \<noteq> bc_cached args \<and> (bc_cached args \<longrightarrow> bc_network args \<noteq> None)"

section \<open>Commands\<close>

datatype custom_subcommand = CustomBlock custom_block_options | CustomBatch custom_batch_options

datatype l2_subcommand =
    L2Batch batch_options
  | L2Block block_options
  | L2Custom custom_subcommand
  | L2Transaction transaction_opts

datatype command =
    BlockCmd block_options
  | BlocksCmd blocks_options
  | BlockComposition block_composition_options
  | Custom custom_subcommand
  | GenerateInput generate_input_options
  | TransactionCmd transaction_opts
  | L2 l2_subcommand

text \<open>The commands that a build has: those of \<open>L2\<close> with the feature \<open>l2\<close>, the others without it.\<close>

fun command_in_build :: "features \<Rightarrow> command \<Rightarrow> bool" where
  "command_in_build feats (L2 _) = feat_l2 feats"
| "command_in_build feats _ = (\<not> feat_l2 feats)"

section \<open>The backend\<close>

datatype backend_type = ExecBackend | SP1Backend | Risc0Backend | ZiskBackend | OpenVMBackend

definition backend :: "features \<Rightarrow> zkvm option \<Rightarrow> backend_type res" where
  "backend feats z =
     (case z of
        Some SP1 \<Rightarrow> (if feat_sp1 feats then Inr SP1Backend else Inl (Error ''sp1 feature not enabled''))
      | Some Risc0 \<Rightarrow> (if feat_risc0 feats then Inr Risc0Backend else Inl (Error ''risc0 feature not enabled''))
      | Some OpenVM \<Rightarrow> (if feat_openvm feats then Inr OpenVMBackend else Inl (Error ''openvm feature not enabled''))
      | Some Zisk \<Rightarrow> (if feat_zisk feats then Inr ZiskBackend else Inl (Error ''zisk feature not enabled''))
      | Some _ \<Rightarrow> Inl (Error ''Only SP1, Risc0, ZisK, and OpenVM backends are supported currently'')
      | None \<Rightarrow> Inr ExecBackend)"

lemma backend_no_panic [simp]: "\<not> is_panic (backend feats z)"
  by (simp add: backend_def split: option.split zkvm.split)

lemma backend_exec_iff: "backend feats z = Inr ExecBackend \<longleftrightarrow> z = None"
  by (simp add: backend_def split: option.split zkvm.split)

end
