(* ===== verification/Report.thy ===== *)
theory Report
  imports Options Durations
begin

text \<open>
  \<open>src/report.rs\<close> and \<open>src/slack.rs\<close>: what a replay reports, on the terminal, in the log, to Slack
  and to the benchmark file.

  The outcome of an execution or a proof is a duration or the message of its error. \<open>show_net\<close> is
  \<open>Display for Network\<close>. The record \<open>host_info\<close> holds what the shell commands on the machine
  answer (\<open>gpu_info\<close>, \<open>cpu_info\<close>, \<open>ram_info\<close>, the git branch and commit). A text is its list of bytes: the symbols
  are written as their UTF-8 bytes.
\<close>

section \<open>Texts\<close>

definition newline :: string where "newline = [CHR 0x0A]"
definition warning_sign :: string where
  "warning_sign = [CHR 0xE2, CHR 0x9A, CHR 0xA0, CHR 0xEF, CHR 0xB8, CHR 0x8F]"
definition check_mark :: string where "check_mark = [CHR 0xE2, CHR 0x9C, CHR 0x85]"

text \<open>\<open>str::replace\<close> for a pattern that is not empty.\<close>

function str_replace :: "string \<Rightarrow> string \<Rightarrow> string \<Rightarrow> string" where
  "str_replace pat by_text s =
     (if pat = [] then s
      else case s of
          [] \<Rightarrow> []
        | c # cs \<Rightarrow>
            (if starts_with s pat then by_text @ str_replace pat by_text (drop (length pat) s)
             else c # str_replace pat by_text cs))"
  by pat_completeness auto
termination
  by (relation "measure (\<lambda>(p, r, s). length s)") auto

declare str_replace.simps [simp del]

section \<open>Slack\<close>

datatype slack_block =
    SHeader slack_block
  | SSection slack_block
  | SActions "(slack_block \<times> string) list"
  | SPlainText string bool
  | SMarkdown string

type_synonym slack_request = "slack_block list"

section \<open>The report\<close>

type_synonym outcome = "string + duration"

record report =
  rp_zkvm :: "zkvm option"
  rp_resource :: resource
  rp_action :: action
  rp_block :: block
  rp_network :: network
  rp_execution_result :: "outcome option"
  rp_proving_result :: "outcome option"

definition report_new_for ::
    "zkvm option \<Rightarrow> resource \<Rightarrow> action \<Rightarrow> block \<Rightarrow> network \<Rightarrow> outcome option \<Rightarrow> outcome option \<Rightarrow> report" where
  "report_new_for z r a b n e p =
     \<lparr>rp_zkvm = z, rp_resource = r, rp_action = a, rp_block = b, rp_network = n, rp_execution_result = e,
      rp_proving_result = p\<rparr>"

fun is_err :: "outcome option \<Rightarrow> bool" where
  "is_err (Some (Inl _)) = True"
| "is_err _ = False"

definition has_error :: "report \<Rightarrow> bool" where
  "has_error r \<longleftrightarrow> is_err (rp_execution_result r) \<or> is_err (rp_proving_result r)"

record host_info =
  hi_gpu :: "string option"
  hi_cpu :: "string option"
  hi_ram :: "string option"
  hi_branch :: "string option"
  hi_commit :: "string option"

definition hardware_info_slack_message :: "host_info \<Rightarrow> string \<Rightarrow> string" where
  "hardware_info_slack_message host hardware =
     (let info = (if hardware = ''GPU'' then hi_gpu host else if hardware = ''CPU'' then hi_cpu host
                  else if hardware = ''RAM'' then hi_ram host else None)
      in case info of Some i \<Rightarrow> newline @ ''*'' @ hardware @ '':* `'' @ i @ ''`'' | None \<Rightarrow> [])"

definition git_info_slack_message :: "host_info \<Rightarrow> string" where
  "git_info_slack_message host =
     (case (hi_branch host, hi_commit host) of
        (Some b, Some c) \<Rightarrow> newline @ ''*Branch & Commit:* `'' @ b @ ''` (`'' @ c @ ''`)''
      | _ \<Rightarrow> [])"

abbreviation is_mainnet :: "network \<Rightarrow> bool" where
  "is_mainnet net \<equiv> net = PublicNetwork Mainnet"

definition etherscan_url :: "(network \<Rightarrow> string) \<Rightarrow> network \<Rightarrow> u64 \<Rightarrow> string option" where
  "etherscan_url show_net net block_number =
     (case net of
        PublicNetwork p \<Rightarrow>
          (if p = Mainnet then Some (''https://etherscan.io/block/'' @ show_u64 block_number)
           else Some (''https://'' @ show_net net @ ''.etherscan.io/block/'' @ show_u64 block_number))
      | _ \<Rightarrow> None)"

definition ethproofs_url :: "network \<Rightarrow> u64 \<Rightarrow> string option" where
  "ethproofs_url net block_number =
     (if block_number mod 100 \<noteq> 0 then None
      else if \<not> is_mainnet net then None
      else Some (''https://ethproofs.org/blocks/'' @ show_u64 block_number))"

definition maybe_zkvm :: "report \<Rightarrow> string" where
  "maybe_zkvm r = (case rp_zkvm r of Some z \<Rightarrow> '' with '' @ show_zkvm z | None \<Rightarrow> [])"

definition title_line :: "report \<Rightarrow> string" where
  "title_line r =
     (if has_error r then
        warning_sign @ '' Failed to '' @ show_action (rp_action r) @ '' Block'' @ maybe_zkvm r @ '' on '' @ show_resource (rp_resource r)
      else
        check_mark @ '' Succeeded to '' @ show_action (rp_action r) @ '' Block'' @ maybe_zkvm r @ '' on '' @ show_resource (rp_resource r))"

abbreviation rp_number :: "report \<Rightarrow> u64" where
  "rp_number r \<equiv> blk_number (rp_block r)"

definition execution_status :: "outcome option \<Rightarrow> string" where
  "execution_status e =
     (case e of
        Some (Inr _) \<Rightarrow> ''Succeeded''
      | Some (Inl err) \<Rightarrow> warning_sign @ '' Failed with '' @ err
      | None \<Rightarrow> ''Not executed'')"

definition slack_actions :: "(network \<Rightarrow> string) \<Rightarrow> report \<Rightarrow> (slack_block \<times> string) list" where
  "slack_actions show_net r =
     (SPlainText ''View on Etherscan'' False,
        if is_mainnet (rp_network r) then ''https://etherscan.io/block/'' @ show_u64 (rp_number r)
        else ''https://'' @ show_net (rp_network r) @ ''.etherscan.io/block/'' @ show_u64 (rp_number r)) #
     (if is_mainnet (rp_network r) \<and> rp_number r mod 100 = 0 \<and> rp_action r = Prove
      then [(SPlainText ''View on EthProofs'' False, ''https://ethproofs.org/blocks/'' @ show_u64 (rp_number r))]
      else [])"

definition slack_text :: "(network \<Rightarrow> string) \<Rightarrow> host_info \<Rightarrow> report \<Rightarrow> string" where
  "slack_text show_net host r =
     ''*Network:* `'' @ show_net (rp_network r) @ ''`'' @ newline @ ''*Block:* '' @ show_u64 (rp_number r) @
     newline @ ''*Gas:* '' @ show_u64 (bh_gas_used (b_header (rp_block r))) @
     newline @ ''*#Txs:* '' @ show_nat (length (b_transactions (rp_block r))) @
     (if rp_proving_result r \<noteq> None then
        newline @ ''*Execution:* '' @ execution_status (rp_execution_result r)
      else case rp_execution_result r of
          Some (Inl err) \<Rightarrow> newline @ ''*Execution:* Failed with '' @ err
        | _ \<Rightarrow> []) @
     (case rp_proving_result r of Some (Inl err) \<Rightarrow> newline @ ''*Proving Error:* '' @ err | _ \<Rightarrow> []) @
     hardware_info_slack_message host ''GPU'' @ hardware_info_slack_message host ''CPU'' @
     hardware_info_slack_message host ''RAM'' @ git_info_slack_message host @
     (case rp_execution_result r of Some (Inr d) \<Rightarrow> newline @ ''*Execution Time:* '' @ format_duration d | _ \<Rightarrow> []) @
     (case rp_proving_result r of Some (Inr d) \<Rightarrow> newline @ ''*Proving Time:* '' @ format_duration d | _ \<Rightarrow> [])"

definition to_slack_message :: "(network \<Rightarrow> string) \<Rightarrow> host_info \<Rightarrow> report \<Rightarrow> slack_request" where
  "to_slack_message show_net host r =
     [SHeader (SPlainText (title_line r) True),
      SSection (SMarkdown (slack_text show_net host r)),
      SActions (slack_actions show_net r)]"

section \<open>Log and terminal\<close>

datatype log_level = LogError | LogInfo

definition report_log :: "(network \<Rightarrow> string) \<Rightarrow> report \<Rightarrow> log_level \<times> string" where
  "report_log show_net r =
     (let start = ''['' @ show_net (rp_network r) @ ''] Block: '' @ show_u64 (rp_number r) @ '', Gas: '' @
            show_u64 (bh_gas_used (b_header (rp_block r))) @ '', #Txs: '' @ show_nat (length (b_transactions (rp_block r)));
          times = (case rp_execution_result r of Some (Inr d) \<Rightarrow> '', Execution Time: '' @ format_duration d | _ \<Rightarrow> []) @
            (case rp_proving_result r of Some (Inr d) \<Rightarrow> '', Proving Time: '' @ format_duration d | _ \<Rightarrow> []);
          errors = (case rp_execution_result r of Some (Inl e) \<Rightarrow> '', Execution Error: '' @ e | _ \<Rightarrow> []) @
            (case rp_proving_result r of Some (Inl e) \<Rightarrow> '', Proving Error: '' @ e | _ \<Rightarrow> []);
          urls = (case etherscan_url show_net (rp_network r) (rp_number r) of Some u \<Rightarrow> '' | '' @ u | None \<Rightarrow> []) @
            (case ethproofs_url (rp_network r) (rp_number r) of Some u \<Rightarrow> '' | '' @ u | None \<Rightarrow> [])
      in if has_error r then (LogError, start @ errors @ urls) else (LogInfo, start @ times @ urls))"

abbreviation optional_line :: "string \<Rightarrow> string option \<Rightarrow> string list" where
  "optional_line label v \<equiv> (case v of Some t \<Rightarrow> [label @ t] | None \<Rightarrow> [])"

text \<open>\<open>Display for Report\<close>, line by line.\<close>

definition report_lines :: "(network \<Rightarrow> string) \<Rightarrow> host_info \<Rightarrow> report \<Rightarrow> string list" where
  "report_lines show_net host r =
     [title_line r,
      ''Network: '' @ show_net (rp_network r),
      ''Block: '' @ show_u64 (rp_number r),
      ''Gas: '' @ show_u64 (bh_gas_used (b_header (rp_block r))),
      ''#Txs: '' @ show_nat (length (b_transactions (rp_block r)))] @
     (if rp_proving_result r \<noteq> None then [''Execution Result: '' @ execution_status (rp_execution_result r)]
      else case rp_execution_result r of Some (Inl e) \<Rightarrow> [''Execution Error: '' @ e] | _ \<Rightarrow> []) @
     (case rp_proving_result r of Some (Inl e) \<Rightarrow> [''Proving Error: '' @ e] | _ \<Rightarrow> []) @
     optional_line ''GPU: '' (hi_gpu host) @ optional_line ''CPU: '' (hi_cpu host) @
     optional_line ''RAM: '' (hi_ram host) @
     (let git = git_info_slack_message host in
      if git \<noteq> [] then
        [''Branch & Commit: '' @ str_replace ''`'' [] (str_replace (newline @ ''*Branch & Commit:* `'') [] git)]
      else []) @
     (case rp_execution_result r of Some (Inr d) \<Rightarrow> [''Execution Time: '' @ format_duration d] | _ \<Rightarrow> []) @
     (case rp_proving_result r of Some (Inr d) \<Rightarrow> [''Proving Time: '' @ format_duration d] | _ \<Rightarrow> []) @
     optional_line ''Etherscan: '' (etherscan_url show_net (rp_network r) (rp_number r)) @
     optional_line ''EthProofs: '' (ethproofs_url (rp_network r) (rp_number r))"

section \<open>The benchmark file\<close>

record bench_entry =
  be_name :: string
  be_unit :: string
  be_value :: real

definition bench_elapsed :: "report \<Rightarrow> real res" where
  "bench_elapsed r =
     (case (rp_execution_result r, rp_proving_result r) of
        (Some (Inr _), Some (Inr p)) \<Rightarrow> Inr (as_secs_f64 p)
      | (Some (Inr e), None) \<Rightarrow> Inr (as_secs_f64 e)
      | (None, Some (Inr p)) \<Rightarrow> Inr (as_secs_f64 p)
      | (None, None) \<Rightarrow> Inl (Error ''Cannot create benchmark file: No execution or proving result available'')
      | (Some (Inl err), _) \<Rightarrow> Inl (Error (''Cannot create benchmark file: '' @ err))
      | (_, Some (Inl err)) \<Rightarrow> Inl (Error (''Cannot create benchmark file: '' @ err)))"

text \<open>The quotient is over the reals; a duration of zero, where \<open>f64\<close> gives infinity, has the value 0 here.\<close>

definition to_bench_file :: "host_info \<Rightarrow> report \<Rightarrow> bench_entry res" where
  "to_bench_file host r =
     bind_res (bench_elapsed r) (\<lambda>elapsed.
     bind_res (ok_or (rp_zkvm r) ''--zkvm must be set in CI mode'') (\<lambda>z.
       Inr \<lparr>be_name = show_zkvm z @ '', '' @
              (case rp_resource r of
                 CPU \<Rightarrow> (case hi_cpu host of Some c \<Rightarrow> c | None \<Rightarrow> ''CPU'')
               | GPU \<Rightarrow> (case hi_gpu host of Some g \<Rightarrow> g | None \<Rightarrow> ''GPU'')),
            be_unit = ''Mgas/s'',
            be_value = real (unat (bh_gas_used (b_header (rp_block r)))) / 10 ^ 6 / elapsed\<rparr>))"

section \<open>Properties\<close>

text \<open>A text that contains another.\<close>

definition contains_text :: "string \<Rightarrow> string \<Rightarrow> bool" where
  "contains_text s t \<longleftrightarrow> (\<exists>u v. s = u @ t @ v)"

lemma contains_refl [simp]: "contains_text s s"
  unfolding contains_text_def by (metis append_Nil append_Nil2)

lemma contains_here: "contains_text x t \<Longrightarrow> contains_text (x @ y) t"
  and contains_there: "contains_text y t \<Longrightarrow> contains_text (x @ y) t"
  unfolding contains_text_def by (metis append_assoc)+

lemma slack_text_error:
  assumes "Some (Inl e) \<in> {rp_execution_result r, rp_proving_result r}"
  shows "contains_text (slack_text show_net host r) e"
proof -
  let ?exec = "if rp_proving_result r \<noteq> None then
        newline @ ''*Execution:* '' @ execution_status (rp_execution_result r)
      else case rp_execution_result r of
          Some (Inl err) \<Rightarrow> newline @ ''*Execution:* Failed with '' @ err
        | _ \<Rightarrow> []"
  let ?proof = "case rp_proving_result r of Some (Inl err) \<Rightarrow> newline @ ''*Proving Error:* '' @ err | _ \<Rightarrow> []"
  have tail: "contains_text y t \<Longrightarrow> contains_text (a @ b @ c @ d @ f @ g @ h @ i @ j @ k @ l @ m @ y) t"
    for a b c d f g h i j k l m y t
    by (intro contains_there)
  have "contains_text (?exec @ ?proof @ z) e" for z
  proof (cases "rp_execution_result r = Some (Inl e)")
    case True
    then have "contains_text ?exec e"
      by (auto simp: execution_status_def intro!: contains_there simp del: append_Cons)
    then show ?thesis by (rule contains_here)
  next
    case False
    then have "rp_proving_result r = Some (Inl e)" using assms by auto
    then have "contains_text ?proof e" by (auto intro!: contains_there simp del: append_Cons)
    then show ?thesis by (intro contains_there [OF contains_here])
  qed
  then show ?thesis unfolding slack_text_def by (intro tail)
qed

lemma report_log_error:
  assumes "Some (Inl e) \<in> {rp_execution_result r, rp_proving_result r}"
  shows "contains_text (snd (report_log show_net r)) e"
proof -
  let ?exec = "case rp_execution_result r of Some (Inl e) \<Rightarrow> '', Execution Error: '' @ e | _ \<Rightarrow> []"
  let ?proof = "case rp_proving_result r of Some (Inl e) \<Rightarrow> '', Proving Error: '' @ e | _ \<Rightarrow> []"
  have err: "has_error r" using assms by (metis empty_iff has_error_def insert_iff is_err.simps(1))
  have "contains_text (?exec @ ?proof) e"
  proof (cases "rp_execution_result r = Some (Inl e)")
    case True
    then have "contains_text ?exec e" by (auto intro!: contains_there simp del: append_Cons)
    then show ?thesis by (rule contains_here)
  next
    case False
    then have "rp_proving_result r = Some (Inl e)" using assms by auto
    then have "contains_text ?proof e" by (auto intro!: contains_there simp del: append_Cons)
    then show ?thesis by (rule contains_there)
  qed
  then show ?thesis
    using err unfolding report_log_def Let_def if_P [OF err] snd_conv
    by (intro contains_there [OF contains_here])
qed


definition example_report :: report where
  "example_report = report_new_for (Some SP1) GPU Prove
     \<lparr>b_header = \<lparr>bh_number = 23700000, bh_gas_limit = 45000000, bh_gas_used = 30000000\<rparr>, b_transactions = []\<rparr>
     (PublicNetwork Mainnet) (Some (Inr 1500000000)) (Some (Inl ''out of memory''))"

definition example_host :: host_info where
  "example_host = \<lparr>hi_gpu = Some ''RTX 4090'', hi_cpu = None, hi_ram = Some ''128G'', hi_branch = Some ''main'',
     hi_commit = None\<rparr>"


text \<open>
  The benchmark file is written exactly when there is a result, no result is an error, and a
  zkVM is set; its rate is the block's gas in millions over the proving time if the block was
  proved, over the execution time otherwise. It never panics.
\<close>

theorem bench_file_iff:
  "(\<exists>e. to_bench_file host r = Inr e) =
     (\<not> has_error r \<and> (rp_execution_result r \<noteq> None \<or> rp_proving_result r \<noteq> None) \<and> rp_zkvm r \<noteq> None) \<and>
   (\<forall>e. to_bench_file host r = Inr e \<longrightarrow>
      be_unit e = ''Mgas/s'' \<and>
      be_value e = real (unat (bh_gas_used (b_header (rp_block r)))) / 10 ^ 6 /
        (case rp_proving_result r of
           Some (Inr p) \<Rightarrow> as_secs_f64 p
         | _ \<Rightarrow> as_secs_f64 (case rp_execution_result r of Some (Inr d) \<Rightarrow> d | _ \<Rightarrow> 0))) \<and>
   \<not> is_panic (to_bench_file host r)"
proof (cases "rp_execution_result r")
  case None
  then show ?thesis
    by (cases "rp_proving_result r"; cases "the (rp_proving_result r)"; cases "rp_zkvm r")
      (auto simp: to_bench_file_def bench_elapsed_def has_error_def)
next
  case (Some e)
  then show ?thesis
    by (cases e; cases "rp_proving_result r"; cases "the (rp_proving_result r)"; cases "rp_zkvm r")
      (auto simp: to_bench_file_def bench_elapsed_def has_error_def)
qed

theorem bench_file_iff_witness:
  "(\<exists>e. to_bench_file example_host (example_report\<lparr>rp_proving_result := Some (Inr 2000000000)\<rparr>) = Inr e \<and> be_value e = 15) \<and>
   \<not> (\<exists>e. to_bench_file example_host example_report = Inr e)"
proof -
  let ?r = "example_report\<lparr>rp_proving_result := Some (Inr 2000000000)\<rparr>"
  have "\<exists>e. to_bench_file example_host ?r = Inr e"
    using bench_file_iff [of example_host ?r]
    by (simp add: example_report_def report_new_for_def has_error_def)
  then obtain e where e: "to_bench_file example_host ?r = Inr e" by blast
  then have "be_value e = 15"
    using bench_file_iff [of example_host ?r]
    by (simp add: example_report_def report_new_for_def as_secs_f64_def)
  then show ?thesis
    using e bench_file_iff [of example_host example_report]
    by (auto simp: example_report_def report_new_for_def has_error_def)
qed

text \<open>
  Links. An EthProofs link is shown for mainnet blocks whose number is a multiple of 100, in the
  log and on the terminal for both actions, on Slack for proofs only. The Etherscan link of the
  log and the terminal is shown for public networks only, and is then the one on the Slack button.
\<close>

theorem report_links:
  "(ethproofs_url net n \<noteq> None) = (net = PublicNetwork Mainnet \<and> unat n mod 100 = 0) \<and>
   (length (slack_actions show_net r) = 2) = (ethproofs_url (rp_network r) (rp_number r) \<noteq> None \<and> rp_action r = Prove) \<and>
   (etherscan_url show_net net n \<noteq> None) = (\<exists>p. net = PublicNetwork p) \<and>
   (case etherscan_url show_net (rp_network r) (rp_number r) of
      Some url \<Rightarrow> snd (hd (slack_actions show_net r)) = url
    | None \<Rightarrow> snd (hd (slack_actions show_net r)) =
        ''https://'' @ show_net (rp_network r) @ ''.etherscan.io/block/'' @ show_u64 (rp_number r))"
proof -
  have "(n mod 100 = 0) = (unat n mod 100 = 0)"
    by (simp add: unat_mod flip: unat_eq_zero)
  then show ?thesis
    by (auto simp: ethproofs_url_def etherscan_url_def slack_actions_def split: network.split)
qed

text \<open>The commit line of the terminal is the one of Slack without its markup.\<close>

lemma str_replace_Nil [simp]: "str_replace pat by_text [] = []"
  by (subst str_replace.simps) simp

lemma str_replace_char:
  "str_replace [c] by_text s = concat (map (\<lambda>d. if d = c then by_text else [d]) s)"
proof (induction s)
  case Nil
  then show ?case by simp
next
  case (Cons d s)
  then show ?case by (subst str_replace.simps) (simp add: starts_with_def)
qed

lemma str_replace_absent:
  "c \<notin> set s \<Longrightarrow> str_replace (c # pat) by_text s = s"
proof (induction s)
  case Nil
  then show ?case by simp
next
  case (Cons d s)
  then show ?case by (subst str_replace.simps) (auto simp: starts_with_def)
qed

lemma git_line:
  assumes "hi_branch host = Some b" "hi_commit host = Some c" "newline ! 0 \<notin> set (b @ c)" "CHR ''`'' \<notin> set (b @ c)"
  shows "str_replace ''`'' [] (str_replace (newline @ ''*Branch & Commit:* `'') [] (git_info_slack_message host))
    = b @ '' ('' @ c @ '')''"
proof -
  let ?pat = "newline @ ''*Branch & Commit:* `''"
  let ?rest = "b @ ''` (`'' @ c @ ''`)''"
  have git: "git_info_slack_message host = ?pat @ ?rest" using assms by (simp add: git_info_slack_message_def)
  have "str_replace ?pat [] (?pat @ ?rest) = str_replace ?pat [] ?rest"
    by (subst str_replace.simps) (simp add: newline_def starts_with_def)
  also have "\<dots> = ?rest"
    using str_replace_absent [of "CHR 0x0A" ?rest "''*Branch & Commit:* `''" "[]"] assms(3) by (simp add: newline_def)
  finally have "str_replace ?pat [] (git_info_slack_message host) = ?rest" unfolding git .
  moreover have "concat (map (\<lambda>d. if d = CHR ''`'' then [] else [d]) s) = s" if "CHR ''`'' \<notin> set s" for s :: string
    using that by (induction s) auto
  ultimately show ?thesis using assms(4) by (simp add: str_replace_char)
qed

end
