(* ===== verification/Host_Info.thy ===== *)
theory Host_Info
  imports Report
begin

text \<open>
  The commands that \<open>src/report.rs\<close> runs on the machine to learn about its hardware and the git checkout, and the record
  \<open>host_info\<close> that the report is made with. Running a command is a parameter; the decoding of its output is that of \<open>std\<close>.
\<close>

section \<open>Text from bytes\<close>

text \<open>
  \<open>from_utf8\<close> and \<open>from_utf8_lossy\<close>: the next scalar value, or nothing for a longest start of a sequence that cannot go on,
  with the bytes that are left. Texts are lists of scalar values here; in the reports they are their bytes.
\<close>

definition continues :: "nat \<Rightarrow> bool" where
  "continues b \<longleftrightarrow> 0x80 \<le> b \<and> b \<le> 0xBF"

definition second_byte :: "nat \<Rightarrow> nat \<Rightarrow> bool" where
  "second_byte a b \<longleftrightarrow>
     continues b \<and> (a = 0xE0 \<longrightarrow> 0xA0 \<le> b) \<and> (a = 0xED \<longrightarrow> b \<le> 0x9F) \<and> (a = 0xF0 \<longrightarrow> 0x90 \<le> b) \<and> (a = 0xF4 \<longrightarrow> b \<le> 0x8F)"

fun take_scalar :: "nat list \<Rightarrow> nat option \<times> nat list" where
  "take_scalar [] = (None, [])"
| "take_scalar (a # bs) =
     (if a < 0x80 then (Some a, bs)
      else if 0xC2 \<le> a \<and> a \<le> 0xDF then
        (case bs of
           b # rest \<Rightarrow> if continues b then (Some ((a - 0xC0) * 64 + (b - 0x80)), rest) else (None, bs)
         | [] \<Rightarrow> (None, bs))
      else if 0xE0 \<le> a \<and> a \<le> 0xEF then
        (case bs of
           b # c # rest \<Rightarrow>
             if \<not> second_byte a b then (None, bs)
             else if continues c then (Some ((a - 0xE0) * 4096 + (b - 0x80) * 64 + (c - 0x80)), rest) else (None, c # rest)
         | [b] \<Rightarrow> if second_byte a b then (None, []) else (None, bs)
         | [] \<Rightarrow> (None, bs))
      else if 0xF0 \<le> a \<and> a \<le> 0xF4 then
        (case bs of
           b # c # d # rest \<Rightarrow>
             if \<not> second_byte a b then (None, bs)
             else if \<not> continues c then (None, c # d # rest)
             else if continues d then
               (Some ((a - 0xF0) * 262144 + (b - 0x80) * 4096 + (c - 0x80) * 64 + (d - 0x80)), rest)
             else (None, d # rest)
         | [b, c] \<Rightarrow> if \<not> second_byte a b then (None, bs) else if continues c then (None, []) else (None, [c])
         | [b] \<Rightarrow> if second_byte a b then (None, []) else (None, bs)
         | [] \<Rightarrow> (None, bs))
      else (None, bs))"

lemma take_scalar_shorter: "length (snd (take_scalar (b # bs))) < Suc (length bs)"
  by (auto split: list.splits)

function scalars :: "nat list \<Rightarrow> nat option list" where
  "scalars [] = []"
| "scalars (b # bs) = (case take_scalar (b # bs) of (v, rest) \<Rightarrow> v # scalars rest)"
  by pat_completeness auto
termination
  by (relation "measure length") (use take_scalar_shorter in \<open>auto simp del: take_scalar.simps, metis snd_conv\<close>)

definition from_utf8 :: "bytes \<Rightarrow> nat list option" where
  "from_utf8 bs = those (scalars (map unat bs))"

definition from_utf8_lossy :: "bytes \<Rightarrow> nat list" where
  "from_utf8_lossy bs = map (\<lambda>v. case v of Some n \<Rightarrow> n | None \<Rightarrow> 0xFFFD) (scalars (map unat bs))"

text \<open>The bytes of a text.\<close>

definition utf8_bytes :: "nat \<Rightarrow> nat list" where
  "utf8_bytes n =
     (if n < 0x80 then [n]
      else if n < 0x800 then [0xC0 + n div 64, 0x80 + n mod 64]
      else if n < 0x10000 then [0xE0 + n div 4096, 0x80 + n div 64 mod 64, 0x80 + n mod 64]
      else [0xF0 + n div 262144, 0x80 + n div 4096 mod 64, 0x80 + n div 64 mod 64, 0x80 + n mod 64])"

definition as_text :: "nat list \<Rightarrow> string" where
  "as_text ns = map char_of (concat (map utf8_bytes ns))"

text \<open>\<open>str::trim\<close> takes the characters with the property \<open>White_Space\<close> away on both sides.\<close>

definition white_space :: "nat \<Rightarrow> bool" where
  "white_space n \<longleftrightarrow>
     0x9 \<le> n \<and> n \<le> 0xD \<or> 0x2000 \<le> n \<and> n \<le> 0x200A \<or>
     n \<in> {0x20, 0x85, 0xA0, 0x1680, 0x2028, 0x2029, 0x202F, 0x205F, 0x3000}"

definition trim :: "nat list \<Rightarrow> nat list" where
  "trim ns = rev (dropWhile white_space (rev (dropWhile white_space ns)))"

section \<open>The commands\<close>

record command_output =
  out_success :: bool
  out_stdout :: bytes

text \<open>The name of the operating system, and what \<open>output\<close> says of a program with its arguments.\<close>

record machine =
  mc_os :: string
  mc_output :: "string \<Rightarrow> string list \<Rightarrow> string + command_output"

definition trimmed_output :: "machine \<Rightarrow> string \<Rightarrow> string list \<Rightarrow> string option" where
  "trimmed_output mc program args =
     (case mc_output mc program args of
        Inl _ \<Rightarrow> None
      | Inr out \<Rightarrow> Some (as_text (trim (from_utf8_lossy (out_stdout out)))))"

definition apostrophe :: string where "apostrophe = [CHR 0x27]"

definition gpu_info :: "machine \<Rightarrow> string option" where
  \<open>gpu_info mc =
     (if mc_os mc = ''linux'' then
        trimmed_output mc ''sh'' [''-c'', ''nvidia-smi --query-gpu=name --format=csv | tail -n +2'']
      else if mc_os mc = ''macos'' then
        trimmed_output mc ''sh''
          [''-c'', ''system_profiler SPDisplaysDataType | grep "Chipset Model" | awk -F': ' '{print $2}'' @ apostrophe @ '' | head -n 1'']
      else None)\<close>

definition cpu_info :: "machine \<Rightarrow> string option" where
  \<open>cpu_info mc =
     (if mc_os mc = ''linux'' then
        trimmed_output mc ''sh''
          [''-c'', ''cat /proc/cpuinfo | grep "model name" | head -n 1 | awk -F': ' '{print $2}'' @ apostrophe]
      else if mc_os mc = ''macos'' then trimmed_output mc ''sysctl'' [''-n'', ''machdep.cpu.brand_string'']
      else None)\<close>

definition ram_info :: "machine \<Rightarrow> string option" where
  \<open>ram_info mc =
     (if mc_os mc = ''linux'' then
        trimmed_output mc ''sh'' [''-c'', ''free --giga -h | grep "Mem:" | awk '{print $2}'' @ apostrophe]
      else if mc_os mc = ''macos'' then
        trimmed_output mc ''sh''
          [''-c'', ''system_profiler SPHardwareDataType | grep "Memory:" | awk -F': ' '{print $2}'' @ apostrophe]
      else None)\<close>

definition git_output :: "machine \<Rightarrow> string list \<Rightarrow> string option" where
  "git_output mc args =
     (case mc_output mc ''git'' args of
        Inl _ \<Rightarrow> None
      | Inr out \<Rightarrow>
          if out_success out then map_option (\<lambda>ns. as_text (trim ns)) (from_utf8 (out_stdout out)) else None)"

definition get_current_git_branch :: "machine \<Rightarrow> string option" where
  "get_current_git_branch mc = git_output mc [''rev-parse'', ''--abbrev-ref'', ''HEAD'']"

definition get_current_git_commit :: "machine \<Rightarrow> string option" where
  "get_current_git_commit mc = git_output mc [''rev-parse'', ''--short'', ''HEAD'']"

definition host_info_of :: "machine \<Rightarrow> host_info" where
  "host_info_of mc =
     \<lparr>hi_gpu = gpu_info mc, hi_cpu = cpu_info mc, hi_ram = ram_info mc, hi_branch = get_current_git_branch mc,
      hi_commit = get_current_git_commit mc\<rparr>"

section \<open>Decoding\<close>

lemma those_map_Some [simp]: "those (map Some xs) = Some xs"
  by (induction xs) simp_all

text \<open>Unicode scalar values: no surrogates.\<close>

definition scalar_value :: "nat \<Rightarrow> bool" where
  "scalar_value n \<longleftrightarrow> n < 0xD800 \<or> 0xE000 \<le> n \<and> n < 0x110000"

lemma take_two: "2 \<le> a \<Longrightarrow> a < 32 \<Longrightarrow> b < 64 \<Longrightarrow> take_scalar ((0xC0 + a) # (0x80 + b) # rest) = (Some (a * 64 + b), rest)"
  by (simp add: continues_def)

lemma take_three:
  assumes "a < 16" "b < 64" "c < 64" "a = 0 \<Longrightarrow> 32 \<le> b" "a = 13 \<Longrightarrow> b < 32"
  shows "take_scalar ((0xE0 + a) # (0x80 + b) # (0x80 + c) # rest) = (Some (a * 4096 + b * 64 + c), rest)"
proof -
  have "second_byte (0xE0 + a) (0x80 + b)" using assms by (auto simp: second_byte_def continues_def)
  moreover have "continues (0x80 + c)" using assms by (simp add: continues_def)
  ultimately show ?thesis using assms(1) by simp
qed

lemma take_four:
  assumes "a < 5" "b < 64" "c < 64" "d < 64" "a = 0 \<Longrightarrow> 16 \<le> b" "a = 4 \<Longrightarrow> b < 16"
  shows "take_scalar ((0xF0 + a) # (0x80 + b) # (0x80 + c) # (0x80 + d) # rest)
    = (Some (a * 262144 + b * 4096 + c * 64 + d), rest)"
proof -
  have "second_byte (0xF0 + a) (0x80 + b)" using assms by (auto simp: second_byte_def continues_def)
  moreover have "continues (0x80 + c)" "continues (0x80 + d)" using assms by (simp_all add: continues_def)
  ultimately show ?thesis using assms(1) by simp
qed

lemma digits_64: "(n :: nat) div 4096 = n div 64 div 64" "n div 262144 = n div 64 div 64 div 64"
  by (simp_all flip: div_mult2_eq)

lemma two_bytes:
  assumes "0x80 \<le> n" "n < 0x800"
  shows "take_scalar (utf8_bytes n @ rest) = (Some n, rest)"
proof -
  have "2 \<le> n div 64" "n div 64 < 32" "n mod 64 < 64" using assms by linarith+
  moreover have "n div 64 * 64 + n mod 64 = n" by simp
  ultimately show ?thesis using take_two [of "n div 64" "n mod 64" rest] assms
    by (simp add: utf8_bytes_def del: take_scalar.simps)
qed

lemma three_bytes:
  assumes "0x800 \<le> n" "n < 0x10000" "scalar_value n"
  shows "take_scalar (utf8_bytes n @ rest) = (Some n, rest)"
proof -
  define m a b c where "m = n div 64" and "a = m div 64" and "b = m mod 64" and "c = n mod 64"
  have m: "m = a * 64 + b" unfolding a_def b_def by simp
  have n: "n = a * 4096 + b * 64 + c" using div_mult_mod_eq [of n 64] unfolding m_def [symmetric] c_def [symmetric] m by simp
  have bounds: "a < 16" "b < 64" "c < 64" using assms(2) unfolding a_def b_def c_def m_def by linarith+
  have bytes: "utf8_bytes n = [0xE0 + a, 0x80 + b, 0x80 + c]"
    using assms(1,2) by (simp add: utf8_bytes_def digits_64 a_def b_def c_def m_def)
  have "a = 0 \<Longrightarrow> 32 \<le> b" "a = 13 \<Longrightarrow> b < 32"
    using assms(1,3) bounds unfolding n scalar_value_def by linarith+
  then show ?thesis using take_three [OF bounds, of rest] n unfolding bytes by (simp del: take_scalar.simps)
qed

lemma four_bytes:
  assumes "0x10000 \<le> n" "n < 0x110000"
  shows "take_scalar (utf8_bytes n @ rest) = (Some n, rest)"
proof -
  define m k a b c d where "m = n div 64" and "k = m div 64" and "a = k div 64" and "b = k mod 64" and "c = m mod 64" and "d = n mod 64"
  have k: "k = a * 64 + b" unfolding a_def b_def by simp
  have m: "m = a * 4096 + b * 64 + c" using div_mult_mod_eq [of m 64] unfolding k_def [symmetric] c_def [symmetric] k by simp
  have n: "n = a * 262144 + b * 4096 + c * 64 + d"
    using div_mult_mod_eq [of n 64] unfolding m_def [symmetric] d_def [symmetric] m by simp
  have bounds: "a < 5" "b < 64" "c < 64" "d < 64" using assms(2) unfolding a_def b_def c_def d_def k_def m_def by linarith+
  have bytes: "utf8_bytes n = [0xF0 + a, 0x80 + b, 0x80 + c, 0x80 + d]"
    using assms(1,2) by (simp add: utf8_bytes_def digits_64 a_def b_def c_def d_def k_def m_def)
  have "a = 0 \<Longrightarrow> 16 \<le> b" "a = 4 \<Longrightarrow> b < 16" using assms bounds unfolding n by linarith+
  then show ?thesis using take_four [OF bounds, of rest] n unfolding bytes by (simp del: take_scalar.simps)
qed

lemma take_scalar_bytes:
  assumes "scalar_value n"
  shows "take_scalar (utf8_bytes n @ rest) = (Some n, rest)"
proof -
  consider "n < 0x80" | "0x80 \<le> n" "n < 0x800" | "0x800 \<le> n" "n < 0x10000" | "0x10000 \<le> n" "n < 0x110000"
    using assms unfolding scalar_value_def by linarith
  then show ?thesis
    using assms by cases (simp add: utf8_bytes_def, (rule two_bytes three_bytes four_bytes; assumption)+)
qed

text \<open>Every text is decoded from its bytes.\<close>

lemma scalars_of_text: "\<forall>n \<in> set ns. scalar_value n \<Longrightarrow> scalars (concat (map utf8_bytes ns)) = map Some ns"
proof (induction ns)
  case Nil
  then show ?case by simp
next
  case (Cons n ns)
  have "utf8_bytes n \<noteq> []" by (simp add: utf8_bytes_def)
  then obtain b bs where bytes: "utf8_bytes n = b # bs" by (cases "utf8_bytes n") auto
  have "take_scalar (b # bs @ concat (map utf8_bytes ns)) = (Some n, concat (map utf8_bytes ns))"
    using take_scalar_bytes [of n "concat (map utf8_bytes ns)"] Cons.prems bytes by simp
  then show ?case using Cons by (simp add: bytes del: take_scalar.simps)
qed

text \<open>What a command prints: a text as bytes.\<close>

definition printed :: "nat list \<Rightarrow> bytes" where
  "printed ns = map of_nat (concat (map utf8_bytes ns))"

lemma utf8_bytes_small: "scalar_value n \<Longrightarrow> b \<in> set (utf8_bytes n) \<Longrightarrow> b < 256"
  by (auto simp: utf8_bytes_def scalar_value_def split: if_splits; linarith)

lemma unat_printed:
  assumes "\<forall>n \<in> set ns. scalar_value n"
  shows "map unat (printed ns) = concat (map utf8_bytes ns)"
proof -
  have "unat (of_nat b :: u8) = b" if "b \<in> set (concat (map utf8_bytes ns))" for b
    using that utf8_bytes_small assms by (auto simp: unat_of_nat)
  then show ?thesis unfolding printed_def map_map o_def by (rule map_idI)
qed

lemma decoded:
  assumes "\<forall>n \<in> set ns. scalar_value n"
  shows "from_utf8_lossy (printed ns) = ns" "from_utf8 (printed ns) = Some ns"
  by (simp_all add: from_utf8_lossy_def from_utf8_def unat_printed [OF assms] scalars_of_text [OF assms] o_def)

text \<open>A text with nothing to trim, inside white space.\<close>

definition compact :: "nat list \<Rightarrow> bool" where
  "compact ns \<longleftrightarrow> (\<forall>n \<in> set ns. scalar_value n) \<and> (ns \<noteq> [] \<longrightarrow> \<not> white_space (hd ns) \<and> \<not> white_space (last ns))"

lemma trim_compact:
  assumes "compact ns" "\<forall>n \<in> set a \<union> set b. white_space n"
  shows "trim (a @ ns @ b) = ns"
proof (cases "ns = []")
  case True
  then show ?thesis using assms(2) by (auto simp: trim_def dropWhile_append2 dropWhile_eq_Nil_conv dest: set_dropWhileD)
next
  case False
  then obtain c cs where c: "ns = c # cs" "\<not> white_space c" using assms(1) by (cases ns) (auto simp: compact_def)
  have "\<not> white_space (hd (rev ns))" using assms(1) False by (simp add: compact_def hd_rev)
  then have "dropWhile white_space (rev ns) = rev ns" using False by (cases "rev ns") auto
  moreover have "dropWhile white_space (a @ ns @ b) = ns @ b"
    using assms(2) c by (simp add: dropWhile_append2)
  moreover have "dropWhile white_space (rev b @ rev ns) = dropWhile white_space (rev ns)"
    by (rule dropWhile_append2) (use assms(2) in simp)
  ultimately show ?thesis by (simp add: trim_def)
qed

lemma white_space_scalar: "white_space n \<Longrightarrow> scalar_value n"
  by (auto simp: white_space_def scalar_value_def)

section \<open>What the reports show of the machine\<close>

lemma trimmed_output_printed:
  assumes "mc_output mc program args = Inr out" "out_stdout out = printed (a @ ns @ b)"
    "compact ns" "\<forall>n \<in> set a \<union> set b. white_space n"
  shows "trimmed_output mc program args = Some (as_text ns)"
proof -
  have "\<forall>n \<in> set (a @ ns @ b). scalar_value n"
    using assms(3,4) white_space_scalar by (auto simp: compact_def)
  then show ?thesis
    using assms(1,2) trim_compact [OF assms(3,4)] by (simp add: trimmed_output_def decoded)
qed

text \<open>
  C40. On Linux the GPU of a report is whatever the shell printed, without the white space around it, also when it printed
  nothing because there is no \<open>nvidia-smi\<close>: the status of the pipeline is not looked at. So a machine without a GPU
  is shown with an empty name, and the default name of the benchmark entry is never used while the shell can be started.
\<close>

theorem gpu_as_printed:
  assumes "mc_os mc = ''linux''"
    and "mc_output mc ''sh'' [''-c'', ''nvidia-smi --query-gpu=name --format=csv | tail -n +2''] = Inr out"
    and "out_stdout out = printed (a @ ns @ b)" and "compact ns" and "\<forall>n \<in> set a \<union> set b. white_space n"
  shows "hardware_info_slack_message (host_info_of mc) ''GPU'' = newline @ ''*GPU:* `'' @ as_text ns @ ''`'' \<and>
    (rp_resource r = GPU \<longrightarrow> to_bench_file (host_info_of mc) r = Inr entry \<longrightarrow>
       (\<exists>z. rp_zkvm r = Some z \<and> be_name entry = show_zkvm z @ '', '' @ as_text ns))"
proof -
  have "hi_gpu (host_info_of mc) = Some (as_text ns)"
    using trimmed_output_printed [OF assms(2-5)] assms(1) by (simp add: host_info_of_def gpu_info_def)
  then show ?thesis
    by (auto simp: hardware_info_slack_message_def to_bench_file_def res_simps)
qed

definition no_gpu :: machine where
  "no_gpu = \<lparr>mc_os = ''linux'',
     mc_output = (\<lambda>program args. if program = ''sh'' then Inr \<lparr>out_success = True, out_stdout = []\<rparr> else Inl ''not found'')\<rparr>"

theorem gpu_as_printed_witness:
  "hardware_info_slack_message (host_info_of no_gpu) ''GPU'' = newline @ ''*GPU:* ``''"
  using gpu_as_printed [of no_gpu _ "[]" "[]" "[]"]
  by (simp add: no_gpu_def printed_def compact_def as_text_def)

text \<open>The line with branch and commit is shown exactly when \<open>git\<close> succeeds twice and prints proper text.\<close>

lemma git_line_iff:
  "git_info_slack_message (host_info_of mc) \<noteq> [] \<longleftrightarrow>
     (\<exists>b c. get_current_git_branch mc = Some b \<and> get_current_git_commit mc = Some c)"
  by (auto simp: git_info_slack_message_def host_info_of_def newline_def split: option.split)

end
