(* ===== verification/Cache_Store.thy ===== *)
theory Cache_Store
  imports Chain_Types Rust_Fs
begin

text \<open>
  \<open>src/cache.rs\<close>, and \<open>get_block_numbers_in_cache_dir\<close> of \<open>src/helpers.rs\<close>: the cache of the data
  that a replay needs, its file names, and its life on disk.

  Parameters: \<open>show_net\<close> is \<open>Display for Network\<close>, \<open>get_genesis\<close> is \<open>Network::get_genesis\<close>;
  \<open>to_json\<close> is \<open>serde_json::to_writer_pretty\<close> (what it has written to the file, and the error it
  stopped with, if any) and \<open>from_json\<close> is \<open>serde_json::from_reader\<close> on the content of a file.
\<close>

section \<open>Data\<close>

record l2_fields =
  blob_commitment :: bytes
  blob_proof :: bytes

record cache =
  c_blocks :: "block list"
  c_witness :: rpc_execution_witness
  c_network :: network
  c_chain_config :: "chain_config option"
  c_l2_fields :: "l2_fields option"
  c_dir :: path

definition cache_new ::
    "chain_ids \<Rightarrow> features \<Rightarrow> block list \<Rightarrow> rpc_execution_witness \<Rightarrow> chain_config \<Rightarrow> path \<Rightarrow> cache" where
  "cache_new ids feats blocks witness cfg dir =
     \<lparr>c_blocks = blocks,
      c_witness = witness,
      c_network = network_from_chain_id ids feats (cc_chain_id cfg),
      c_chain_config = (if feat_l2 feats then Some cfg else None),
      c_l2_fields =
        (if feat_l2 feats then Some \<lparr>blob_commitment = replicate 48 0, blob_proof = replicate 48 0\<rparr>
         else None),
      c_dir = dir\<rparr>"

fun min_opt :: "u64 list \<Rightarrow> u64 option" where
  "min_opt [] = None"
| "min_opt (n # ns) = Some (fold min ns n)"

definition get_first_block_number :: "cache \<Rightarrow> u64 res" where
  "get_first_block_number c =
     ok_or (min_opt (map blk_number (c_blocks c))) ''Cache should contain at least one block number.''"

definition cache_get_chain_config :: "(network \<Rightarrow> string + genesis) \<Rightarrow> cache \<Rightarrow> chain_config res" where
  "cache_get_chain_config get_genesis c =
     (case c_chain_config c of
        Some cfg \<Rightarrow> Inr cfg
      | None \<Rightarrow>
          (case get_genesis (c_network c) of
             Inr g \<Rightarrow> Inr (gen_config g)
           | Inl e \<Rightarrow> Inl (Error (''Failed to get genesis config: '' @ e))))"

section \<open>File names\<close>

definition get_block_cache_file_name :: "(network \<Rightarrow> string) \<Rightarrow> network \<Rightarrow> u64 \<Rightarrow> u64 option \<Rightarrow> string" where
  "get_block_cache_file_name show_net net from to =
     (case to of
        Some t \<Rightarrow> ''cache_'' @ show_net net @ ''_'' @ show_u64 from @ ''-'' @ show_u64 t @ ''.json''
      | None \<Rightarrow> ''cache_'' @ show_net net @ ''_'' @ show_u64 from @ ''.json'')"

definition get_batch_cache_file_name :: "u64 \<Rightarrow> string" where
  "get_batch_cache_file_name batch_number = ''cache_batch_'' @ show_u64 batch_number @ ''.json''"

text \<open>The name \<open>write\<close> and \<open>delete\<close> both compute for a cache that has a block.\<close>

definition cache_file_name :: "(network \<Rightarrow> string) \<Rightarrow> cache \<Rightarrow> string" where
  "cache_file_name show_net c =
     get_block_cache_file_name show_net (c_network c) (blk_number (hd (c_blocks c)))
       (if length (c_blocks c) = 1 then None else Some (blk_number (last (c_blocks c))))"

abbreviation cache_path :: "(network \<Rightarrow> string) \<Rightarrow> cache \<Rightarrow> path" where
  "cache_path show_net c \<equiv> join (c_dir c) (cache_file_name show_net c)"

section \<open>Operations on disk\<close>

definition cache_load :: "('c \<Rightarrow> string + cache) \<Rightarrow> path \<Rightarrow> string \<Rightarrow> (('c, 'z) fs_scheme, cache) act" where
  "cache_load from_json dir file_name =
     andthen (map_err (\<lambda>e. e @ '' ('' @ path_display (join dir file_name) @ '')'') (fs_open (join dir file_name)))
       (\<lambda>text. andthen (lift_res (of_result (from_json text)))
       (\<lambda>c. ret (c\<lparr>c_dir := dir\<rparr>)))"

definition cache_write ::
    "(network \<Rightarrow> string) \<Rightarrow> (cache \<Rightarrow> 'c \<times> string option) \<Rightarrow> cache \<Rightarrow> (('c, 'z) fs_scheme, unit) act" where
  "cache_write show_net to_json c =
     (if c_blocks c = [] then throw (Error ''cache can't be empty'')
      else andthen (fs_create_dir_all (c_dir c)) (\<lambda>_.
           andthen (fs_write (cache_path show_net c) (fst (to_json c))) (\<lambda>_.
             case snd (to_json c) of None \<Rightarrow> ret () | Some e \<Rightarrow> throw (Error e))))"

definition cache_delete :: "(network \<Rightarrow> string) \<Rightarrow> cache \<Rightarrow> (('c, 'z) fs_scheme, unit) act" where
  "cache_delete show_net c =
     (if c_blocks c = [] then throw (Error ''tried to delete cache with no blocks'')
      else fs_remove (cache_path show_net c))"

section \<open>The block numbers of a cache directory\<close>

text \<open>\<open>&s[a..b]\<close> on a text of one-byte characters.\<close>

definition slice :: "string \<Rightarrow> nat \<Rightarrow> nat \<Rightarrow> string res" where
  "slice s a b =
     (if a \<le> b \<and> b \<le> length s then Inr (take (b - a) (drop a s))
      else Inl (Panic ''slice index out of range''))"

fun collect_numbers :: "string \<Rightarrow> (string \<times> bool) list \<Rightarrow> u64 list res" where
  "collect_numbers prefix [] = Inr []"
| "collect_numbers prefix ((file_name, is_file) # entries) =
     (if is_file \<and> starts_with file_name prefix \<and> ends_with file_name ''.json'' then
        bind_res (slice file_name (length prefix) (length file_name - 5)) (\<lambda>number_part.
        bind_res (collect_numbers prefix entries) (\<lambda>ns.
          Inr (case parse_u64 number_part of Some n \<Rightarrow> n # ns | None \<Rightarrow> ns)))
      else collect_numbers prefix entries)"

definition get_block_numbers_in_cache_dir ::
    "(network \<Rightarrow> string) \<Rightarrow> path \<Rightarrow> network \<Rightarrow> (('c, 'z) fs_scheme, u64 list) act" where
  "get_block_numbers_in_cache_dir show_net dir net =
     andthen (fs_list dir) (\<lambda>entries.
     andthen (lift_res (collect_numbers (''cache_'' @ show_net net @ ''_'') entries))
       (\<lambda>ns. ret (sort ns)))"

section \<open>Lemmas on file names\<close>

lemma last_sep_inj:
  assumes "xs @ c # us = ys @ c # vs" "c \<notin> set us" "c \<notin> set vs"
  shows "xs = ys \<and> us = vs"
proof -
  have "rev us @ c # rev xs = rev vs @ c # rev ys"
    using arg_cong [OF assms(1), of rev] by simp
  moreover have "takeWhile (\<lambda>x. x \<noteq> c) (rev us @ c # rev xs) = rev us"
    "takeWhile (\<lambda>x. x \<noteq> c) (rev vs @ c # rev ys) = rev vs"
    using assms(2,3) takeWhile_append2 [of _ "\<lambda>x. x \<noteq> c"] by (metis (mono_tags, lifting) append_Nil2 set_rev takeWhile.simps(2))+
  ultimately have "us = vs" by (metis rev_rev_ident)
  then show ?thesis using assms(1) by simp
qed

lemma not_digit_seps [simp]: "\<not> is_digit CHR ''_''" "\<not> is_digit CHR ''-''" "\<not> is_digit CHR ''.''"
  by (simp_all add: is_digit_def to_digit_def)

lemma sep_notin_show [simp]: "CHR ''_'' \<notin> set (show_nat n)" "CHR ''-'' \<notin> set (show_nat n)"
  using show_nat_digits not_digit_seps by blast+

text \<open>The part of a file name between the network and the extension.\<close>

definition number_part :: "u64 \<Rightarrow> u64 option \<Rightarrow> string" where
  "number_part from to = show_u64 from @ (case to of None \<Rightarrow> [] | Some t \<Rightarrow> ''-'' @ show_u64 t)"

lemma get_block_cache_file_name_parts:
  "get_block_cache_file_name show_net net from to
    = (''cache_'' @ show_net net) @ CHR ''_'' # (number_part from to @ ''.json'')"
  by (simp add: get_block_cache_file_name_def number_part_def split: option.splits)

lemma number_part_no_sep [simp]: "CHR ''_'' \<notin> set (number_part from to)"
  by (simp add: number_part_def split: option.splits)

lemma number_part_inj: "number_part a x = number_part b y \<Longrightarrow> a = b \<and> x = y"
proof -
  assume eq: "number_part a x = number_part b y"
  let ?r = "\<lambda>z. case z of None \<Rightarrow> [] | Some t \<Rightarrow> ''-'' @ show_u64 t"
  have "unat a = unat b \<and> ?r x = ?r y"
    using eq unfolding number_part_def
    by (rule show_nat_append_inj) (simp_all split: option.split)
  then show ?thesis by (auto split: option.splits)
qed

lemma file_name_inj:
  assumes "inj show_net"
    and "get_block_cache_file_name show_net n a x = get_block_cache_file_name show_net m b y"
  shows "n = m \<and> a = b \<and> x = y"
proof -
  have "''cache_'' @ show_net n = ''cache_'' @ show_net m \<and>
      number_part a x @ ''.json'' = number_part b y @ ''.json''"
    using assms(2) unfolding get_block_cache_file_name_parts by (rule last_sep_inj) simp_all
  then show ?thesis using assms(1) number_part_inj by (auto dest: injD)
qed

lemma parse_u64_digits:
  assumes "parse_u64 s = Some n"
  shows "CHR ''-'' \<notin> set s"
proof (cases s)
  case (Cons c cs)
  obtain v where v: "from_str_radix 10 (2 ^ 64) s = Some v" using assms by (auto simp: parse_u64_def)
  show ?thesis
  proof (cases "c = CHR ''+''")
    case True
    then have "digits_val 10 (2 ^ 64) 0 cs = Some v"
      using v Cons by (simp add: from_str_radix_def split: if_splits)
    from digits_val_Some_digits [OF this, of "CHR ''-''"] show ?thesis using True Cons by auto
  next
    case False
    then have "digits_val 10 (2 ^ 64) 0 s = Some v"
      using v Cons by (simp add: from_str_radix_def del: digits_val.simps)
    from digits_val_Some_digits [OF this, of "CHR ''-''"] show ?thesis by auto
  qed
qed simp

section \<open>Lemmas on the operations\<close>

lemma min_opt_Min: "ns \<noteq> [] \<Longrightarrow> min_opt ns = Some (Min (set ns))"
  by (cases ns) (simp_all add: Min.set_eq_fold [symmetric] del: Min_insert)

lemma cache_write_InrD:
  assumes "cache_write show_net to_json c s = (Inr (), t)"
  shows "c_blocks c \<noteq> []" "snd (to_json c) = None"
    "fs_read t = (fs_read s)(cache_path show_net c \<mapsto> fst (to_json c))" "fs_denied t = fs_denied s"
proof -
  show ne: "c_blocks c \<noteq> []" using assms by (auto simp: cache_write_def split: if_splits)
  have "andthen (fs_create_dir_all (c_dir c)) (\<lambda>_.
      andthen (fs_write (cache_path show_net c) (fst (to_json c))) (\<lambda>_.
        case snd (to_json c) of None \<Rightarrow> ret () | Some e \<Rightarrow> throw (Error e))) s = (Inr (), t)"
    using assms ne by (simp add: cache_write_def)
  then obtain u v where u: "fs_create_dir_all (c_dir c) s = (Inr (), u)"
    and v: "fs_write (cache_path show_net c) (fst (to_json c)) u = (Inr (), v)"
    and w: "(case snd (to_json c) of None \<Rightarrow> ret () | Some e \<Rightarrow> throw (Error e)) v = (Inr (), t)"
    by (auto elim!: andthen_Inr_E)
  have t: "t = v" and n: "snd (to_json c) = None" using w by (auto split: option.splits)
  show "snd (to_json c) = None" by (rule n)
  show "fs_read t = (fs_read s)(cache_path show_net c \<mapsto> fst (to_json c))" "fs_denied t = fs_denied s"
    using disk.put_Inr [OF v] fs_create_dir_all_frame [OF u] fs_write_frame [OF v] t by simp_all
qed

lemma cache_write_frame:
  assumes "cache_write show_net to_json c s = (r, t)" "q \<noteq> cache_path show_net c"
  shows "fs_read t q = fs_read s q"
proof (cases "c_blocks c = []")
  case True
  then show ?thesis using assms by (simp add: cache_write_def)
next
  case False
  obtain r1 u where u: "fs_create_dir_all (c_dir c) s = (r1, u)" by fastforce
  obtain r2 v where v: "fs_write (cache_path show_net c) (fst (to_json c)) u = (r2, v)" by fastforce
  have "t = u \<or> t = v"
    using assms(1) False u v
    by (auto simp: cache_write_def andthen_def split: sum.splits option.splits)
  then show ?thesis
    using disk.put_frame [OF v assms(2)] fs_create_dir_all_frame [OF u] by auto
qed

text \<open>Whether it succeeds or fails, \<open>write\<close> leaves its file alone or fills it with the JSON.\<close>

lemma cache_write_changes:
  assumes "cache_write show_net to_json c s = (r, t)"
    and "fs_read t (cache_path show_net c) \<noteq> fs_read s (cache_path show_net c)"
  shows "fs_read t (cache_path show_net c) = Some (fst (to_json c))"
proof (cases "c_blocks c = []")
  case True
  then show ?thesis using assms by (simp add: cache_write_def)
next
  case False
  obtain r1 u where u: "fs_create_dir_all (c_dir c) s = (r1, u)" by fastforce
  obtain r2 v where v: "fs_write (cache_path show_net c) (fst (to_json c)) u = (r2, v)" by fastforce
  have "t = u \<or> t = v"
    using assms(1) False u v by (auto simp: cache_write_def andthen_def split: sum.splits option.splits)
  then have t: "t = v" using assms(2) fs_create_dir_all_frame [OF u] by auto
  show ?thesis
  proof (cases r2)
    case (Inl e)
    then have "fs_read t = fs_read s" using v disk.put_Inl fs_create_dir_all_frame [OF u] unfolding t by metis
    then show ?thesis using assms(2) by simp
  next
    case (Inr _)
    then have "fs_read t = (fs_read u)(cache_path show_net c \<mapsto> fst (to_json c))"
      using v disk.put_Inr unfolding t by (metis (full_types) old.unit.exhaust)
    then show ?thesis by simp
  qed
qed

lemma cache_delete_InrD:
  assumes "cache_delete show_net c s = (Inr (), t)"
  shows "c_blocks c \<noteq> []" "fs_remove (cache_path show_net c) s = (Inr (), t)"
  using assms by (auto simp: cache_delete_def split: if_splits)

lemma cache_delete_frame:
  assumes "cache_delete show_net c s = (r, t)" "q \<noteq> cache_path show_net c"
  shows "fs_read t q = fs_read s q"
  using assms disk.del_frame by (fastforce simp: cache_delete_def split: if_splits)

lemma cache_load_state [simp]: "snd (cache_load from_json dir name s) = s"
proof -
  have *: "map_err f (fs_open p) s = (r, t) \<Longrightarrow> t = s" for f p r t
    using snd_map_err [of f "fs_open p" s] by simp
  show ?thesis
    unfolding cache_load_def andthen_def by (auto split: prod.splits sum.splits dest!: * fs_open_InrD)
qed

lemma cache_load_Inr_iff:
  assumes "fs_denied s OpenRead (join dir name) = None"
  shows "cache_load from_json dir name s = (Inr c, t) \<longleftrightarrow>
    t = s \<and> (\<exists>text c0. fs_read s (join dir name) = Some text \<and> from_json text = Inr c0 \<and> c = c0\<lparr>c_dir := dir\<rparr>)"
proof (cases "fs_read s (join dir name)")
  case None
  then show ?thesis using assms by (auto simp: cache_load_def andthen_def fs_open_def map_err_def)
next
  case (Some content)
  then have "fs_open (join dir name) s = (Inr content, s)" using assms by (simp add: fs_open_Some)
  then show ?thesis
    using Some by (cases "from_json content") (auto simp: cache_load_def andthen_def)
qed

lemma cache_load_missing:
  assumes "fs_read s (join dir name) = None"
  shows "\<exists>e. cache_load from_json dir name s = (Inl (Error e), s)"
  using fs_open_missing [OF assms] by (auto simp: cache_load_def andthen_def)

subsection \<open>Listing\<close>

lemma prefix_ext_split:
  assumes "starts_with f (q @ ''_'')" "ends_with f ''.json''"
  obtains part where "f = (q @ ''_'') @ part @ ''.json''"
proof -
  obtain r t where r: "f = (q @ ''_'') @ r" and t: "f = t @ ''.json''"
    using assms starts_withE ends_withE by metis
  have "(q @ ''_'') @ r = t @ ''.json''" using r t by simp
  then consider us where "q @ ''_'' = t @ us" "us @ r = ''.json''"
    | us where "(q @ ''_'') @ us = t" "r = us @ ''.json''"
    unfolding append_eq_append_conv2 by blast
  then show ?thesis
  proof cases
    case 1
    have "us = []"
    proof (rule ccontr)
      assume ne: "us \<noteq> []"
      then have "last us = CHR ''_''" using 1(1) by (metis last_appendR last_snoc)
      then have "CHR ''_'' \<in> set (us @ r)" using ne last_in_set by fastforce
      then show False using 1(2) by simp
    qed
    then show ?thesis using that [of "[]"] r 1(2) by simp
  next
    case 2
    then show ?thesis using that [of us] r by simp
  qed
qed

lemma slice_middle [simp]:
  "slice (p @ part @ ''.json'') (length p) (length (p @ part @ ''.json'') - 5) = Inr part"
  by (simp add: slice_def)

lemma collect_numbers_spec:
  "\<exists>ns. collect_numbers (q @ ''_'') entries = Inr ns \<and>
    (\<forall>n. n \<in> set ns \<longleftrightarrow>
      (\<exists>part. ((q @ ''_'') @ part @ ''.json'', True) \<in> set entries \<and> parse_u64 part = Some n))"
proof (induction entries)
  case Nil
  then show ?case by simp
next
  case (Cons e entries)
  obtain f b where e: "e = (f, b)" by (cases e)
  obtain ns where ns: "collect_numbers (q @ ''_'') entries = Inr ns"
    "\<forall>n. n \<in> set ns \<longleftrightarrow> (\<exists>part. ((q @ ''_'') @ part @ ''.json'', True) \<in> set entries \<and> parse_u64 part = Some n)"
    using Cons.IH by blast
  show ?case
  proof (cases "b \<and> starts_with f (q @ ''_'') \<and> ends_with f ''.json''")
    case True
    then obtain part where part: "f = (q @ ''_'') @ part @ ''.json''" using prefix_ext_split by blast
    have "slice f (length (q @ ''_'')) (length f - 5) = Inr part"
      unfolding part by (rule slice_middle)
    then have "collect_numbers (q @ ''_'') (e # entries)
        = Inr (case parse_u64 part of Some n \<Rightarrow> n # ns | None \<Rightarrow> ns)"
      using True ns(1) by (simp add: e)
    then show ?thesis using ns(2) True by (auto simp: e part split: option.splits)
  next
    case False
    have "b \<Longrightarrow> f \<noteq> (q @ ''_'') @ part @ ''.json''" for part
      using False starts_with_append [of "q @ ''_''"] ends_with_append [of "(q @ ''_'') @ part" "''.json''"]
      by (metis append.assoc)
    moreover have "collect_numbers (q @ ''_'') (e # entries) = Inr ns"
      using False ns(1) by (auto simp: e)
    ultimately show ?thesis using ns(2) by (fastforce simp: e)
  qed
qed

section \<open>Properties\<close>

text \<open>
  C33. A cache written to disk is read back: after a successful \<open>write\<close>, loading the file of that
  name from the same directory returns the very same cache, given that the JSON written for it
  parses back (the directory, which is not serialised, comes out empty).
\<close>

theorem cache_write_then_load:
  assumes "cache_write show_net to_json c s = (Inr (), t)"
    and "from_json (fst (to_json c)) = Inr (c\<lparr>c_dir := []\<rparr>)"
    and "fs_denied s OpenRead (cache_path show_net c) = None"
  shows "cache_load from_json (c_dir c) (cache_file_name show_net c) t = (Inr c, t)"
proof -
  have "fs_read t (cache_path show_net c) = Some (fst (to_json c))" "fs_denied t = fs_denied s"
    using cache_write_InrD [OF assms(1)] by simp_all
  then show ?thesis using assms(2,3) by (simp add: cache_load_Inr_iff)
qed

definition example_net :: "network \<Rightarrow> string" where
  "example_net net = (case net of PublicNetwork Mainnet \<Rightarrow> ''mainnet'' | PublicNetwork Hoodi \<Rightarrow> ''hoodi'' | _ \<Rightarrow> ''local-devnet'')"

definition example_block :: "u64 \<Rightarrow> block" where
  "example_block n = \<lparr>b_header = \<lparr>bh_number = n, bh_gas_limit = 30000000, bh_gas_used = 21000\<rparr>, b_transactions = []\<rparr>"

definition example_cache :: cache where
  "example_cache = cache_new example_ids no_features [example_block 7]
     \<lparr>w_state = [], w_keys = [], w_codes = [], w_headers = []\<rparr> \<lparr>cc_chain_id = 1\<rparr> [''replay_cache'']"

definition example_fs :: "cache fs" where
  "example_fs = \<lparr>fs_files = [], fs_dirs = [[''replay_cache'']], fs_denied = (\<lambda>_ _. None)\<rparr>"

text \<open>A concrete serialiser: the content of a file is the cache itself, less its directory.\<close>

definition example_to_json :: "cache \<Rightarrow> cache \<times> string option" where
  "example_to_json c = (c\<lparr>c_dir := []\<rparr>, None)"

lemmas example_defs = example_cache_def example_block_def example_net_def example_fs_def
  example_to_json_def cache_new_def no_features_def network_from_chain_id_def example_ids_def

lemma example_cache_fields [simp]:
  "c_blocks example_cache = [example_block 7]" "c_dir example_cache = [''replay_cache'']"
  "c_network example_cache = PublicNetwork Mainnet" "blk_number (example_block n) = n"
  by (simp_all add: example_defs)

lemma cache_write_fresh:
  assumes "c_blocks c \<noteq> []" "snd (to_json c) = None" "c_dir c = [d]"
  shows "cache_write show_net to_json c empty_fs
    = (Inr (), empty_fs\<lparr>fs_files := [(cache_path show_net c, fst (to_json c))], fs_dirs := [[d]]\<rparr>)"
  using assms
  by (simp add: cache_write_def andthen_def fs_create_dir_all_def fs_write_def empty_fs_def ancestors_def fs_is_dir_def join_def)

lemma example_write_Inr: "fst (cache_write example_net example_to_json example_cache example_fs) = Inr ()"
  by (simp add: cache_write_def andthen_def fs_create_dir_all_def permitted_def fs_write_def
      example_fs_def fs_is_dir_def ancestors_def example_to_json_def join_def)

theorem cache_write_then_load_witness:
  "cache_load Inr [''replay_cache''] (cache_file_name example_net example_cache)
      (snd (cache_write example_net example_to_json example_cache example_fs))
    = (Inr example_cache, snd (cache_write example_net example_to_json example_cache example_fs))"
proof -
  have "cache_write example_net example_to_json example_cache example_fs
      = (Inr (), snd (cache_write example_net example_to_json example_cache example_fs))"
    using example_write_Inr by (metis prod.collapse)
  from cache_write_then_load [OF this, of Inr] show ?thesis
    by (simp add: example_to_json_def example_fs_def)
qed

text \<open>
  Two caches share a file name only when they are of the same network and the same first and
  last block, provided different networks have different names.
\<close>

theorem cache_file_name_injective:
  assumes "inj show_net"
    and "get_block_cache_file_name show_net n a x = get_block_cache_file_name show_net m b y"
  shows "n = m \<and> a = b \<and> x = y"
  using assms by (rule file_name_inj)

definition injective_net :: "network \<Rightarrow> string" where
  "injective_net net = (case net of
       PublicNetwork Mainnet \<Rightarrow> ''mainnet'' | PublicNetwork Holesky \<Rightarrow> ''holesky''
     | PublicNetwork Hoodi \<Rightarrow> ''hoodi'' | PublicNetwork Sepolia \<Rightarrow> ''sepolia''
     | PublicNetwork (OtherPublic s) \<Rightarrow> ''public:'' @ s | LocalDevnet \<Rightarrow> ''local-devnet''
     | LocalDevnetL2 \<Rightarrow> ''local-devnet-l2'' | L2Chain n \<Rightarrow> ''L2:'' @ show_u64 n | OtherNetwork s \<Rightarrow> ''other:'' @ s)"

lemma injective_net_inj: "inj injective_net"
  by (rule injI) (auto simp: injective_net_def split: network.splits public_network.splits)

theorem cache_file_name_injective_witness:
  "PublicNetwork Hoodi = PublicNetwork Hoodi \<and> (1265656 :: u64) = 1265656 \<and> (None :: u64 option) = None"
  by (rule cache_file_name_injective [OF injective_net_inj, of "PublicNetwork Hoodi" 1265656 None]) simp

text \<open>
  Deleting a cache undoes writing it: when its file did not exist before, a \<open>write\<close> and a
  \<open>delete\<close> that succeed leave every file as it was.
\<close>

theorem cache_delete_undoes_write:
  assumes "fs_read s (cache_path show_net c) = None"
    and "cache_write show_net to_json c s = (Inr (), t)"
    and "cache_delete show_net c t = (Inr (), u)"
  shows "fs_read u = fs_read s"
  using disk.del_Inr [OF cache_delete_InrD(2) [OF assms(3)]] cache_write_InrD(3) [OF assms(2)] assms(1)
  by (simp add: fun_eq_iff)

theorem cache_delete_undoes_write_witness:
  "fs_read (snd (cache_delete example_net example_cache
      (snd (cache_write example_net example_to_json example_cache example_fs)))) = fs_read example_fs"
proof -
  let ?t = "snd (cache_write example_net example_to_json example_cache example_fs)"
  have w: "cache_write example_net example_to_json example_cache example_fs = (Inr (), ?t)"
    using example_write_Inr by (metis prod.collapse)
  have t: "fs_read ?t (cache_path example_net example_cache) \<noteq> None" "fs_denied ?t = fs_denied example_fs"
    using cache_write_InrD [OF w] by simp_all
  then have "cache_delete example_net example_cache ?t = (Inr (), snd (cache_delete example_net example_cache ?t))"
    by (simp add: cache_delete_def fs_remove_def permitted_def example_fs_def)
  from cache_delete_undoes_write [OF _ w this] show ?thesis by (simp add: example_fs_def)
qed

text \<open>
  C34. Listing a cache directory never panics in its slicing; what it returns is sorted, holds
  the number of every single-block cache file of the network in the directory, and holds nothing
  but numbers read from such a file name.
\<close>

theorem cached_block_numbers:
  "\<not> is_panic (fst (get_block_numbers_in_cache_dir show_net dir net s)) \<and>
   (\<forall>ns t. get_block_numbers_in_cache_dir show_net dir net s = (Inr ns, t) \<longrightarrow>
      t = s \<and> sorted ns \<and>
      (\<forall>n. fs_read s (join dir (get_block_cache_file_name show_net net n None)) \<noteq> None \<longrightarrow> n \<in> set ns) \<and>
      (\<forall>n \<in> set ns. \<exists>part. parse_u64 part = Some n \<and>
         fs_read s (join dir (''cache_'' @ show_net net @ ''_'' @ part @ ''.json'')) \<noteq> None))"
proof (cases "fs_list dir s")
  case (Pair r t)
  let ?q = "''cache_'' @ show_net net"
  show ?thesis
  proof (cases r)
    case (Inl e)
    then have "\<not> is_panic (Inl e :: u64 list res)"
      using Pair by (auto simp: fs_list_def permitted_def split: option.splits if_splits)
    then show ?thesis
      using Pair Inl by (simp add: get_block_numbers_in_cache_dir_def andthen_def)
  next
    case (Inr es)
    obtain ns where ns: "collect_numbers (?q @ ''_'') es = Inr ns"
      "\<And>n. n \<in> set ns \<longleftrightarrow> (\<exists>part. ((?q @ ''_'') @ part @ ''.json'', True) \<in> set es \<and> parse_u64 part = Some n)"
      using collect_numbers_spec [of ?q es] by blast
    have L: "t = s" "\<And>name. (name, True) \<in> set es \<longleftrightarrow> fs_read s (join dir name) \<noteq> None"
      using fs_listD [of dir s es t] Pair Inr by auto
    have get: "get_block_numbers_in_cache_dir show_net dir net s = (Inr (sort ns), s)"
      using Pair Inr ns(1) L(1) by (simp add: get_block_numbers_in_cache_dir_def andthen_def)
    have "n \<in> set ns" if "fs_read s (join dir (get_block_cache_file_name show_net net n None)) \<noteq> None" for n
      using that ns(2) L(2) by (auto simp: get_block_cache_file_name_def intro!: exI [of _ "show_u64 n"])
    moreover have "\<exists>part. parse_u64 part = Some n \<and>
        fs_read s (join dir (''cache_'' @ show_net net @ ''_'' @ part @ ''.json'')) \<noteq> None" if "n \<in> set ns" for n
      using that ns(2) L(2) by auto
    ultimately show ?thesis using get by simp
  qed
qed

theorem cached_block_numbers_witness:
  "get_block_numbers_in_cache_dir example_net [''replay_cache''] (PublicNetwork Mainnet)
     (example_fs\<lparr>fs_files := [([''replay_cache'', ''cache_mainnet_12.json''], example_cache),
        ([''replay_cache'', ''cache_mainnet_5.json''], example_cache),
        ([''replay_cache'', ''cache_mainnet_5-9.json''], example_cache)]\<rparr>)
   = (Inr [5, 12], (example_fs\<lparr>fs_files := [([''replay_cache'', ''cache_mainnet_12.json''], example_cache),
        ([''replay_cache'', ''cache_mainnet_5.json''], example_cache),
        ([''replay_cache'', ''cache_mainnet_5-9.json''], example_cache)]\<rparr>)) \<and>
   \<not> is_panic (fst (get_block_numbers_in_cache_dir example_net [''replay_cache''] (PublicNetwork Mainnet) example_fs))"
proof
  show "\<not> is_panic (fst (get_block_numbers_in_cache_dir example_net [''replay_cache''] (PublicNetwork Mainnet) example_fs))"
    using cached_block_numbers by blast
qed (simp add: get_block_numbers_in_cache_dir_def andthen_def fs_list_def example_fs_def fs_is_dir_def
    slice_def starts_with_def ends_with_def example_net_def parse_u64_def from_str_radix_def to_digit_def)

end
