(* ===== verification/Rpc_Client.thy ===== *)
theory Rpc_Client
  imports Chain_Types
begin

text \<open>
  \<open>src/rpc/mod.rs\<close>: the JSON-RPC calls behind the fallback on \<open>eth_getProof\<close>, and the account
  they fetch.

  The record \<open>rpc_ext\<close> collects what belongs to other crates: the transport (\<open>reqwest\<close>) with the
  remote node behind it, JSON decoding (\<open>serde_json\<close>), the parsing and formatting of addresses,
  hashes and 256-bit numbers, \<open>hex\<close>, Keccak, and the Merkle Patricia trie of \<open>ethrex-trie\<close>. The
  remote node has a state \<open>'n\<close> and may answer differently every time.
\<close>

section \<open>Accounts\<close>

record account_state =
  as_nonce :: u64
  as_balance :: u256
  as_storage_root :: h256
  as_code_hash :: h256

datatype account =
    Existing account_state "(h256, u256) hmap" "bytes list" "(h256, bytes list) hmap" "bytes option"
  | NonExisting "bytes list" "(h256, bytes list) hmap"

fun get_account_proof :: "account \<Rightarrow> bytes list" where
  "get_account_proof (Existing _ _ account_proof _ _) = account_proof"
| "get_account_proof (NonExisting account_proof _) = account_proof"

fun get_storage_proofs :: "account \<Rightarrow> (h256, bytes list) hmap" where
  "get_storage_proofs (Existing _ _ _ storage_proofs _) = storage_proofs"
| "get_storage_proofs (NonExisting _ storage_proofs) = storage_proofs"

section \<open>Requests, answers and the remote side\<close>

datatype rpc_request =
    EthGetBlockByNumber string bool
  | EthGetProof string "string list" string
  | EthGetCode string string

text \<open>The structs \<open>AccountProof\<close> and \<open>StorageProof\<close> inside \<open>get_account\<close>, and what is read of an \<open>RpcBlock\<close>.\<close>

record storage_proof_json =
  sp_key :: string
  sp_value :: string
  sp_proof :: "string list"

record account_proof_json =
  ap_balance :: string
  ap_code_hash :: string
  ap_nonce :: string
  ap_storage_hash :: string
  ap_storage_proof :: "storage_proof_json list"
  ap_account_proof :: "string list"

record rpc_block =
  rb_hash :: h256
  rb_header_rlp :: bytes

record ('n, 'j, 'd, 't) rpc_ext =
  x_post :: "rpc_request \<Rightarrow> 'n \<Rightarrow> (string + 'j) \<times> nat \<times> 'n"
  x_result :: "'j \<Rightarrow> 'j option"
  x_json_text :: "'j \<Rightarrow> string"
  x_json_block :: "'j \<Rightarrow> string + rpc_block"
  x_json_proof :: "'j \<Rightarrow> string + account_proof_json"
  x_json_string :: "'j \<Rightarrow> string + string"
  x_addr_hex :: "address \<Rightarrow> string"
  x_h256_hex :: "h256 \<Rightarrow> string"
  x_parse_h256 :: "string \<Rightarrow> string + h256"
  x_parse_u256 :: "string \<Rightarrow> string + u256"
  x_hex_decode :: "string \<Rightarrow> string + bytes"
  x_keccak :: "bytes \<Rightarrow> h256"
  x_node_decode :: "bytes \<Rightarrow> string + 'd"
  x_trie_from_nodes :: "h256 \<Rightarrow> (h256, 'd) hmap \<Rightarrow> string + 't"
  x_trie_get :: "'t \<Rightarrow> bytes \<Rightarrow> string + bytes option"
  x_hash_address :: "address \<Rightarrow> bytes"
  x_hash_key :: "h256 \<Rightarrow> bytes"
  x_code_hash :: "bytes \<Rightarrow> h256"
  x_empty_keccak :: h256

text \<open>
  What a call can change: the shared cache of codes, the remote node, the record of requests sent,
  and the time (nanoseconds), which an answer takes as long as the node makes it take.
\<close>

record 'n rpc_state =
  rs_codes :: "(h256, bytes) hmap"
  rs_node :: 'n
  rs_requests :: "rpc_request list"
  rs_clock :: nat

definition send :: "('n, 'j, 'd, 't) rpc_ext \<Rightarrow> rpc_request \<Rightarrow> ('n rpc_state, 'j) act" where
  "send ext req = (\<lambda>s.
     case x_post ext req (rs_node s) of (r, latency, n) \<Rightarrow>
       (of_result r, s\<lparr>rs_node := n, rs_requests := rs_requests s @ [req], rs_clock := rs_clock s + latency\<rparr>))"

section \<open>The calls\<close>

definition get_result ::
    "('n, 'j, 'd, 't) rpc_ext \<Rightarrow> ('j \<Rightarrow> string + 'a) \<Rightarrow> 'j \<Rightarrow> 'a res" where
  "get_result ext from_value response =
     (case x_result ext response of
        Some result \<Rightarrow> of_result (from_value result)
      | None \<Rightarrow> Inl (Error (''result not found, response is: '' @ x_json_text ext response)))"

definition decode_hex :: "('n, 'j, 'd, 't) rpc_ext \<Rightarrow> string \<Rightarrow> bytes res" where
  "decode_hex ext hex =
     (let trimmed = trim_start_matches ''0x'' hex;
          trimmed' = (if length trimmed mod 2 \<noteq> 0 then CHR ''0'' # trimmed else trimmed)
      in of_result (x_hex_decode ext trimmed'))"

definition hex_quantity :: "nat \<Rightarrow> string" where
  "hex_quantity n = ''0x'' @ show_hex n"

definition get_block :: "('n, 'j, 'd, 't) rpc_ext \<Rightarrow> nat \<Rightarrow> bool \<Rightarrow> ('n rpc_state, rpc_block) act" where
  "get_block ext block_number hydrated =
     andthen (send ext (EthGetBlockByNumber (hex_quantity block_number) hydrated)) (\<lambda>response.
     lift_res (get_result ext (x_json_block ext) response))"

definition get_code :: "('n, 'j, 'd, 't) rpc_ext \<Rightarrow> nat \<Rightarrow> address \<Rightarrow> ('n rpc_state, bytes) act" where
  "get_code ext block_number address =
     andthen (send ext (EthGetCode (''0x'' @ x_addr_hex ext address) (hex_quantity block_number))) (\<lambda>res.
     andthen (lift_res (get_result ext (x_json_string ext) res)) (\<lambda>text.
     lift_res (decode_hex ext text)))"

text \<open>The body of \<open>get_account\<close> between the answer and the account, in its three parts.\<close>

definition parse_storage_proof ::
    "('n, 'j, 'd, 't) rpc_ext \<Rightarrow> storage_proof_json \<Rightarrow> ((h256 \<times> u256) \<times> (h256 \<times> bytes list)) res" where
  "parse_storage_proof ext proof =
     bind_res (of_result (x_parse_h256 ext (sp_key proof))) (\<lambda>key.
     bind_res (of_result (x_parse_u256 ext (sp_value proof))) (\<lambda>value.
     bind_res (map_res (decode_hex ext) (sp_proof proof)) (\<lambda>proofs.
       Inr ((key, value), (key, proofs)))))"

text \<open>The nodes of a proof by their hashes, as \<open>get_account\<close> collects them for the trie.\<close>

definition proof_nodes :: "('n, 'j, 'd, 't) rpc_ext \<Rightarrow> bytes list \<Rightarrow> (h256, 'd) hmap res" where
  "proof_nodes ext account_proof =
     bind_res (map_res (\<lambda>node.
         bind_res (case x_node_decode ext node of Inl _ \<Rightarrow> Inl (Error ''Failed to decode node'') | Inr d \<Rightarrow> Inr d)
           (\<lambda>d. Inr (x_keccak ext node, d))) account_proof)
       (\<lambda>nodes. Inr (hm_collect nodes))"

definition account_in_trie :: "('n, 'j, 'd, 't) rpc_ext \<Rightarrow> address \<Rightarrow> bytes list \<Rightarrow> bool res" where
  "account_in_trie ext address account_proof =
     (case account_proof of
        [] \<Rightarrow> Inl (Error ''account proof is empty'')
      | root # _ \<Rightarrow>
          bind_res (proof_nodes ext account_proof) (\<lambda>state_nodes.
          bind_res (of_result (x_trie_from_nodes ext (x_keccak ext root) state_nodes)) (\<lambda>trie.
          bind_res (of_result (x_trie_get ext trie (x_hash_address ext address))) (\<lambda>v.
            Inr (v \<noteq> None)))))"

definition parse_account_state :: "('n, 'j, 'd, 't) rpc_ext \<Rightarrow> account_proof_json \<Rightarrow> account_state res" where
  "parse_account_state ext ap =
     bind_res (ok_or (from_str_radix 16 (2 ^ 64) (trim_start_matches ''0x'' (ap_nonce ap))) ''invalid nonce'') (\<lambda>nonce.
     bind_res (of_result (x_parse_u256 ext (ap_balance ap))) (\<lambda>balance.
     bind_res (of_result (x_parse_h256 ext (ap_storage_hash ap))) (\<lambda>storage_root.
     bind_res (of_result (x_parse_h256 ext (ap_code_hash ap))) (\<lambda>code_hash.
       Inr \<lparr>as_nonce = of_nat nonce, as_balance = balance, as_storage_root = storage_root,
            as_code_hash = code_hash\<rparr>))))"

text \<open>The code of the account: from the cache of codes, else fetched and put there.\<close>

definition account_code ::
    "('n, 'j, 'd, 't) rpc_ext \<Rightarrow> nat \<Rightarrow> address \<Rightarrow> account_state \<Rightarrow> ('n rpc_state, bytes option) act" where
  "account_code ext block_number address st =
     (if as_code_hash st \<noteq> x_empty_keccak ext then
        (\<lambda>s. case map_of (rs_codes s) (as_code_hash st) of
           Some cached_code \<Rightarrow> (Inr (Some cached_code), s)
         | None \<Rightarrow>
             andthen (get_code ext block_number address) (\<lambda>fetched_code s.
               (Inr (Some fetched_code),
                s\<lparr>rs_codes := AList.update (as_code_hash st) fetched_code (rs_codes s)\<rparr>)) s)
      else ret None)"

definition get_account ::
    "('n, 'j, 'd, 't) rpc_ext \<Rightarrow> nat \<Rightarrow> address \<Rightarrow> h256 list \<Rightarrow> ('n rpc_state, account) act" where
  "get_account ext block_number address storage_keys =
     andthen (send ext (EthGetProof (''0x'' @ x_addr_hex ext address)
         (map (\<lambda>key. ''0x'' @ x_h256_hex ext key) storage_keys) (hex_quantity block_number))) (\<lambda>response.
     andthen (lift_res (get_result ext (x_json_proof ext) response)) (\<lambda>ap.
     andthen (lift_res (map_res (decode_hex ext) (ap_account_proof ap))) (\<lambda>account_proof.
     andthen (lift_res (map_res (parse_storage_proof ext) (ap_storage_proof ap))) (\<lambda>pairs.
     let storage = hm_collect (map fst pairs); storage_proofs = hm_collect (map snd pairs) in
     andthen (lift_res (account_in_trie ext address account_proof)) (\<lambda>found.
     if \<not> found then ret (NonExisting account_proof storage_proofs)
     else
       andthen (lift_res (parse_account_state ext ap)) (\<lambda>st.
       andthen (account_code ext block_number address st) (\<lambda>code.
         ret (Existing st storage account_proof storage_proofs code))))))))"

text \<open>
  \<open>retry\<close> hands the call to a \<open>RetryPolicy\<close> of the crate \<open>again\<close>, a parameter wherever it is used.
  What is documented of it: it runs the call, and runs it again after an error, finitely often.
\<close>

inductive retried :: "('s, 'a) act \<Rightarrow> 's \<Rightarrow> 'a res \<times> 's \<Rightarrow> bool" where
  last_try: "m s = r \<Longrightarrow> retried m s r"
| again: "m s = (Inl (Error e), s') \<Longrightarrow> retried m s' r \<Longrightarrow> retried m s r"

definition retry_policy :: "(('s, 'a) act \<Rightarrow> ('s, 'a) act) \<Rightarrow> bool" where
  "retry_policy policy \<longleftrightarrow> (\<forall>m s. retried m s (policy m s))"

section \<open>Lemmas\<close>

lemma retried_inv:
  assumes "retried m s r" "I s" "\<And>s. I s \<Longrightarrow> I (snd (m s))"
  shows "I (snd r)"
  using assms by (induction rule: retried.induct) (auto, metis snd_conv)

text \<open>What every successful attempt guarantees, the call as a whole guarantees.\<close>

lemma retried_Inr:
  assumes "retried m s r" "I s" "\<And>s. I s \<Longrightarrow> I (snd (m s))"
    and "\<And>s x t. I s \<Longrightarrow> m s = (Inr x, t) \<Longrightarrow> Q x t" and "r = (Inr x, t)"
  shows "Q x t"
  using assms by (induction arbitrary: x t rule: retried.induct) (auto, metis snd_conv)

lemma retried_no_panic:
  assumes "retried m s r" "\<And>s. \<not> is_panic (fst (m s))"
  shows "\<not> is_panic (fst r)"
  using assms by (induction rule: retried.induct) auto

lemma triple_retry:
  assumes "retry_policy policy" "triple I m (\<lambda>x t. I t \<and> Q x) (errs I)"
  shows "triple I (policy m) (\<lambda>x t. I t \<and> Q x) (errs I)"
proof -
  have good: "case m s of (Inl e, t) \<Rightarrow> errs I e t | (Inr x, t) \<Rightarrow> I t \<and> Q x" if "I s" for s
    using assms(2) that by (simp add: triple_def)
  have one: "case r of (Inl e, t) \<Rightarrow> errs I e t | (Inr x, t) \<Rightarrow> I t \<and> Q x"
    if "retried m s r" "I s" for s r
    using that good
  proof (induction rule: retried.induct)
    case (last_try m s r)
    show ?case unfolding last_try.hyps [symmetric] by (rule last_try.prems(2) [OF last_try.prems(1)])
  next
    case (again m s e s' r)
    have "I s'" using again.prems(2) [OF again.prems(1)] again.hyps(1) by simp
    then show ?case by (rule again.IH [OF _ again.prems(2)])
  qed
  have "retried m s (policy m s)" for s using assms(1) unfolding retry_policy_def by blast
  then show ?thesis unfolding triple_def by (intro allI impI one)
qed

lemma retry_policy_id: "retry_policy (\<lambda>m. m)"
  by (auto simp: retry_policy_def intro: retried.intros)

text \<open>The argument given to \<open>hex::decode\<close> has an even length, whatever the answer holds.\<close>

lemma decode_hex_even:
  "\<exists>h. even (length h) \<and> decode_hex ext text = of_result (x_hex_decode ext h)"
proof -
  let ?t = "trim_start_matches ''0x'' text"
  let ?h = "if length ?t mod 2 \<noteq> 0 then CHR ''0'' # ?t else ?t"
  have "even (length ?h)" by auto
  moreover have "decode_hex ext text = of_result (x_hex_decode ext ?h)"
    by (simp add: decode_hex_def Let_def)
  ultimately show ?thesis by blast
qed

lemma no_panic_bind: "\<not> is_panic r \<Longrightarrow> (\<And>x. r = Inr x \<Longrightarrow> \<not> is_panic (f x)) \<Longrightarrow> \<not> is_panic (bind_res r f)"
  by (cases r) auto

lemma no_panic_andthen:
  "\<not> is_panic (fst (m s)) \<Longrightarrow> (\<And>x t. m s = (Inr x, t) \<Longrightarrow> \<not> is_panic (fst (f x t))) \<Longrightarrow>
     \<not> is_panic (fst (andthen m f s))"
  by (cases "m s"; cases "fst (m s)") (auto simp: andthen_def)

lemma decode_hex_no_panic [simp]: "\<not> is_panic (decode_hex ext text)"
  by (simp add: decode_hex_def Let_def)

lemma get_result_no_panic [simp]: "\<not> is_panic (get_result ext f j)"
  by (simp add: get_result_def split: option.split)

lemma send_no_panic [simp]: "\<not> is_panic (fst (send ext req s))"
  by (simp add: send_def split: prod.split)

lemma parse_storage_proof_no_panic [simp]: "\<not> is_panic (parse_storage_proof ext p)"
  by (simp add: parse_storage_proof_def no_panic_bind map_res_no_panic)

lemma account_in_trie_no_panic [simp]: "\<not> is_panic (account_in_trie ext a p)"
  by (cases p) (simp_all add: account_in_trie_def proof_nodes_def no_panic_bind map_res_no_panic split: sum.split)

lemma parse_account_state_no_panic [simp]: "\<not> is_panic (parse_account_state ext ap)"
  by (simp add: parse_account_state_def no_panic_bind)

lemma get_code_no_panic [simp]: "\<not> is_panic (fst (get_code ext n a s))"
  by (simp add: get_code_def no_panic_andthen)

lemma account_code_no_panic [simp]: "\<not> is_panic (fst (account_code ext n a st s))"
  by (auto simp: account_code_def no_panic_andthen split: option.split)

lemma get_account_no_panic [simp]: "\<not> is_panic (fst (get_account ext n a ks s))"
  unfolding get_account_def Let_def by (intro no_panic_andthen) (auto simp: map_res_no_panic no_panic_andthen)

lemma get_block_no_panic [simp]: "\<not> is_panic (fst (get_block ext n h s))"
  by (simp add: get_block_def no_panic_andthen)

end
