(* ===== verification/Rpc_Db.thy ===== *)
theory Rpc_Db
  imports Rpc_Client Durations
begin

text \<open>
  \<open>src/rpc/db.rs\<close>: the database that \<open>LEVM\<close> executes a block on when the node has no
  \<open>debug_executionWitness\<close>. It fetches accounts with \<open>eth_getProof\<close> on demand, in chunks that keep
  to a request rate, and caches what it has fetched.

  The state \<open>rpc_db\<close> holds the caches and, in \<open>db_rpc\<close>, what a remote call can change. \<open>policy\<close>
  and \<open>policy_block\<close> are the retry policy of \<open>retry\<close> at its two uses. The requests of one chunk, which the code sends
  concurrently, run in the order of the chunk; \<open>Rpc_Concurrent\<close> has all other orders.
\<close>

section \<open>State\<close>

datatype vm_type = VM_L1 | VM_L2

record 'n rpc_db =
  db_rpc :: "'n rpc_state"
  db_block_number :: u64
  db_cache :: "(address, account) hmap"
  db_child_cache :: "(address, account) hmap"
  db_block_hashes :: "(u64, h256) hmap"
  db_chain_config :: chain_config
  db_vm_type :: vm_type

text \<open>\<open>RpcDB::new\<close>; the codes start empty, the remote side is what it is.\<close>

definition rpc_db_new :: "'n rpc_state \<Rightarrow> chain_config \<Rightarrow> u64 \<Rightarrow> vm_type \<Rightarrow> 'n rpc_db" where
  "rpc_db_new remote cfg block_number vm =
     \<lparr>db_rpc = remote\<lparr>rs_codes := []\<rparr>, db_block_number = block_number, db_cache = [],
      db_child_cache = [], db_block_hashes = [], db_chain_config = cfg, db_vm_type = vm\<rparr>"

text \<open>\<open>RPC_RPS\<close>, from the value of the environment variable, and \<open>RATE_LIMIT\<close>.\<close>

definition rpc_rps :: "string option \<Rightarrow> nat" where
  "rpc_rps env =
     (case env of
        None \<Rightarrow> 10
      | Some val \<Rightarrow> (case from_str_radix 10 (2 ^ 64) val of Some n \<Rightarrow> n | None \<Rightarrow> 10))"

definition rate_limit :: "nat \<Rightarrow> duration res" where
  "rate_limit rps =
     (if rps = 0 then Inl (Panic ''attempt to divide by zero'') else Inr (1000000 div rps * 1000))"

abbreviation on_rpc :: "('n rpc_state, 'a) act \<Rightarrow> ('n rpc_db, 'a) act" where
  "on_rpc m \<equiv> zoom db_rpc (\<lambda>r db. db\<lparr>db_rpc := r\<rparr>) m"

section \<open>Fetching\<close>

text \<open>\<open>slice::chunks\<close>, for a chunk size above zero.\<close>

function chunks :: "nat \<Rightarrow> 'a list \<Rightarrow> 'a list list" where
  "chunks n xs = (if xs = [] \<or> n = 0 then [] else take n xs # chunks n (drop n xs))"
  by pat_completeness auto
termination
  by (relation "measure (\<lambda>(n, xs). length xs)") auto

declare chunks.simps [simp del]

definition fetch_chunk ::
    "('n, 'j, 'd, 't) rpc_ext \<Rightarrow> (('n rpc_state, account) act \<Rightarrow> ('n rpc_state, account) act) \<Rightarrow> nat \<Rightarrow>
     (address \<times> h256 list) list \<Rightarrow> ('n rpc_state, (address, account) hmap) act" where
  "fetch_chunk ext policy block_number chunk =
     andthen (join_all (\<lambda>(address, storage_keys).
         andthen (policy (get_account ext block_number address storage_keys)) (\<lambda>acc. ret (address, acc))) chunk)
       (\<lambda>rs. lift_res (bind_res (map_res of_result rs) (\<lambda>kvs. Inr (hm_collect kvs))))"

text \<open>The cooldown after a chunk: sleep until the chunk has taken \<open>RATE_LIMIT\<close> per account.\<close>

definition cooldown :: "nat \<Rightarrow> nat \<Rightarrow> nat \<Rightarrow> ('n rpc_state, unit) act" where
  "cooldown rps start chunk_len =
     andthen (lift_res (rate_limit rps)) (\<lambda>limit s.
       let target_gap = limit * (chunk_len mod 2 ^ 32); elapsed = rs_clock s - start in
       (Inr (), if elapsed < target_gap then s\<lparr>rs_clock := rs_clock s + (target_gap - elapsed)\<rparr> else s))"

primrec fetch_chunks ::
    "('n, 'j, 'd, 't) rpc_ext \<Rightarrow> (('n rpc_state, account) act \<Rightarrow> ('n rpc_state, account) act) \<Rightarrow> nat \<Rightarrow> nat \<Rightarrow>
     (address, account) hmap \<Rightarrow> (address \<times> h256 list) list list \<Rightarrow> ('n rpc_state, (address, account) hmap) act" where
  "fetch_chunks ext policy rps block_number fetched [] = ret fetched"
| "fetch_chunks ext policy rps block_number fetched (chunk # rest) =
     (\<lambda>s. andthen (fetch_chunk ext policy block_number chunk) (\<lambda>fetched_chunk.
          andthen (cooldown rps (rs_clock s) (length chunk)) (\<lambda>_.
          fetch_chunks ext policy rps block_number (hm_extend fetched fetched_chunk) rest)) s)"

section \<open>Merging\<close>

fun merge_account :: "account \<Rightarrow> account \<Rightarrow> account res" where
  "merge_account (Existing _ storage _ storage_proofs _) (Existing st storage_acc proof storage_proofs_acc code) =
     Inr (Existing st (hm_extend storage_acc storage) proof (hm_extend storage_proofs_acc storage_proofs) code)"
| "merge_account (NonExisting _ storage_proofs) (NonExisting proof storage_proofs_acc) =
     Inr (NonExisting proof (hm_extend storage_proofs_acc storage_proofs))"
| "merge_account _ _ = Inl (Panic ''internal error: entered unreachable code'')"

definition merge_one :: "address \<times> account \<Rightarrow> ((address, account) hmap, unit) act" where
  "merge_one = (\<lambda>(address, acc) cache.
     case map_of cache address of
       Some cached \<Rightarrow>
         (case merge_account acc cached of
            Inr merged \<Rightarrow> (Inr (), AList.update address merged cache)
          | Inl e \<Rightarrow> (Inl e, cache))
     | None \<Rightarrow> (Inr (), AList.update address acc cache))"

definition merge_fetched :: "bool \<Rightarrow> (address, account) hmap \<Rightarrow> ('n rpc_db, unit) act" where
  "merge_fetched from_child fetched =
     (if from_child then zoom db_child_cache (\<lambda>c db. db\<lparr>db_child_cache := c\<rparr>) (for_each merge_one fetched)
      else zoom db_cache (\<lambda>c db. db\<lparr>db_cache := c\<rparr>) (for_each merge_one fetched))"

fun account_bytecode :: "account \<Rightarrow> bytes option" where
  "account_bytecode (Existing _ _ _ _ code) = code"
| "account_bytecode (NonExisting _ _) = None"

definition insert_codes ::
    "('n, 'j, 'd, 't) rpc_ext \<Rightarrow> (address, account) hmap \<Rightarrow> (h256, bytes) hmap \<Rightarrow> (h256, bytes) hmap" where
  "insert_codes ext fetched codes =
     fold (\<lambda>(_, acc) m. case account_bytecode acc of
         Some code \<Rightarrow> AList.update (x_code_hash ext code) code m
       | None \<Rightarrow> m) fetched codes"

definition fetch_accounts ::
    "('n, 'j, 'd, 't) rpc_ext \<Rightarrow> (('n rpc_state, account) act \<Rightarrow> ('n rpc_state, account) act) \<Rightarrow> bool \<Rightarrow> nat \<Rightarrow>
     (address \<times> h256 list) list \<Rightarrow> bool \<Rightarrow> ('n rpc_db, (address, account) hmap) act" where
  "fetch_accounts ext policy chk rps index from_child =
     (\<lambda>db. andthen (lift_res (if from_child then Inr (db_block_number db) else sub_ovf chk (db_block_number db) 1))
       (\<lambda>block_number.
         if rps = 0 then throw (Panic ''chunk size must be non-zero'')
         else andthen (on_rpc (fetch_chunks ext policy rps (unat block_number) [] (chunks rps index))) (\<lambda>fetched.
              andthen (merge_fetched from_child fetched) (\<lambda>_.
              andthen (on_rpc (\<lambda>s. (Inr (), s\<lparr>rs_codes := insert_codes ext fetched (rs_codes s)\<rparr>))) (\<lambda>_.
              ret fetched)))) db)"

section \<open>Caching the accounts of a block\<close>

definition block_accounts :: "transaction list \<Rightarrow> (address, h256 list) hmap" where
  "block_accounts txs =
     (let callers = List.map_filter (\<lambda>tx. case tx_sender tx of Inr a \<Rightarrow> Some a | Inl _ \<Rightarrow> None) txs;
          tos = List.map_filter (\<lambda>tx. case tx_to tx of Call a \<Rightarrow> Some a | Create \<Rightarrow> None) txs;
          accessed_storage = concat (map tx_access_list txs)
      in fold (\<lambda>(address, keys) m.
           AList.update address ((case map_of m address of None \<Rightarrow> [] | Some ks \<Rightarrow> ks) @ keys) m)
         (map (\<lambda>address. (address, [])) (callers @ tos) @ accessed_storage) [])"

definition cache_accounts ::
    "('n, 'j, 'd, 't) rpc_ext \<Rightarrow> (('n rpc_state, account) act \<Rightarrow> ('n rpc_state, account) act) \<Rightarrow> bool \<Rightarrow> nat \<Rightarrow>
     block \<Rightarrow> ('n rpc_db, unit) act" where
  "cache_accounts ext policy chk rps blk =
     andthen (fetch_accounts ext policy chk rps (block_accounts (b_transactions blk)) False) (\<lambda>fetched db.
       (Inr (), db\<lparr>db_cache := fetched\<rparr>))"

definition with_cache ::
    "('n, 'j, 'd, 't) rpc_ext \<Rightarrow> (('n rpc_state, account) act \<Rightarrow> ('n rpc_state, account) act) \<Rightarrow> bool \<Rightarrow> nat \<Rightarrow>
     'n rpc_state \<Rightarrow> chain_config \<Rightarrow> u64 \<Rightarrow> block \<Rightarrow> vm_type \<Rightarrow> unit res \<times> 'n rpc_db" where
  "with_cache ext policy chk rps remote cfg block_number blk vm =
     cache_accounts ext policy chk rps blk (rpc_db_new remote cfg block_number vm)"

section \<open>The database that LEVM reads\<close>

text \<open>\<open>Code::default()\<close> and \<open>Code::from_bytecode\<close> by how they are built.\<close>

datatype code = CodeDefault | FromBytecode bytes

text \<open>\<open>DatabaseError::Custom\<close> is an error with its message.\<close>

definition db_get_account_code :: "('n, 'j, 'd, 't) rpc_ext \<Rightarrow> h256 \<Rightarrow> ('n rpc_db, code) act" where
  "db_get_account_code ext code_hash =
     (\<lambda>db. if code_hash = x_empty_keccak ext then (Inr CodeDefault, db)
           else (bind_res (ok_or (map_of (rs_codes (db_rpc db)) code_hash)
                   ''Code not found on already fetched accounts'') (\<lambda>bytecode. Inr (FromBytecode bytecode)), db))"

text \<open>\<open>code_len\<close> is \<open>code.bytecode.len()\<close>.\<close>

definition db_get_code_metadata ::
    "('n, 'j, 'd, 't) rpc_ext \<Rightarrow> (code \<Rightarrow> u64) \<Rightarrow> h256 \<Rightarrow> ('n rpc_db, u64) act" where
  "db_get_code_metadata ext code_len code_hash =
     andthen (db_get_account_code ext code_hash) (\<lambda>code. ret (code_len code))"

text \<open>Reading the account from the cache, or fetching it and putting it there.\<close>

definition cached_or_fetched ::
    "('n, 'j, 'd, 't) rpc_ext \<Rightarrow> (('n rpc_state, account) act \<Rightarrow> ('n rpc_state, account) act) \<Rightarrow> bool \<Rightarrow> nat \<Rightarrow>
     address \<Rightarrow> ('n rpc_db, account) act" where
  "cached_or_fetched ext policy chk rps address =
     (\<lambda>db. case map_of (db_cache db) address of
         Some acc \<Rightarrow> (Inr acc, db)
       | None \<Rightarrow>
           andthen (map_err (\<lambda>e. ''Failed to fetch account info: '' @ e)
               (fetch_accounts ext policy chk rps [(address, [])] False)) (\<lambda>fetched.
           andthen (lift_res (unwrap (map_of fetched address))) (\<lambda>acc db.
             (Inr acc, db\<lparr>db_cache := AList.update address acc (db_cache db)\<rparr>))) db)"

text \<open>\<open>default_state\<close> is \<open>AccountState::default()\<close>.\<close>

definition db_get_account_state ::
    "('n, 'j, 'd, 't) rpc_ext \<Rightarrow> (('n rpc_state, account) act \<Rightarrow> ('n rpc_state, account) act) \<Rightarrow> bool \<Rightarrow> nat \<Rightarrow>
     account_state \<Rightarrow> address \<Rightarrow> ('n rpc_db, account_state) act" where
  "db_get_account_state ext policy chk rps default_state address =
     andthen (cached_or_fetched ext policy chk rps address) (\<lambda>acc.
       case acc of
         Existing st _ _ _ code \<Rightarrow>
           (case code of
              Some c \<Rightarrow>
                andthen (on_rpc (\<lambda>s. (Inr (), s\<lparr>rs_codes := hm_or_insert (x_code_hash ext c) c (rs_codes s)\<rparr>)))
                  (\<lambda>_. ret st)
            | None \<Rightarrow> ret st)
       | NonExisting _ _ \<Rightarrow> ret default_state)"

fun cached_storage :: "account option \<Rightarrow> h256 \<Rightarrow> u256 option" where
  "cached_storage (Some (Existing _ storage _ _ _)) key = map_of storage key"
| "cached_storage _ key = None"

definition db_get_storage_value ::
    "('n, 'j, 'd, 't) rpc_ext \<Rightarrow> (('n rpc_state, account) act \<Rightarrow> ('n rpc_state, account) act) \<Rightarrow> bool \<Rightarrow> nat \<Rightarrow>
     address \<Rightarrow> h256 \<Rightarrow> ('n rpc_db, u256) act" where
  "db_get_storage_value ext policy chk rps address key =
     (\<lambda>db. case cached_storage (map_of (db_cache db) address) key of
         Some value \<Rightarrow> (Inr value, db)
       | None \<Rightarrow>
           andthen (map_err (\<lambda>e. ''Failed to fetch account info: '' @ e)
               (fetch_accounts ext policy chk rps [(address, [key])] False)) (\<lambda>fetched.
           andthen (lift_res (unwrap (map_of fetched address))) (\<lambda>acc.
             ret (case cached_storage (Some acc) key of Some value \<Rightarrow> value | None \<Rightarrow> 0))) db)"

definition db_get_block_hash ::
    "('n, 'j, 'd, 't) rpc_ext \<Rightarrow> (('n rpc_state, rpc_block) act \<Rightarrow> ('n rpc_state, rpc_block) act) \<Rightarrow>
     u64 \<Rightarrow> ('n rpc_db, h256) act" where
  "db_get_block_hash ext policy_block block_number =
     (\<lambda>db. case map_of (db_block_hashes db) block_number of
         Some hash \<Rightarrow> (Inr hash, db)
       | None \<Rightarrow>
           andthen (on_rpc (policy_block (get_block ext (unat block_number) False))) (\<lambda>blk db.
             (Inr (rb_hash blk),
              db\<lparr>db_block_hashes := AList.update block_number (rb_hash blk) (db_block_hashes db)\<rparr>)) db)"

definition db_get_chain_config :: "('n rpc_db, chain_config) act" where
  "db_get_chain_config = (\<lambda>db. (Inr (db_chain_config db), db))"

end
