(* ===== verification/World.thy ===== *)
theory World
  imports Cache_Store Report Rpc_Db
begin

text \<open>
  What the commands of \<open>src/cli.rs\<close>, \<open>src/fetcher.rs\<close> and \<open>src/run.rs\<close> act on, and what they are given.

  The world of the process is its file system, the outside (\<open>rs_node\<close> of \<open>wd_remote\<close>: nodes, provers, Slack,
  everything that answers), the time, and the trace of its visible events. The record \<open>env\<close> holds the
  build (chain ids, features, overflow checks) and the functions of other crates, whose answers
  may depend on the outside and change it. An error with a context has the whole chain as its message.
\<close>

section \<open>Data\<close>

text \<open>\<open>EthClient\<close> by what is read of it, its URLs; the errors of \<open>EthClientError\<close> that the code tells apart.\<close>

record eth_client =
  ec_urls :: "string list"

datatype client_error = RequestError string | OtherClientError string

datatype block_identifier = BlockNumber u64 | TagLatest | TagOther

record rpc_batch =
  ba_first_block :: u64
  ba_last_block :: u64
  ba_commitments :: "bytes list"
  ba_proofs :: "bytes list"

text \<open>\<open>FeeConfig::default()\<close>, the only value that is used.\<close>

datatype fee_config = FeeConfigDefault

record l2_input =
  li_elasticity_multiplier :: u64
  li_blob_commitment :: bytes
  li_blob_proof :: bytes
  li_fee_configs :: "fee_config list"

text \<open>\<open>ProgramInput\<close>; the fields it has with the feature \<open>l2\<close> only are in \<open>pi_l2\<close>.\<close>

record 'e program_input =
  pi_blocks :: "block list"
  pi_execution_witness :: 'e
  pi_l2 :: "l2_input option"

text \<open>What \<open>catch_unwind\<close> gives back, and the payload of a panic by its dynamic type.\<close>

datatype panic_payload = PanicString string | PanicStr string | PanicOther

datatype 'a caught = Returned 'a | Unwound panic_payload

section \<open>The environment\<close>

text \<open>An answer of the outside, the time it takes (nanoseconds), and the outside afterwards.\<close>

type_synonym ('n, 'a) outside = "'n \<Rightarrow> 'a \<times> nat \<times> 'n"

record ('n, 'b, 'e, 'c) env =
  en_ids :: chain_ids
  en_feats :: features
  en_chk :: bool
  en_show_net :: "network \<Rightarrow> string"
  en_get_genesis :: "network \<Rightarrow> string + genesis"
  en_to_json :: "cache \<Rightarrow> 'c \<times> string option"
  en_from_json :: "'c \<Rightarrow> string + cache"
  en_bench_json :: "bench_entry \<Rightarrow> 'c \<times> string option"
  en_rkyv :: "'e program_input \<Rightarrow> string + 'c"
  en_client_new :: "string \<Rightarrow> string + eth_client"
  en_chain_id :: "eth_client \<Rightarrow> ('n, string + u256) outside"
  en_block_number :: "eth_client \<Rightarrow> ('n, string + u256) outside"
  en_block_by_number :: "eth_client \<Rightarrow> u64 \<Rightarrow> ('n, string + 'b) outside"
  en_to_block :: "'b \<Rightarrow> string + block"
  en_witness :: "eth_client \<Rightarrow> u64 \<Rightarrow> u64 option \<Rightarrow> ('n, client_error + rpc_execution_witness) outside"
  en_batch :: "eth_client \<Rightarrow> u64 \<Rightarrow> ('n, string + rpc_batch) outside"
  en_exec_witness :: "rpc_execution_witness \<Rightarrow> chain_config \<Rightarrow> u64 \<Rightarrow> string + 'e"
  en_execute :: "backend_type \<Rightarrow> 'e program_input \<Rightarrow> ('n, (string + duration) caught) outside"
  en_prove :: "backend_type \<Rightarrow> 'e program_input \<Rightarrow> proof_format \<Rightarrow> ('n, (string + duration) caught) outside"
  en_slack_post :: "string \<Rightarrow> slack_request \<Rightarrow> ('n, string + unit) outside"
  en_sleep :: "nat \<Rightarrow> 'n \<Rightarrow> 'n"
  en_host :: host_info
  en_elasticity_multiplier :: u64
  en_block_size :: nat

section \<open>The world\<close>

datatype event =
    Printed "string list"
  | Logged log_level string
  | Posted string slack_request
  | Executed backend_type "block list"
  | Proved backend_type "block list" proof_format
  | Slept nat

record ('n, 'c) world =
  wd_fs :: "'c fs"
  wd_remote :: "'n rpc_state"
  wd_events :: "event list"

abbreviation wd_read :: "('n, 'c) world \<Rightarrow> path \<Rightarrow> 'c option" where
  "wd_read w \<equiv> fs_read (wd_fs w)"

abbreviation on_disk :: "('c fs, 'a) act \<Rightarrow> (('n, 'c) world, 'a) act" where
  "on_disk m \<equiv> zoom wd_fs (\<lambda>f w. w\<lparr>wd_fs := f\<rparr>) m"

abbreviation on_remote :: "('n rpc_state, 'a) act \<Rightarrow> (('n, 'c) world, 'a) act" where
  "on_remote m \<equiv> zoom wd_remote (\<lambda>r w. w\<lparr>wd_remote := r\<rparr>) m"

definition outside :: "('n, 'a) outside \<Rightarrow> (('n, 'c) world, 'a) act" where
  "outside f = on_remote (\<lambda>s. case f (rs_node s) of (a, latency, n) \<Rightarrow>
     (Inr a, s\<lparr>rs_node := n, rs_clock := rs_clock s + latency\<rparr>))"

text \<open>A request whose failure is handed upwards with \<open>?\<close>.\<close>

definition call :: "('n, string + 'a) outside \<Rightarrow> (('n, 'c) world, 'a) act" where
  "call f = andthen (outside f) (\<lambda>r. lift_res (of_result r))"

definition observe :: "event \<Rightarrow> (('n, 'c) world, unit) act" where
  "observe e = (\<lambda>w. (Inr (), w\<lparr>wd_events := wd_events w @ [e]\<rparr>))"

definition sleep :: "('n, 'b, 'e, 'c) env \<Rightarrow> nat \<Rightarrow> (('n, 'c) world, unit) act" where
  "sleep env secs = andthen (observe (Slept secs)) (\<lambda>_. on_remote (\<lambda>s.
     (Inr (), s\<lparr>rs_node := en_sleep env secs (rs_node s), rs_clock := rs_clock s + secs * 10 ^ 9\<rparr>)))"

text \<open>\<open>U256::as_u64\<close> panics on a value that does not fit.\<close>

definition as_u64 :: "u256 \<Rightarrow> u64 res" where
  "as_u64 x = (if unat x < 2 ^ 64 then Inr (ucast x) else Inl (Panic ''Integer overflow when casting to u64''))"

section \<open>What each of them leaves alone\<close>

named_theorems world_simps \<open>the parts of the world an action does not touch\<close>

lemma on_disk_frame [world_simps]:
  "on_disk m w = (r, w') \<Longrightarrow> wd_remote w' = wd_remote w \<and> wd_events w' = wd_events w \<and> m (wd_fs w) = (r, wd_fs w')"
  by (auto simp: zoom_def split: prod.splits)

lemma on_remote_frame [world_simps]:
  "on_remote m w = (r, w') \<Longrightarrow> wd_fs w' = wd_fs w \<and> wd_events w' = wd_events w \<and> m (wd_remote w) = (r, wd_remote w')"
  by (auto simp: zoom_def split: prod.splits)

lemma outside_frame [world_simps]:
  "outside f w = (r, w') \<Longrightarrow> wd_fs w' = wd_fs w \<and> wd_events w' = wd_events w"
  unfolding outside_def by (auto dest: on_remote_frame)

lemma call_frame [world_simps]:
  "call f w = (r, w') \<Longrightarrow> wd_fs w' = wd_fs w \<and> wd_events w' = wd_events w"
  by (cases "outside f w"; cases "fst (outside f w)") (auto simp: call_def andthen_def dest: outside_frame)

lemma observe_simps [simp, world_simps]:
  "observe e w = (Inr (), w\<lparr>wd_events := wd_events w @ [e]\<rparr>)"
  by (simp add: observe_def)

lemma sleep_frame [world_simps]: "sleep env n w = (r, w') \<Longrightarrow> wd_fs w' = wd_fs w \<and> r = Inr ()"
  by (auto simp: sleep_def andthen_def zoom_def)

text \<open>The messages sent to Slack so far.\<close>

fun is_post :: "event \<Rightarrow> bool" where
  "is_post (Posted _ _) = True"
| "is_post _ = False"

definition posts :: "('n, 'c) world \<Rightarrow> event list" where
  "posts w = filter is_post (wd_events w)"

text \<open>Actions after which every file, or every message, is as before, whatever they return.\<close>

lemma keeps_wd_fs [keeps_intros]:
  "keeps wd_fs (outside g)" "keeps wd_fs (observe ev)" "keeps wd_fs (sleep env n)" "keeps wd_fs (on_remote m)"
  by (auto simp: keeps_def outside_def zoom_def sleep_def andthen_def split: prod.split)

lemma keeps_posts [keeps_intros]:
  "keeps posts (outside g)" "keeps posts (sleep env n)" "keeps posts (observe (Printed ls))" "keeps posts (observe (Logged l s))"
  "keeps posts (observe (Executed be bs))" "keeps posts (observe (Proved be bs f))"
  "keeps posts (on_remote m)" "keeps posts (on_disk d)"
  by (auto simp: keeps_def posts_def outside_def zoom_def sleep_def andthen_def split: prod.split)

lemma keeps_client_error [keeps_intros]:
  "(\<And>e. keeps f (g e)) \<Longrightarrow> (\<And>e. keeps f (h e)) \<Longrightarrow> keeps f (case r of RequestError e \<Rightarrow> g e | OtherClientError e \<Rightarrow> h e)"
  by (simp split: client_error.split)

lemma keeps_call [keeps_intros]: "keeps wd_fs (call g)" "keeps posts (call g)"
  unfolding call_def by (intro keeps_intros)+

lemma keeps_on_disk [keeps_intros]: "(\<And>f. snd (m f) = f) \<Longrightarrow> keeps wd_fs (on_disk m)"
  by (simp add: keeps_def zoom_def split: prod.split) (metis snd_conv)

lemma as_u64_ucast [simp]: "as_u64 (ucast (n :: u64)) = Inr n"
proof -
  have "unat (ucast n :: u256) = unat n" by (simp add: unsigned_ucast_eq take_bit_nat_eq_self_iff order_less_trans [OF unsigned_less])
  moreover have "ucast (ucast n :: u256) = n" by (intro bit_word_eqI) (auto simp: bit_simps)
  ultimately show ?thesis using unsigned_less [of n] by (simp add: as_u64_def)
qed

end
