(* ===== verification/Runner.thy ===== *)
theory Runner
  imports World
begin

text \<open>
  \<open>src/run.rs\<close>: from a cache to the input of the guest program, executing and proving it with a backend
  whose panics are caught, and running the transactions of a block up to a given one.
\<close>

section \<open>The program input\<close>

text \<open>The error of a library function, with a context in front.\<close>

definition in_context :: "string \<Rightarrow> string + 'a \<Rightarrow> 'a res" where
  "in_context ctx r = (case r of Inl e \<Rightarrow> Inl (Error (ctx @ '': '' @ e)) | Inr x \<Rightarrow> Inr x)"

definition genesis_config :: "('n, 'b, 'e, 'c) env \<Rightarrow> network \<Rightarrow> chain_config res" where
  "genesis_config env net =
     (case en_get_genesis env net of
        Inl _ \<Rightarrow> Inl (Error ''Failed to get genesis block'')
      | Inr g \<Rightarrow> Inr (gen_config g))"

definition get_l1_input :: "('n, 'b, 'e, 'c) env \<Rightarrow> cache \<Rightarrow> 'e program_input res" where
  "get_l1_input env c =
     bind_res (get_first_block_number c) (\<lambda>first_block_number.
     if c_l2_fields c \<noteq> None then Inl (Error ''Unexpected L2 fields in cache'')
     else if c_chain_config c \<noteq> None then Inl (Error ''Unexpected chain config in cache'')
     else bind_res (genesis_config env (c_network c)) (\<lambda>cfg.
       bind_res (of_result (en_exec_witness env (c_witness c) cfg first_block_number)) (\<lambda>ew.
         Inr \<lparr>pi_blocks = c_blocks c, pi_execution_witness = ew, pi_l2 = None\<rparr>)))"

definition get_l2_input :: "('n, 'b, 'e, 'c) env \<Rightarrow> cache \<Rightarrow> 'e program_input res" where
  "get_l2_input env c =
     bind_res (get_first_block_number c) (\<lambda>first_block_number.
     bind_res (ok_or (c_l2_fields c) ''Missing L2 fields in cache'') (\<lambda>fields.
     bind_res (ok_or (c_chain_config c) ''Missing chain config in cache'') (\<lambda>cfg.
     bind_res (in_context ''Failed to convert execution witness''
         (en_exec_witness env (c_witness c) cfg first_block_number)) (\<lambda>ew.
       Inr \<lparr>pi_blocks = c_blocks c, pi_execution_witness = ew,
            pi_l2 = Some \<lparr>li_elasticity_multiplier = en_elasticity_multiplier env,
              li_blob_commitment = blob_commitment fields, li_blob_proof = blob_proof fields,
              li_fee_configs = replicate (length (c_blocks c)) FeeConfigDefault\<rparr>\<rparr>))))"

text \<open>Which of the two a build has.\<close>

definition get_input :: "('n, 'b, 'e, 'c) env \<Rightarrow> cache \<Rightarrow> 'e program_input res" where
  "get_input env c = (if feat_l2 (en_feats env) then get_l2_input env c else get_l1_input env c)"

section \<open>Executing and proving\<close>

fun extract_panic_message :: "panic_payload \<Rightarrow> string" where
  "extract_panic_message (PanicString s) = s"
| "extract_panic_message (PanicStr s) = s"
| "extract_panic_message PanicOther = ''Unknown panic occurred''"

text \<open>The match on what was caught, in \<open>exec\<close> (verb \<open>Execution\<close>) and \<open>prove\<close> (\<open>Proving\<close>).\<close>

definition caught_result :: "string \<Rightarrow> (string + duration) caught \<Rightarrow> duration res" where
  "caught_result what r =
     (case r of
        Returned (Inr elapsed) \<Rightarrow> Inr elapsed
      | Returned (Inl e) \<Rightarrow> Inl (Error (what @ '' failed: '' @ e))
      | Unwound p \<Rightarrow> Inl (Error (what @ '' panicked: '' @ extract_panic_message p)))"

definition exec :: "('n, 'b, 'e, 'c) env \<Rightarrow> backend_type \<Rightarrow> cache \<Rightarrow> (('n, 'c) world, duration) act" where
  "exec env be c =
     andthen (lift_res (get_input env c)) (\<lambda>inp.
     andthen (observe (Executed be (pi_blocks inp))) (\<lambda>_.
     andthen (outside (en_execute env be inp)) (\<lambda>r.
       lift_res (caught_result ''Execution'' r))))"

definition prove ::
    "('n, 'b, 'e, 'c) env \<Rightarrow> backend_type \<Rightarrow> proof_type \<Rightarrow> cache \<Rightarrow> (('n, 'c) world, duration) act" where
  "prove env be pt c =
     andthen (lift_res (get_input env c)) (\<lambda>inp.
     andthen (observe (Proved be (pi_blocks inp) (proof_format_from pt))) (\<lambda>_.
     andthen (outside (en_prove env be inp (proof_format_from pt))) (\<lambda>r.
       lift_res (caught_result ''Proving'' r))))"

section \<open>One transaction\<close>

text \<open>
  \<open>LEVM\<close> and the guest program state \<open>'g\<close>: the state of a witness, the changes of \<open>prepare_block\<close>, one transaction
  (its receipt, the gas left in the block, the cumulative gas, its changes) and applying changes.
\<close>

record ('e, 'g, 'u, 'rc) vm_ext =
  vx_guest :: "'e \<Rightarrow> string + 'g"
  vx_prepare :: "'g \<Rightarrow> block \<Rightarrow> vm_type \<Rightarrow> string + 'u"
  vx_apply :: "'g \<Rightarrow> 'u \<Rightarrow> string + 'g"
  vx_txs_with_sender :: "block \<Rightarrow> string + (transaction \<times> address) list"
  vx_execute_tx ::
    "'g \<Rightarrow> vm_type \<Rightarrow> transaction \<Rightarrow> block_header \<Rightarrow> u64 \<Rightarrow> u64 \<Rightarrow> address \<Rightarrow> string + ('rc \<times> u64 \<times> u64 \<times> 'u)"

definition vm_of_build :: "features \<Rightarrow> vm_type" where
  "vm_of_build feats = (if feat_l2 feats then VM_L2 else VM_L1)"

primrec run_txs ::
    "('e, 'g, 'u, 'rc) vm_ext \<Rightarrow> vm_type \<Rightarrow> block_header \<Rightarrow> h256 \<Rightarrow> (transaction \<times> address) list \<Rightarrow> 'g \<Rightarrow> u64 \<Rightarrow>
     ('rc \<times> 'u) res" where
  "run_txs vx vm header hash [] g gas = Inl (Error ''transaction not found inside block'')"
| "run_txs vx vm header hash (ts # rest) g gas =
     bind_res (of_result (vx_execute_tx vx g vm (fst ts) header gas 0 (snd ts))) (\<lambda>(receipt, gas', _, updates).
     bind_res (of_result (vx_apply vx g updates)) (\<lambda>g'.
       if tx_hash (fst ts) = hash then Inr (receipt, updates)
       else run_txs vx vm header hash rest g' gas'))"

definition run_tx ::
    "('n, 'b, 'e, 'c) env \<Rightarrow> ('e, 'g, 'u, 'rc) vm_ext \<Rightarrow> cache \<Rightarrow> h256 \<Rightarrow> ('rc \<times> 'u) res" where
  "run_tx env vx c hash =
     (case c_blocks c of
        [] \<Rightarrow> Inl (Error ''missing block data'')
      | blk # _ \<Rightarrow>
          (let vm = vm_of_build (en_feats env) in
           bind_res (genesis_config env (c_network c)) (\<lambda>cfg.
           bind_res (in_context ''Failed to convert execution witness''
               (en_exec_witness env (c_witness c) cfg (blk_number blk))) (\<lambda>ew.
           bind_res (of_result (vx_guest vx ew)) (\<lambda>g.
           bind_res (of_result (vx_prepare vx g blk vm)) (\<lambda>changes.
           bind_res (of_result (vx_apply vx g changes)) (\<lambda>g'.
           bind_res (of_result (vx_txs_with_sender vx blk)) (\<lambda>txs.
             run_txs vx vm (b_header blk) hash txs g' (bh_gas_limit (b_header blk))))))))))"

section \<open>Lemmas\<close>

lemma in_context_simps [simp]:
  "in_context ctx (Inl e) = Inl (Error (ctx @ '': '' @ e))" "in_context ctx (Inr x) = Inr x"
  by (simp_all add: in_context_def)

lemma in_context_Inr_iff [res_simps]: "in_context ctx r = Inr x \<longleftrightarrow> r = Inr x"
  by (cases r) simp_all

lemma in_context_no_panic [simp]: "\<not> is_panic (in_context ctx r)"
  by (cases r) simp_all

lemma genesis_config_Inr_iff [res_simps]:
  "genesis_config env net = Inr cfg \<longleftrightarrow> (\<exists>g. en_get_genesis env net = Inr g \<and> cfg = gen_config g)"
  by (auto simp: genesis_config_def split: sum.split)

lemma genesis_config_no_panic [simp]: "\<not> is_panic (genesis_config env net)"
  by (simp add: genesis_config_def split: sum.split)

lemma first_block_Inr_iff [res_simps]:
  "get_first_block_number c = Inr n \<longleftrightarrow> c_blocks c \<noteq> [] \<and> n = fold min (map blk_number (tl (c_blocks c))) (blk_number (hd (c_blocks c)))"
  by (cases "c_blocks c") (auto simp: get_first_block_number_def)

lemma get_input_no_panic [simp]: "\<not> is_panic (get_input env c)"
  by (simp add: get_input_def get_l1_input_def get_l2_input_def get_first_block_number_def no_panic_bind)

lemma caught_result_no_panic [simp]: "\<not> is_panic (caught_result what r)"
  by (simp add: caught_result_def split: caught.split sum.split)

lemma get_input_not_Panic [simp]: "get_input env c \<noteq> Inl (Panic p)"
  by (metis get_input_no_panic is_panic.simps(1))

lemma caught_execution:
  "caught_result ''Execution'' r =
     (case r of
        Returned (Inr d) \<Rightarrow> Inr d
      | Returned (Inl e) \<Rightarrow> Inl (Error (''Execution failed: '' @ e))
      | Unwound p \<Rightarrow> Inl (Error (''Execution panicked: '' @ extract_panic_message p)))"
  by (simp add: caught_result_def split: caught.split sum.split)

text \<open>What running the backend does to the world: nothing to the files, one event unless there is no input.\<close>

lemma exec_unfold:
  "exec env be c w =
     (case get_input env c of
        Inl e \<Rightarrow> (Inl e, w)
      | Inr inp \<Rightarrow>
          (case en_execute env be inp (rs_node (wd_remote w)) of
             (r, latency, n) \<Rightarrow>
               (caught_result ''Execution'' r,
                w\<lparr>wd_events := wd_events w @ [Executed be (pi_blocks inp)],
                  wd_remote := (wd_remote w)\<lparr>rs_node := n, rs_clock := rs_clock (wd_remote w) + latency\<rparr>\<rparr>)))"
  by (simp add: exec_def andthen_def outside_def zoom_def split: sum.split prod.split)

lemma prove_unfold:
  "prove env be pt c w =
     (case get_input env c of
        Inl e \<Rightarrow> (Inl e, w)
      | Inr inp \<Rightarrow>
          (case en_prove env be inp (proof_format_from pt) (rs_node (wd_remote w)) of
             (r, latency, n) \<Rightarrow>
               (caught_result ''Proving'' r,
                w\<lparr>wd_events := wd_events w @ [Proved be (pi_blocks inp) (proof_format_from pt)],
                  wd_remote := (wd_remote w)\<lparr>rs_node := n, rs_clock := rs_clock (wd_remote w) + latency\<rparr>\<rparr>)))"
  by (simp add: prove_def andthen_def outside_def zoom_def split: sum.split prod.split)

lemma exec_frame [world_simps]: "exec env be c w = (r, w') \<Longrightarrow> wd_fs w' = wd_fs w \<and> \<not> is_panic r"
  by (auto simp: exec_unfold split: sum.splits prod.splits)

lemma prove_frame [world_simps]: "prove env be pt c w = (r, w') \<Longrightarrow> wd_fs w' = wd_fs w \<and> \<not> is_panic r"
  by (auto simp: prove_unfold split: sum.splits prod.splits)

lemma get_input_blocks: "get_input env c = Inr inp \<Longrightarrow> pi_blocks inp = c_blocks c"
  by (auto simp: get_input_def get_l1_input_def get_l2_input_def res_simps split: if_splits)

section \<open>Properties\<close>

text \<open>
  The type of a cache: the optional fields a build needs are there, and those it does not know are not.
\<close>

definition cache_shape :: "features \<Rightarrow> cache \<Rightarrow> bool" where
  "cache_shape feats c \<longleftrightarrow>
     c_blocks c \<noteq> [] \<and> (c_chain_config c \<noteq> None) = feat_l2 feats \<and> (c_l2_fields c \<noteq> None) = feat_l2 feats"

lemma cache_new_shape: "bs \<noteq> [] \<Longrightarrow> cache_shape feats (cache_new ids feats bs w cfg dir)"
  by (simp add: cache_shape_def cache_new_def)

text \<open>The chain configuration for the input: that of the cache in an L2 build, else that of its network.\<close>

definition input_config :: "('n, 'b, 'e, 'c) env \<Rightarrow> cache \<Rightarrow> chain_config option" where
  "input_config env c =
     (if feat_l2 (en_feats env) then c_chain_config c
      else case en_get_genesis env (c_network c) of Inl _ \<Rightarrow> None | Inr g \<Rightarrow> Some (gen_config g))"

text \<open>
  C19. A cache can be turned into the input of the guest program exactly when it is well typed for the
  build, there is a chain configuration and the witness converts for the lowest block number;
  the input then has the blocks of the cache, that witness, and in an L2 build (and only there) the blob
  data of the cache with one fee configuration per block.
\<close>

theorem input_iff_well_typed:
  "get_input env c = Inr inp \<longleftrightarrow>
     cache_shape (en_feats env) c \<and> pi_blocks inp = c_blocks c \<and>
     (\<exists>cfg. input_config env c = Some cfg \<and>
        en_exec_witness env (c_witness c) cfg (Min (blk_number ` set (c_blocks c))) = Inr (pi_execution_witness inp)) \<and>
     pi_l2 inp = (if feat_l2 (en_feats env) then
         map_option (\<lambda>f. \<lparr>li_elasticity_multiplier = en_elasticity_multiplier env, li_blob_commitment = blob_commitment f,
           li_blob_proof = blob_proof f, li_fee_configs = replicate (length (c_blocks c)) FeeConfigDefault\<rparr>) (c_l2_fields c)
       else None)"
proof -
  have first: "fold min (map blk_number (tl bs)) (blk_number (hd bs)) = Min (blk_number ` set bs)"
    if "bs \<noteq> []" for bs :: "block list"
  proof -
    have "Min (set (map blk_number bs)) = fold min (tl (map blk_number bs)) (hd (map blk_number bs))"
      using that by (cases bs) (simp_all add: Min.set_eq_fold [symmetric] del: Min_insert)
    then show ?thesis using that by (cases bs) simp_all
  qed
  have eq: "inp = \<lparr>pi_blocks = bs, pi_execution_witness = ew, pi_l2 = l\<rparr> \<longleftrightarrow>
      pi_blocks inp = bs \<and> pi_execution_witness inp = ew \<and> pi_l2 inp = l" for bs ew l
    by (cases inp) auto
  show ?thesis
  proof (cases "feat_l2 (en_feats env)")
    case True
    then show ?thesis
      by (auto simp: get_input_def get_l2_input_def res_simps cache_shape_def input_config_def first eq eq_commute [of _ inp])
  next
    case False
    then show ?thesis
      by (auto simp: get_input_def get_l1_input_def res_simps cache_shape_def input_config_def first eq eq_commute [of _ inp]
          split: sum.splits)
  qed
qed

text \<open>
  A panic of a backend never leaves \<open>exec\<close> or \<open>prove\<close>: it is an error with the message of the panic, where the
  payload has one. A backend runs on the input of the given cache, once, and no file changes.
\<close>

theorem backend_panics_are_errors:
  "\<not> is_panic (fst (exec env be c w)) \<and> \<not> is_panic (fst (prove env be pt c w)) \<and>
   fst (exec env be c w) = bind_res (get_input env c) (\<lambda>inp.
     case fst (en_execute env be inp (rs_node (wd_remote w))) of
       Returned (Inr d) \<Rightarrow> Inr d
     | Returned (Inl e) \<Rightarrow> Inl (Error (''Execution failed: '' @ e))
     | Unwound p \<Rightarrow> Inl (Error (''Execution panicked: '' @ extract_panic_message p))) \<and>
   length (wd_events (snd (exec env be c w))) \<le> Suc (length (wd_events w)) \<and>
   wd_fs (snd (exec env be c w)) = wd_fs w \<and> wd_fs (snd (prove env be pt c w)) = wd_fs w"
proof -
  obtain r w1 where e: "exec env be c w = (r, w1)" by fastforce
  obtain r' w2 where p: "prove env be pt c w = (r', w2)" by fastforce
  have "fst (exec env be c w) = bind_res (get_input env c) (\<lambda>inp.
      caught_result ''Execution'' (fst (en_execute env be inp (rs_node (wd_remote w)))))"
    by (simp add: exec_unfold bind_res_def split: sum.split prod.split)
  moreover have "length (wd_events (snd (exec env be c w))) \<le> Suc (length (wd_events w))"
    by (simp add: exec_unfold split: sum.split prod.split)
  ultimately show ?thesis
    using exec_frame [OF e] prove_frame [OF p] by (simp add: e p caught_execution)
qed

text \<open>
  The reference for \<open>run_tx\<close>: bring the state to where all transactions before the wanted one have been
  applied, then run that one.
\<close>

primrec apply_txs ::
    "('e, 'g, 'u, 'rc) vm_ext \<Rightarrow> vm_type \<Rightarrow> block_header \<Rightarrow> (transaction \<times> address) list \<Rightarrow> 'g \<times> u64 \<Rightarrow> ('g \<times> u64) res" where
  "apply_txs vx vm header [] s = Inr s"
| "apply_txs vx vm header (ts # rest) s =
     bind_res (of_result (vx_execute_tx vx (fst s) vm (fst ts) header (snd s) 0 (snd ts))) (\<lambda>(_, gas', _, updates).
     bind_res (of_result (vx_apply vx (fst s) updates)) (\<lambda>g'. apply_txs vx vm header rest (g', gas')))"

text \<open>
  C20. \<open>run_tx\<close> is its reference: the result is that of the first transaction with the wanted hash, on the
  state and with the gas that the transactions before it leave; what comes after it in the block
  does not matter, and without such a transaction the result is an error.
\<close>

theorem run_txs_reference:
  "run_txs vx vm header hash txs g gas =
     bind_res (apply_txs vx vm header (takeWhile (\<lambda>ts. tx_hash (fst ts) \<noteq> hash) txs) (g, gas)) (\<lambda>(g', gas').
       case dropWhile (\<lambda>ts. tx_hash (fst ts) \<noteq> hash) txs of
         [] \<Rightarrow> Inl (Error ''transaction not found inside block'')
       | ts # _ \<Rightarrow>
           bind_res (of_result (vx_execute_tx vx g' vm (fst ts) header gas' 0 (snd ts))) (\<lambda>(receipt, _, _, updates).
           bind_res (of_result (vx_apply vx g' updates)) (\<lambda>_. Inr (receipt, updates))))"
  by (induction txs arbitrary: g gas) (auto simp: bind_res_assoc case_prod_beta intro!: arg_cong [where f = "bind_res _"])

end
