(* ===== verification/Rpc_Truth.thy ===== *)
theory Rpc_Truth
  imports Rpc_Db
begin

text \<open>
  What the database of \<open>src/rpc/db.rs\<close> promises: whatever mixture of account, storage and code
  reads is made, in whatever order, the answers are those of the chain, as long as the node
  answers honestly. The node may fail at any time and may answer in any encoding.
\<close>

section \<open>The chain, and a node that answers about it\<close>

record chain_account =
  ca_state :: account_state
  ca_storage :: "h256 \<Rightarrow> u256"

type_synonym chain = "address \<Rightarrow> chain_account option"

text \<open>
  What a run of the database is about: the chain before and after the block, the hashes of the
  blocks, the block's number and the configuration.
\<close>

record chain_view =
  v_pre :: chain
  v_post :: chain
  v_hash :: "u64 \<Rightarrow> h256"
  v_number :: u64
  v_config :: chain_config

definition v_at :: "chain_view \<Rightarrow> bool \<Rightarrow> chain" where
  "v_at v from_child = (if from_child then v_post v else v_pre v)"

text \<open>
  An answer to \<open>eth_getProof\<close> is right about an account when its proof decides whether the account
  is in the state trie, and it states the account's fields and the value of each storage key asked for.
\<close>

definition proof_answers ::
    "('n, 'j, 'd, 't) rpc_ext \<Rightarrow> address \<Rightarrow> chain_account option \<Rightarrow> h256 list \<Rightarrow> account_proof_json \<Rightarrow> bool" where
  "proof_answers ext address truth keys ap \<longleftrightarrow>
     (\<forall>nodes found. map_res (decode_hex ext) (ap_account_proof ap) = Inr nodes \<longrightarrow>
        account_in_trie ext address nodes = Inr found \<longrightarrow> found = (truth \<noteq> None)) \<and>
     (\<forall>ca. truth = Some ca \<longrightarrow>
        (\<forall>st. parse_account_state ext ap = Inr st \<longrightarrow> st = ca_state ca) \<and>
        (\<forall>pairs. map_res (parse_storage_proof ext) (ap_storage_proof ap) = Inr pairs \<longrightarrow>
           map (fst \<circ> fst) pairs = keys \<and> (\<forall>p \<in> set pairs. snd (fst p) = ca_storage ca (fst (fst p)))))"

text \<open>The documented behaviour of the two methods, at the block the requests name.\<close>

definition honest_node :: "('n, 'j, 'd, 't) rpc_ext \<Rightarrow> nat \<Rightarrow> chain \<Rightarrow> bool" where
  "honest_node ext block_number truth \<longleftrightarrow>
     (\<forall>address keys n j ap.
        fst (x_post ext (EthGetProof (''0x'' @ x_addr_hex ext address)
          (map (\<lambda>key. ''0x'' @ x_h256_hex ext key) keys) (hex_quantity block_number)) n) = Inr j \<longrightarrow>
        get_result ext (x_json_proof ext) j = Inr ap \<longrightarrow>
        proof_answers ext address (truth address) keys ap) \<and>
     (\<forall>address ca n j text c.
        truth address = Some ca \<longrightarrow>
        fst (x_post ext (EthGetCode (''0x'' @ x_addr_hex ext address) (hex_quantity block_number)) n) = Inr j \<longrightarrow>
        get_result ext (x_json_string ext) j = Inr text \<longrightarrow> decode_hex ext text = Inr c \<longrightarrow>
        x_code_hash ext c = as_code_hash (ca_state ca))"

section \<open>Accounts that agree with the chain\<close>

fun consistent :: "('n, 'j, 'd, 't) rpc_ext \<Rightarrow> chain_account option \<Rightarrow> account \<Rightarrow> bool" where
  "consistent ext truth (Existing st storage _ _ code) \<longleftrightarrow>
     hm_wf storage \<and> (\<exists>ca. truth = Some ca \<and> st = ca_state ca \<and>
        (\<forall>k v. map_of storage k = Some v \<longrightarrow> v = ca_storage ca k) \<and>
        (case code of None \<Rightarrow> as_code_hash st = x_empty_keccak ext | Some c \<Rightarrow> x_code_hash ext c = as_code_hash st))"
| "consistent ext truth (NonExisting _ _) \<longleftrightarrow> truth = None"

text \<open>Every key that was asked for is there, if the account exists.\<close>

fun covers :: "h256 list \<Rightarrow> account \<Rightarrow> bool" where
  "covers keys (Existing _ storage _ _ _) \<longleftrightarrow> set keys \<subseteq> dom (map_of storage)"
| "covers keys (NonExisting _ _) \<longleftrightarrow> True"

text \<open>The cache of codes is content-addressed.\<close>

definition codes_ok :: "('n, 'j, 'd, 't) rpc_ext \<Rightarrow> (h256, bytes) hmap \<Rightarrow> bool" where
  "codes_ok ext codes \<longleftrightarrow> (\<forall>h c. map_of codes h = Some c \<longrightarrow> x_code_hash ext c = h)"

definition cache_ok :: "('n, 'j, 'd, 't) rpc_ext \<Rightarrow> chain \<Rightarrow> (address, account) hmap \<Rightarrow> bool" where
  "cache_ok ext truth m \<longleftrightarrow> (\<forall>a acc. map_of m a = Some acc \<longrightarrow> consistent ext (truth a) acc)"

text \<open>
  The invariant of the database. The last two parts say that no operation changes the block number
  or the configuration.
\<close>

definition db_inv :: "('n, 'j, 'd, 't) rpc_ext \<Rightarrow> chain_view \<Rightarrow> 'n rpc_db \<Rightarrow> bool" where
  "db_inv ext v db \<longleftrightarrow>
     codes_ok ext (rs_codes (db_rpc db)) \<and> cache_ok ext (v_pre v) (db_cache db) \<and>
     cache_ok ext (v_post v) (db_child_cache db) \<and>
     (\<forall>n h. map_of (db_block_hashes db) n = Some h \<longrightarrow> h = v_hash v n) \<and>
     db_block_number db = v_number v \<and> db_chain_config db = v_config v"

lemma codes_ok_Nil [simp]: "codes_ok ext []"
  by (simp add: codes_ok_def)

lemma cache_ok_Nil [simp]: "cache_ok ext truth []"
  by (simp add: cache_ok_def)

lemma codes_ok_update: "codes_ok ext m \<Longrightarrow> x_code_hash ext c = h \<Longrightarrow> codes_ok ext (AList.update h c m)"
  by (simp add: codes_ok_def update_conv')

lemma codes_ok_or_insert: "codes_ok ext m \<Longrightarrow> x_code_hash ext c = h \<Longrightarrow> codes_ok ext (hm_or_insert h c m)"
  by (simp add: hm_or_insert_def codes_ok_update split: option.split)

lemma cache_ok_update:
  "cache_ok ext truth m \<Longrightarrow> consistent ext (truth a) acc \<Longrightarrow> cache_ok ext truth (AList.update a acc m)"
  by (simp add: cache_ok_def update_conv')

lemma cache_ok_extend: "cache_ok ext truth m \<Longrightarrow> cache_ok ext truth m' \<Longrightarrow> hm_wf m' \<Longrightarrow> cache_ok ext truth (hm_extend m m')"
  by (auto simp: cache_ok_def hm_get_extend_Some)

lemma insert_codes_simps [simp]:
  "insert_codes ext [] codes = codes"
  "insert_codes ext ((a, acc) # fetched) codes = insert_codes ext fetched
     (case account_bytecode acc of Some code \<Rightarrow> AList.update (x_code_hash ext code) code codes | None \<Rightarrow> codes)"
  by (simp_all add: insert_codes_def split: option.split)

lemma codes_ok_insert_codes: "codes_ok ext codes \<Longrightarrow> codes_ok ext (insert_codes ext fetched codes)"
  by (induction fetched arbitrary: codes) (auto simp: codes_ok_update split: option.split)

text \<open>After \<open>insert_codes\<close> every fetched code can be looked up by its hash.\<close>

lemma insert_codes_keeps: "h \<in> dom (map_of codes) \<Longrightarrow> h \<in> dom (map_of (insert_codes ext fetched codes))"
proof (induction fetched arbitrary: codes)
  case Nil
  then show ?case by simp
next
  case (Cons x fetched)
  obtain a acc where x: "x = (a, acc)" by (cases x)
  show ?case using Cons.prems by (auto simp: x update_conv' intro!: Cons.IH split: option.split)
qed

lemma insert_codes_has:
  "(a, acc) \<in> set fetched \<Longrightarrow> account_bytecode acc = Some c \<Longrightarrow>
     x_code_hash ext c \<in> dom (map_of (insert_codes ext fetched codes))"
proof (induction fetched arbitrary: codes)
  case Nil
  then show ?case by simp
next
  case (Cons x fetched)
  obtain b acc' where x: "x = (b, acc')" by (cases x)
  show ?case
  proof (cases "(a, acc) \<in> set fetched")
    case True
    then show ?thesis using Cons.IH Cons.prems(2) by (simp add: x)
  next
    case False
    then have "acc' = acc" using Cons.prems(1) x by simp
    then show ?thesis using Cons.prems(2)
      by (simp only: x insert_codes_simps option.case) (rule insert_codes_keeps, simp add: update_conv')
  qed
qed

section \<open>One account\<close>

text \<open>The world in which an account is fetched: the cache of codes is content-addressed.\<close>

abbreviation rpc_inv :: "('n, 'j, 'd, 't) rpc_ext \<Rightarrow> 'n rpc_state \<Rightarrow> bool" where
  "rpc_inv ext s \<equiv> codes_ok ext (rs_codes s)"

text \<open>The answer that \<open>send\<close> returns is one the node gave in some state.\<close>

lemma send_triple:
  "triple (rpc_inv ext) (send ext req)
     (\<lambda>j t. rpc_inv ext t \<and> (\<exists>n. fst (x_post ext req n) = Inr j)) (errs (rpc_inv ext))"
proof (rule tripleI)
  fix s e t
  assume "rpc_inv ext s" "send ext req s = (Inl e, t)"
  then show "errs (rpc_inv ext) e t"
    by (cases "fst (x_post ext req (rs_node s))") (auto simp: send_def split: prod.splits)
next
  fix s j t
  assume "rpc_inv ext s" "send ext req s = (Inr j, t)"
  then show "rpc_inv ext t \<and> (\<exists>n. fst (x_post ext req n) = Inr j)"
    by (auto simp: send_def res_simps split: prod.splits intro: exI [of _ "rs_node s"])
qed

lemma get_code_triple:
  assumes "honest_node ext bn truth" "truth a = Some ca"
  shows "triple (rpc_inv ext) (get_code ext bn a)
    (\<lambda>c t. rpc_inv ext t \<and> x_code_hash ext c = as_code_hash (ca_state ca)) (errs (rpc_inv ext))"
  unfolding get_code_def
proof (rule triple_andthen_fact [OF send_triple])
  fix j
  assume post: "\<exists>n. fst (x_post ext (EthGetCode (''0x'' @ x_addr_hex ext a) (hex_quantity bn)) n) = Inr j"
  show "triple (rpc_inv ext)
      (andthen (lift_res (get_result ext (x_json_string ext) j)) (\<lambda>text. lift_res (decode_hex ext text)))
      (\<lambda>c t. rpc_inv ext t \<and> x_code_hash ext c = as_code_hash (ca_state ca)) (errs (rpc_inv ext))"
  proof (intro triple_lift_then triple_lift_errs)
    fix answer c
    assume "get_result ext (x_json_string ext) j = Inr answer" "decode_hex ext answer = Inr c"
    then show "x_code_hash ext c = as_code_hash (ca_state ca)"
      using post assms unfolding honest_node_def by blast
  qed simp_all
qed

lemma account_code_triple:
  assumes "honest_node ext bn truth" "truth a = Some ca"
  shows "triple (rpc_inv ext) (account_code ext bn a (ca_state ca))
    (\<lambda>code t. rpc_inv ext t \<and> (case code of None \<Rightarrow> as_code_hash (ca_state ca) = x_empty_keccak ext
                                     | Some c \<Rightarrow> x_code_hash ext c = as_code_hash (ca_state ca)))
    (errs (rpc_inv ext))" (is "triple _ _ ?Q _")
proof -
  let ?h = "as_code_hash (ca_state ca)"
  let ?fetch = "andthen (get_code ext bn a) (\<lambda>c s. (Inr (Some c), s\<lparr>rs_codes := AList.update ?h c (rs_codes s)\<rparr>))"
  have fetch: "triple (rpc_inv ext) ?fetch ?Q (errs (rpc_inv ext))"
    by (rule triple_andthen [OF get_code_triple [OF assms]], rule tripleI) (auto simp: codes_ok_update)
  show ?thesis
    unfolding triple_def
  proof (intro allI impI)
    fix s :: "'a rpc_state"
    assume inv: "rpc_inv ext s"
    show "case account_code ext bn a (ca_state ca) s of (Inl e, t) \<Rightarrow> errs (rpc_inv ext) e t | (Inr x, t) \<Rightarrow> ?Q x t"
    proof (cases "?h = x_empty_keccak ext \<or> ?h \<in> dom (map_of (rs_codes s))")
      case True
      then show ?thesis using inv by (auto simp: account_code_def codes_ok_def)
    next
      case False
      then have "account_code ext bn a (ca_state ca) s = ?fetch s"
        by (cases "map_of (rs_codes s) ?h") (auto simp: account_code_def)
      then show ?thesis using tripleD_case [where s = s, OF fetch inv] by (simp only:)
    qed
  qed
qed

lemma storage_answers:
  assumes "proof_answers ext a (Some ca) ks ap" "map_res (parse_storage_proof ext) (ap_storage_proof ap) = Inr pairs"
  shows "set ks \<subseteq> dom (map_of (hm_collect (map fst pairs)))"
    and "map_of (hm_collect (map fst pairs)) k = Some v \<Longrightarrow> v = ca_storage ca k"
proof -
  have keys: "map (fst \<circ> fst) pairs = ks" and vals: "\<forall>p \<in> set pairs. snd (fst p) = ca_storage ca (fst (fst p))"
    using assms by (auto simp: proof_answers_def)
  show "set ks \<subseteq> dom (map_of (hm_collect (map fst pairs)))"
    unfolding keys [symmetric] by (simp add: hm_get_collect dom_map_of_conv_image_fst image_comp o_assoc)
  show "map_of (hm_collect (map fst pairs)) k = Some v \<Longrightarrow> v = ca_storage ca k"
    using vals by (auto simp: hm_get_collect dest!: map_of_SomeD) force
qed

lemma get_account_triple:
  assumes honest: "honest_node ext bn truth"
  shows "triple (rpc_inv ext) (get_account ext bn a ks)
    (\<lambda>acc t. rpc_inv ext t \<and> consistent ext (truth a) acc \<and> covers ks acc) (errs (rpc_inv ext))"
  unfolding get_account_def Let_def
proof (rule triple_andthen_fact [OF send_triple])
  fix j
  let ?P = "rpc_inv ext"
  let ?Q = "\<lambda>acc t. ?P t \<and> consistent ext (truth a) acc \<and> covers ks acc"
  assume "\<exists>n. fst (x_post ext (EthGetProof (''0x'' @ x_addr_hex ext a)
      (map (\<lambda>key. ''0x'' @ x_h256_hex ext key) ks) (hex_quantity bn)) n) = Inr j"
  then have right: "get_result ext (x_json_proof ext) j = Inr ap \<Longrightarrow> proof_answers ext a (truth a) ks ap" for ap
    using honest unfolding honest_node_def by blast
  have last_part: "triple ?P (andthen (lift_res (parse_account_state ext ap)) (\<lambda>st.
      andthen (account_code ext bn a st) (\<lambda>code.
        ret (Existing st (hm_collect (map fst pairs)) nodes (hm_collect (map snd pairs)) code)))) ?Q (errs ?P)"
    if "proof_answers ext a (Some ca) ks ap" and ca: "truth a = Some ca"
      and pairs: "map_res (parse_storage_proof ext) (ap_storage_proof ap) = Inr pairs" for ap ca pairs nodes
  proof (rule triple_lift_then)
    fix st
    assume "parse_account_state ext ap = Inr st"
    then have "st = ca_state ca" using that(1) by (simp add: proof_answers_def)
    then show "triple ?P (andthen (account_code ext bn a st) (\<lambda>code.
        ret (Existing st (hm_collect (map fst pairs)) nodes (hm_collect (map snd pairs)) code))) ?Q (errs ?P)"
      using storage_answers [OF that(1) pairs] ca
      by (auto simp: hm_collect_def intro!: triple_andthen [OF account_code_triple [OF honest ca]] triple_ret)
  qed simp
  show "triple ?P (andthen (lift_res (get_result ext (x_json_proof ext) j)) (\<lambda>ap.
     andthen (lift_res (map_res (decode_hex ext) (ap_account_proof ap))) (\<lambda>account_proof.
     andthen (lift_res (map_res (parse_storage_proof ext) (ap_storage_proof ap))) (\<lambda>pairs.
     andthen (lift_res (account_in_trie ext a account_proof)) (\<lambda>found.
     if \<not> found then ret (NonExisting account_proof (hm_collect (map snd pairs)))
     else
       andthen (lift_res (parse_account_state ext ap)) (\<lambda>st.
       andthen (account_code ext bn a st) (\<lambda>code.
         ret (Existing st (hm_collect (map fst pairs)) account_proof (hm_collect (map snd pairs)) code)))))))) ?Q (errs ?P)"
  proof (intro triple_lift_then)
    fix ap nodes pairs found
    assume "get_result ext (x_json_proof ext) j = Inr ap"
      and nodes: "map_res (decode_hex ext) (ap_account_proof ap) = Inr nodes"
      and pairs: "map_res (parse_storage_proof ext) (ap_storage_proof ap) = Inr pairs"
      and found: "account_in_trie ext a nodes = Inr found"
    then have ans: "proof_answers ext a (truth a) ks ap" using right by blast
    then have "found = (truth a \<noteq> None)" using nodes found unfolding proof_answers_def by blast
    then show "triple ?P
        (if \<not> found then ret (NonExisting nodes (hm_collect (map snd pairs)))
         else andthen (lift_res (parse_account_state ext ap)) (\<lambda>st.
           andthen (account_code ext bn a st) (\<lambda>code.
             ret (Existing st (hm_collect (map fst pairs)) nodes (hm_collect (map snd pairs)) code)))) ?Q (errs ?P)"
      using last_part [OF _ _ pairs] ans by (cases "truth a") (auto intro: triple_ret)
  qed (simp_all add: map_res_no_panic)
qed

section \<open>Fetching and merging\<close>

text \<open>What \<open>fetch_accounts\<close> returns: the accounts of the index, each true and with its keys.\<close>

definition fetched_ok ::
    "('n, 'j, 'd, 't) rpc_ext \<Rightarrow> chain \<Rightarrow> (address \<times> h256 list) list \<Rightarrow> (address, account) hmap \<Rightarrow> bool" where
  "fetched_ok ext truth index m \<longleftrightarrow>
     hm_wf m \<and> dom (map_of m) = fst ` set index \<and>
     (\<forall>a acc. map_of m a = Some acc \<longrightarrow> consistent ext (truth a) acc \<and> (\<exists>ks. (a, ks) \<in> set index \<and> covers ks acc))"

lemma fetched_ok_cache: "fetched_ok ext truth index m \<Longrightarrow> cache_ok ext truth m"
  by (simp add: fetched_ok_def cache_ok_def)

lemma fetched_ok_Nil: "fetched_ok ext truth [] []"
  by (simp add: fetched_ok_def)

lemma fetched_ok_extend:
  assumes "fetched_ok ext truth index m" "fetched_ok ext truth index' m'"
  shows "fetched_ok ext truth (index @ index') (hm_extend m m')"
proof -
  have "dom (map_of (hm_extend m m')) = fst ` set (index @ index')"
    using assms by (auto simp: fetched_ok_def hm_get_extend)
  then show ?thesis
    using assms unfolding fetched_ok_def
    by (simp add: hm_get_extend_Some) (meson UnI1 UnI2 set_append)
qed

lemma fetched_ok_collect:
  assumes "list_all2 (\<lambda>(a, ks) (a', acc). a' = a \<and> consistent ext (truth a) acc \<and> covers ks acc) index kvs"
  shows "fetched_ok ext truth index (hm_collect kvs)"
proof -
  have keys: "map fst kvs = map fst index"
    using assms by (induction rule: list_all2_induct) auto
  then have "fst ` set kvs = fst ` set index" by (metis list.set_map)
  then have dom: "dom (map_of (hm_collect kvs)) = fst ` set index"
    by (simp add: hm_get_collect dom_map_of_conv_image_fst)
  have each: "(a, acc) \<in> set kvs \<Longrightarrow>
      consistent ext (truth a) acc \<and> (\<exists>ks. (a, ks) \<in> set index \<and> covers ks acc)" for a acc
    using assms by (induction rule: list_all2_induct) auto
  have wf: "hm_wf (hm_collect kvs)" by (simp add: hm_collect_def)
  show ?thesis
    unfolding fetched_ok_def using dom wf each by (simp add: hm_get_collect) (metis map_of_SomeD set_rev)
qed

lemma chunks_concat: "n \<noteq> 0 \<Longrightarrow> concat (chunks n xs) = xs"
  by (induction n xs rule: chunks.induct) (simp add: chunks.simps)

lemma chunks_size: "c \<in> set (chunks n xs) \<Longrightarrow> length c \<le> n \<and> c \<noteq> []"
  by (induction n xs rule: chunks.induct) (subst (asm) (2) chunks.simps, auto split: if_splits)

lemma fetch_chunk_triple:
  assumes "honest_node ext bn truth" "retry_policy policy"
  shows "triple (rpc_inv ext) (fetch_chunk ext policy bn chunk)
    (\<lambda>m t. rpc_inv ext t \<and> fetched_ok ext truth chunk m) (errs (rpc_inv ext))"
proof -
  let ?P = "rpc_inv ext"
  let ?Q = "\<lambda>(a, ks) (a', acc). a' = a \<and> consistent ext (truth a) acc \<and> covers ks acc"
  let ?f = "\<lambda>(address, storage_keys).
      andthen (policy (get_account ext bn address storage_keys)) (\<lambda>acc. ret (address, acc))"
  have one: "triple ?P (?f x) (\<lambda>y t. ?P t \<and> ?Q x y) (errs ?P)" for x
  proof -
    obtain a ks where x: "x = (a, ks)" by (cases x)
    show ?thesis unfolding x prod.case
      by (rule triple_andthen [OF triple_retry [OF assms(2) get_account_triple [OF assms(1)]]])
        (auto intro: triple_ret)
  qed
  have collect: "triple (\<lambda>t. ?P t \<and> list_all2 (\<lambda>x r. \<forall>y. r = Inr y \<longrightarrow> ?Q x y) chunk rs)
      (lift_res (bind_res (map_res of_result rs) (\<lambda>kvs. Inr (hm_collect kvs))))
      (\<lambda>m t. ?P t \<and> fetched_ok ext truth chunk m) (errs ?P)" for rs
  proof (rule triple_lift_res)
    fix s m
    assume s: "?P s \<and> list_all2 (\<lambda>x r. \<forall>y. r = Inr y \<longrightarrow> ?Q x y) chunk rs"
      and m: "bind_res (map_res of_result rs) (\<lambda>kvs. Inr (hm_collect kvs)) = Inr m"
    then obtain kvs where kvs: "list_all2 (\<lambda>x y. of_result x = Inr y) rs kvs" "m = hm_collect kvs"
      by (auto simp: res_simps map_res_Inr_iff)
    have "list_all2 ?Q chunk kvs"
      by (rule list_all2_trans [OF _ conjunct2 [OF s] kvs(1)]) (auto simp: res_simps)
    then show "?P s \<and> fetched_ok ext truth chunk m" using s kvs fetched_ok_collect by auto
  next
    fix s e
    assume s: "?P s \<and> list_all2 (\<lambda>x r. \<forall>y. r = Inr y \<longrightarrow> ?Q x y) chunk rs"
      and e: "bind_res (map_res of_result rs) (\<lambda>kvs. Inr (hm_collect kvs)) = Inl e"
    have "\<not> is_panic (map_res of_result rs)" by (simp add: map_res_no_panic)
    then show "errs ?P e s" using s e by (cases "map_res of_result rs") auto
  qed
  show ?thesis
    unfolding fetch_chunk_def
    by (rule triple_andthen [OF triple_conseq [OF triple_join_all [where Q = ?Q, OF one]] collect]) auto
qed

lemma cooldown_triple:
  "rps \<noteq> 0 \<Longrightarrow> triple (rpc_inv ext) (cooldown rps start n) (\<lambda>_. rpc_inv ext) (errs (rpc_inv ext))"
  by (auto simp: cooldown_def rate_limit_def triple_def Let_def andthen_def)

lemma fetch_chunks_triple:
  assumes "honest_node ext bn truth" "retry_policy policy" "rps \<noteq> 0" "fetched_ok ext truth index m"
  shows "triple (rpc_inv ext) (fetch_chunks ext policy rps bn m cs)
    (\<lambda>m' t. rpc_inv ext t \<and> fetched_ok ext truth (index @ concat cs) m') (errs (rpc_inv ext))"
  using assms(4)
proof (induction cs arbitrary: index m)
  case Nil
  then show ?case by (auto intro: triple_ret)
next
  case (Cons c cs)
  have rest: "triple (rpc_inv ext) (fetch_chunks ext policy rps bn (hm_extend m m') cs)
      (\<lambda>m' t. rpc_inv ext t \<and> fetched_ok ext truth (index @ concat (c # cs)) m') (errs (rpc_inv ext))"
    if "fetched_ok ext truth c m'" for m'
    using Cons.IH [OF fetched_ok_extend [OF Cons.prems that]] by simp
  show ?case
    unfolding fetch_chunks.simps
    by (rule triple_read, rule triple_andthen_fact [OF fetch_chunk_triple [OF assms(1,2)]],
        rule triple_andthen [OF cooldown_triple [OF assms(3)]], rule rest)
qed

lemma consistent_merge:
  assumes "consistent ext truth acc" "consistent ext truth cached"
  shows "\<exists>merged. merge_account acc cached = Inr merged \<and> consistent ext truth merged"
  using assms
  by (cases acc; cases cached) (auto simp: hm_get_extend map_add_Some_iff split: option.splits)

lemma merge_one_triple:
  assumes "consistent ext (truth (fst x)) (snd x)"
  shows "triple (cache_ok ext truth) (merge_one x) (\<lambda>_. cache_ok ext truth) (errs (cache_ok ext truth))"
  unfolding triple_def
proof (intro allI impI)
  fix m
  assume m: "cache_ok ext truth m"
  obtain a acc where x: "x = (a, acc)" by (cases x)
  show "case merge_one x m of (Inl e, t) \<Rightarrow> errs (cache_ok ext truth) e t | (Inr _, t) \<Rightarrow> cache_ok ext truth t"
  proof (cases "map_of m a")
    case None
    then show ?thesis using m assms by (simp add: merge_one_def x cache_ok_update)
  next
    case (Some cached)
    then have "consistent ext (truth a) cached" using m by (simp add: cache_ok_def)
    then obtain merged where "merge_account acc cached = Inr merged" "consistent ext (truth a) merged"
      using consistent_merge assms x by (metis fst_conv snd_conv)
    then show ?thesis using m Some by (simp add: merge_one_def x cache_ok_update)
  qed
qed

lemma on_rpc_triple:
  assumes "triple (rpc_inv ext) m (\<lambda>x t. rpc_inv ext t \<and> Q x) (errs (rpc_inv ext))"
  shows "triple (db_inv ext v) (on_rpc m)
    (\<lambda>x t. db_inv ext v t \<and> Q x) (errs (db_inv ext v))"
  by (rule triple_zoom_inv [OF assms]) (auto simp: db_inv_def)

lemma merge_fetched_triple:
  assumes "fetched_ok ext (v_at v from_child) index fetched"
  shows "triple (db_inv ext v) (merge_fetched from_child fetched)
    (\<lambda>_. db_inv ext v) (errs (db_inv ext v))"
proof -
  let ?truth = "v_at v from_child"
  have "consistent ext (?truth (fst x)) (snd x)" if "x \<in> set fetched" for x
    using assms that by (cases x) (auto simp: fetched_ok_def hm_wf_def)
  then have loop: "triple (cache_ok ext ?truth) (for_each merge_one fetched)
      (\<lambda>_ t. cache_ok ext ?truth t \<and> True) (errs (cache_ok ext ?truth))"
    unfolding simp_thms by (intro triple_for_each merge_one_triple)
  have "triple (db_inv ext v) (merge_fetched from_child fetched)
    (\<lambda>_ t. db_inv ext v t \<and> True) (errs (db_inv ext v))"
  proof (cases from_child)
    case True
    then show ?thesis unfolding merge_fetched_def using loop
      by (simp only: if_True) (rule triple_zoom_inv, auto simp: db_inv_def v_at_def)
  next
    case False
    then show ?thesis unfolding merge_fetched_def using loop
      by (simp only: if_False) (rule triple_zoom_inv, auto simp: db_inv_def v_at_def)
  qed
  then show ?thesis by simp
qed

lemma chunks_fetched_triple:
  assumes "honest_node ext bn truth" "retry_policy policy" "rps \<noteq> 0"
  shows "triple (rpc_inv ext) (fetch_chunks ext policy rps bn [] (chunks rps index))
    (\<lambda>m t. rpc_inv ext t \<and> fetched_ok ext truth index m) (errs (rpc_inv ext))"
  using fetch_chunks_triple [OF assms fetched_ok_Nil, of "chunks rps index"] chunks_concat [OF assms(3), of index] by simp

text \<open>
  The surroundings the code is written for: an honest node, a request rate that is not zero, a
  block that has a parent.
\<close>

definition sound_source ::
    "('n, 'j, 'd, 't) rpc_ext \<Rightarrow> (('n rpc_state, account) act \<Rightarrow> ('n rpc_state, account) act) \<Rightarrow> nat \<Rightarrow>
     chain_view \<Rightarrow> bool" where
  "sound_source ext policy rps v \<longleftrightarrow>
     honest_node ext (unat (v_number v - 1)) (v_pre v) \<and> honest_node ext (unat (v_number v)) (v_post v) \<and>
     retry_policy policy \<and> rps \<noteq> 0 \<and> v_number v \<noteq> 0"

lemma fetch_accounts_triple:
  assumes source: "sound_source ext policy rps v"
  shows "triple (db_inv ext v) (fetch_accounts ext policy chk rps index from_child)
    (\<lambda>m t. db_inv ext v t \<and> fetched_ok ext (v_at v from_child) index m)
    (errs (db_inv ext v))"
proof -
  let ?I = "db_inv ext v"
  let ?truth = "v_at v from_child"
  let ?bn = "v_number v"
  have honest: "honest_node ext (unat (if from_child then ?bn else ?bn - 1)) (v_at v from_child)"
    and policy: "retry_policy policy" and rps: "rps \<noteq> 0" and bn: "?bn \<noteq> 0"
    using source by (simp_all add: sound_source_def v_at_def)
  have start: "(if from_child then Inr ?bn else sub_ovf chk ?bn 1) = Inr (if from_child then ?bn else ?bn - 1)"
    using bn by (auto simp: sub_ovf_def word_less_1)
  have codes: "triple (rpc_inv ext) (\<lambda>s. (Inr (), s\<lparr>rs_codes := insert_codes ext fetched (rs_codes s)\<rparr>))
      (\<lambda>_ t. rpc_inv ext t \<and> True) (errs (rpc_inv ext))" for fetched
    by (simp add: triple_def codes_ok_insert_codes)
  have fetch: "triple ?I (on_rpc (fetch_chunks ext policy rps (unat (if from_child then ?bn else ?bn - 1)) []
      (chunks rps index))) (\<lambda>m t. ?I t \<and> fetched_ok ext ?truth index m) (errs ?I)"
    by (rule on_rpc_triple [OF chunks_fetched_triple [OF honest policy rps]])
  have tail: "triple ?I (andthen (merge_fetched from_child fetched) (\<lambda>_.
      andthen (on_rpc (\<lambda>s. (Inr (), s\<lparr>rs_codes := insert_codes ext fetched (rs_codes s)\<rparr>))) (\<lambda>_. ret fetched)))
      (\<lambda>m t. ?I t \<and> fetched_ok ext ?truth index m) (errs ?I)"
    if "fetched_ok ext ?truth index fetched" for fetched
    by (intro triple_andthen [OF merge_fetched_triple [OF that]] triple_andthen [OF on_rpc_triple [OF codes]]
        triple_ret) (use that in simp)
  show ?thesis
    unfolding triple_def
  proof (intro allI impI)
    fix db
    assume I: "?I db"
    then have number: "db_block_number db = ?bn" by (simp add: db_inv_def)
    show "case fetch_accounts ext policy chk rps index from_child db of (Inl e, t) \<Rightarrow> errs ?I e t
      | (Inr m, t) \<Rightarrow> ?I t \<and> fetched_ok ext ?truth index m"
      unfolding fetch_accounts_def number start lift_res_def andthen_simps
      using tripleD_case [OF triple_andthen_fact [OF fetch tail] I] rps by simp
  qed
qed

lemma fetch_pre_triple:
  assumes "sound_source ext policy rps v"
  shows "triple (db_inv ext v) (fetch_accounts ext policy chk rps index False)
    (\<lambda>m t. db_inv ext v t \<and> fetched_ok ext (v_pre v) index m) (errs (db_inv ext v))"
  using fetch_accounts_triple [OF assms, of chk index False] by (simp add: v_at_def)

section \<open>The reads of LEVM\<close>

lemma fetched_single:
  assumes "fetched_ok ext truth [(a, ks)] m"
  obtains acc where "map_of m a = Some acc" "consistent ext (truth a) acc" "covers ks acc"
proof -
  have "a \<in> dom (map_of m)" using assms by (simp add: fetched_ok_def)
  then obtain acc where m: "map_of m a = Some acc" by blast
  then have "consistent ext (truth a) acc \<and> (\<exists>ks'. (a, ks') \<in> set [(a, ks)] \<and> covers ks' acc)"
    using assms unfolding fetched_ok_def by blast
  then show thesis by (intro that [OF m]) auto
qed

lemma cached_or_fetched_triple:
  assumes source: "sound_source ext policy rps v"
  shows "triple (db_inv ext v) (cached_or_fetched ext policy chk rps a)
    (\<lambda>acc t. db_inv ext v t \<and> consistent ext (v_pre v a) acc) (errs (db_inv ext v))"
proof -
  let ?I = "db_inv ext v"
  let ?Q = "\<lambda>acc t. ?I t \<and> consistent ext (v_pre v a) acc"
  let ?fetch = "andthen (map_err (\<lambda>e. ''Failed to fetch account info: '' @ e)
               (fetch_accounts ext policy chk rps [(a, [])] False)) (\<lambda>fetched.
           andthen (lift_res (unwrap (map_of fetched a))) (\<lambda>acc db.
             (Inr acc, db\<lparr>db_cache := AList.update a acc (db_cache db)\<rparr>)))"
  have put: "triple ?I (\<lambda>db. (Inr acc, db\<lparr>db_cache := AList.update a acc (db_cache db)\<rparr>)) ?Q (errs ?I)"
    if "consistent ext (v_pre v a) acc" for acc
    using that by (simp add: triple_def db_inv_def cache_ok_update)
  have tail: "triple ?I (andthen (lift_res (unwrap (map_of fetched a))) (\<lambda>acc db.
      (Inr acc, db\<lparr>db_cache := AList.update a acc (db_cache db)\<rparr>))) ?Q (errs ?I)"
    if "fetched_ok ext (v_pre v) [(a, [])] fetched" for fetched
    using that
  proof (rule fetched_single)
    fix acc
    assume "map_of fetched a = Some acc" "consistent ext (v_pre v a) acc"
    then show ?thesis by (intro triple_lift_then put) auto
  qed
  have fetch: "triple ?I ?fetch ?Q (errs ?I)"
    by (rule triple_andthen_fact [OF triple_map_errs [OF fetch_pre_triple [OF source]] tail])
  show ?thesis
    unfolding triple_def
  proof (intro allI impI)
    fix db
    assume I: "?I db"
    show "case cached_or_fetched ext policy chk rps a db of (Inl e, t) \<Rightarrow> errs ?I e t | (Inr m, t) \<Rightarrow> ?Q m t"
    proof (cases "map_of (db_cache db) a")
      case None
      have "cached_or_fetched ext policy chk rps a db = ?fetch db"
        unfolding cached_or_fetched_def None option.case ..
      then show ?thesis using tripleD_case [OF fetch I] by (simp only:)
    next
      case (Some acc)
      have "consistent ext (v_pre v a) acc" using I Some by (simp add: db_inv_def cache_ok_def)
      then show ?thesis using I by (simp add: cached_or_fetched_def Some)
    qed
  qed
qed

text \<open>The code of a hash can be read without an error, and is the right one.\<close>

definition code_readable :: "('n, 'j, 'd, 't) rpc_ext \<Rightarrow> h256 \<Rightarrow> 'n rpc_db \<Rightarrow> bool" where
  "code_readable ext h db \<longleftrightarrow> h = x_empty_keccak ext \<or>
     (\<exists>c. db_get_account_code ext h db = (Inr (FromBytecode c), db) \<and> x_code_hash ext c = h)"

lemma code_readable_iff:
  assumes "db_inv ext v db"
  shows "code_readable ext h db \<longleftrightarrow> h = x_empty_keccak ext \<or> h \<in> dom (map_of (rs_codes (db_rpc db)))"
  using assms by (auto simp: code_readable_def db_get_account_code_def db_inv_def codes_ok_def res_simps)

lemma get_account_state_triple:
  assumes source: "sound_source ext policy rps v" and default: "as_code_hash default_state = x_empty_keccak ext"
  shows "triple (db_inv ext v) (db_get_account_state ext policy chk rps default_state a)
    (\<lambda>st t. db_inv ext v t \<and> st = (case v_pre v a of None \<Rightarrow> default_state | Some ca \<Rightarrow> ca_state ca) \<and>
      code_readable ext (as_code_hash st) t) (errs (db_inv ext v))"
  unfolding db_get_account_state_def
proof (rule triple_andthen_fact [OF cached_or_fetched_triple [OF source]])
  fix acc
  let ?I = "db_inv ext v"
  let ?Q = "\<lambda>st t. ?I t \<and> st = (case v_pre v a of None \<Rightarrow> default_state | Some ca \<Rightarrow> ca_state ca) \<and>
      code_readable ext (as_code_hash st) t"
  assume acc: "consistent ext (v_pre v a) acc"
  show "triple ?I (case acc of
         Existing st _ _ _ code \<Rightarrow>
           (case code of
              Some c \<Rightarrow>
                andthen (on_rpc (\<lambda>s. (Inr (), s\<lparr>rs_codes := hm_or_insert (x_code_hash ext c) c (rs_codes s)\<rparr>)))
                  (\<lambda>_. ret st)
            | None \<Rightarrow> ret st)
       | NonExisting _ _ \<Rightarrow> ret default_state) ?Q (errs ?I)"
  proof (cases acc)
    case (Existing st storage ap sps code)
    then obtain ca where ca: "v_pre v a = Some ca" "st = ca_state ca" using acc by auto
    show ?thesis
    proof (cases code)
      case None
      then show ?thesis using acc ca by (auto simp: Existing code_readable_def intro!: triple_ret)
    next
      case (Some c)
      then have hash: "x_code_hash ext c = as_code_hash (ca_state ca)" using acc ca by (simp add: Existing)
      have insert: "triple ?I (on_rpc (\<lambda>s. (Inr (), s\<lparr>rs_codes := hm_or_insert (x_code_hash ext c) c (rs_codes s)\<rparr>)))
          (\<lambda>_ t. ?I t \<and> x_code_hash ext c \<in> dom (map_of (rs_codes (db_rpc t)))) (errs ?I)"
        by (auto simp: triple_def zoom_def db_inv_def codes_ok_or_insert hm_get_or_insert)
      show ?thesis
        unfolding Existing Some account.case option.case
        by (rule triple_andthen [OF insert], rule triple_ret) (use ca hash in \<open>auto simp: code_readable_iff\<close>)
    qed
  next
    case (NonExisting ap sps)
    then show ?thesis using acc default by (auto simp: code_readable_def intro!: triple_ret)
  qed
qed

lemma get_storage_value_triple:
  assumes source: "sound_source ext policy rps v"
  shows "triple (db_inv ext v) (db_get_storage_value ext policy chk rps a k)
    (\<lambda>x t. db_inv ext v t \<and> x = (case v_pre v a of None \<Rightarrow> 0 | Some ca \<Rightarrow> ca_storage ca k)) (errs (db_inv ext v))"
proof -
  let ?I = "db_inv ext v"
  let ?v = "case v_pre v a of None \<Rightarrow> 0 | Some ca \<Rightarrow> ca_storage ca k"
  let ?Q = "\<lambda>x t. ?I t \<and> x = ?v"
  let ?fetch = "andthen (map_err (\<lambda>e. ''Failed to fetch account info: '' @ e)
               (fetch_accounts ext policy chk rps [(a, [k])] False)) (\<lambda>fetched.
           andthen (lift_res (unwrap (map_of fetched a))) (\<lambda>acc.
             ret (case cached_storage (Some acc) k of Some value \<Rightarrow> value | None \<Rightarrow> 0)))"
  have tail: "triple ?I (andthen (lift_res (unwrap (map_of fetched a))) (\<lambda>acc.
             ret (case cached_storage (Some acc) k of Some value \<Rightarrow> value | None \<Rightarrow> 0))) ?Q (errs ?I)"
    if "fetched_ok ext (v_pre v) [(a, [k])] fetched" for fetched
    using that
  proof (rule fetched_single)
    fix acc
    assume m: "map_of fetched a = Some acc" and acc: "consistent ext (v_pre v a) acc" "covers [k] acc"
    have "(case cached_storage (Some acc) k of Some value \<Rightarrow> value | None \<Rightarrow> 0) = ?v"
      using acc by (cases acc) auto
    then show ?thesis using m by (intro triple_lift_then triple_ret) auto
  qed
  have fetch: "triple ?I ?fetch ?Q (errs ?I)"
    by (rule triple_andthen_fact [OF triple_map_errs [OF fetch_pre_triple [OF source]] tail])
  show ?thesis
    unfolding triple_def
  proof (intro allI impI)
    fix db
    assume I: "?I db"
    show "case db_get_storage_value ext policy chk rps a k db of (Inl e, t) \<Rightarrow> errs ?I e t | (Inr x, t) \<Rightarrow> ?Q x t"
    proof (cases "cached_storage (map_of (db_cache db) a) k")
      case None
      have "db_get_storage_value ext policy chk rps a k db = ?fetch db"
        unfolding db_get_storage_value_def None option.case ..
      then show ?thesis using tripleD_case [OF fetch I] by (simp only:)
    next
      case (Some x)
      then obtain acc where acc: "map_of (db_cache db) a = Some acc" "cached_storage (Some acc) k = Some x"
        by (cases "map_of (db_cache db) a") auto
      have "consistent ext (v_pre v a) acc" using I acc(1) by (simp add: db_inv_def cache_ok_def)
      then have "x = ?v" using acc(2) by (cases acc) auto
      then show ?thesis using I by (simp add: db_get_storage_value_def Some)
    qed
  qed
qed

end
