(* ===== verification/Rpc_Example.thy ===== *)
theory Rpc_Example
  imports Rpc_Truth
begin

text \<open>
  A small concrete node, on which the properties of the database are instantiated: a chain with
  one account (at address 1, with nonce 3, balance 5, two bytes of code, and 7 in every slot).
  The node proves that account with the one-node proof \<open>01\<close> and all others absent with \<open>00\<close>.
\<close>

datatype example_answer = AnsProof account_proof_json | AnsText string | AnsBlock rpc_block

fun hex_pairs :: "string \<Rightarrow> string + bytes" where
  "hex_pairs [] = Inr []"
| "hex_pairs [_] = Inl ''odd length''"
| "hex_pairs (a # b # cs) =
     (case (to_digit 16 a, to_digit 16 b, hex_pairs cs) of
        (Some x, Some y, Inr bs) \<Rightarrow> Inr (of_nat (16 * x + y) # bs)
      | _ \<Rightarrow> Inl ''invalid character'')"

definition parse_0x :: "string \<Rightarrow> string + 256 word" where
  "parse_0x s = (case from_str_radix 16 (2 ^ 256) (drop 2 s) of Some n \<Rightarrow> Inr (of_nat n) | None \<Rightarrow> Inl ''not a number'')"

definition example_proof :: "string \<Rightarrow> string list \<Rightarrow> account_proof_json" where
  "example_proof address keys =
     \<lparr>ap_balance = ''0x5'', ap_code_hash = ''0x2'', ap_nonce = ''0x3'', ap_storage_hash = ''0x9'',
      ap_storage_proof = map (\<lambda>k. \<lparr>sp_key = k, sp_value = ''0x7'', sp_proof = []\<rparr>) keys,
      ap_account_proof = [if address = ''0x1'' then ''0x01'' else ''0x00'']\<rparr>"

fun example_post :: "rpc_request \<Rightarrow> unit \<Rightarrow> (string + example_answer) \<times> nat \<times> unit" where
  "example_post (EthGetProof address keys _) n = (Inr (AnsProof (example_proof address keys)), 1000, n)"
| "example_post (EthGetCode _ _) n = (Inr (AnsText ''0x600a''), 1000, n)"
| "example_post (EthGetBlockByNumber number _) n =
     (Inr (AnsBlock \<lparr>rb_hash = of_nat (length number), rb_header_rlp = [of_nat (length number)]\<rparr>), 1000, n)"

definition example_ext :: "(unit, example_answer, bytes, bytes list) rpc_ext" where
  "example_ext =
     \<lparr>x_post = example_post, x_result = Some, x_json_text = (\<lambda>_. ''{}''),
      x_json_block = (\<lambda>j. case j of AnsBlock b \<Rightarrow> Inr b | _ \<Rightarrow> Inl ''not a block''),
      x_json_proof = (\<lambda>j. case j of AnsProof p \<Rightarrow> Inr p | _ \<Rightarrow> Inl ''not a proof''),
      x_json_string = (\<lambda>j. case j of AnsText t \<Rightarrow> Inr t | _ \<Rightarrow> Inl ''not a string''),
      x_addr_hex = (\<lambda>a. show_hex (unat a)), x_h256_hex = (\<lambda>h. show_hex (unat h)),
      x_parse_h256 = parse_0x, x_parse_u256 = parse_0x, x_hex_decode = hex_pairs,
      x_keccak = (\<lambda>bs. of_nat (length bs)), x_node_decode = Inr,
      x_trie_from_nodes = (\<lambda>root nodes. Inr (map snd nodes)),
      x_trie_get = (\<lambda>t key. Inr (if [1] \<in> set t then Some [] else None)),
      x_hash_address = (\<lambda>a. [ucast a]), x_hash_key = (\<lambda>k. [ucast k]),
      x_code_hash = (\<lambda>c. of_nat (length c)), x_empty_keccak = 0\<rparr>"

definition example_account :: chain_account where
  "example_account =
     \<lparr>ca_state = \<lparr>as_nonce = 3, as_balance = 5, as_storage_root = 9, as_code_hash = 2\<rparr>, ca_storage = (\<lambda>_. 7)\<rparr>"

definition example_chain :: chain where
  "example_chain a = (if show_hex (unat a) = ''1'' then Some example_account else None)"

definition example_default :: account_state where
  "example_default = \<lparr>as_nonce = 0, as_balance = 0, as_storage_root = 0, as_code_hash = 0\<rparr>"

definition example_remote :: "unit rpc_state" where
  "example_remote = \<lparr>rs_codes = [], rs_node = (), rs_requests = [], rs_clock = 0\<rparr>"

lemma example_ext_simps [simp]:
  "x_post example_ext = example_post" "x_result example_ext = Some"
  "x_json_block example_ext (AnsBlock b) = Inr b"
  "x_json_proof example_ext (AnsProof p) = Inr p"
  "x_json_string example_ext (AnsText t) = Inr t"
  "x_addr_hex example_ext a = show_hex (unat a)" "x_h256_hex example_ext h = show_hex (unat h)"
  "x_parse_h256 example_ext = parse_0x" "x_parse_u256 example_ext = parse_0x"
  "x_hex_decode example_ext = hex_pairs" "x_keccak example_ext bs = of_nat (length bs)"
  "x_node_decode example_ext = Inr" "x_trie_from_nodes example_ext r nodes = Inr (map snd nodes)"
  "x_trie_get example_ext tr key = Inr (if [1] \<in> set tr then Some [] else None)"
  "x_code_hash example_ext c = of_nat (length c)" "x_empty_keccak example_ext = 0"
  by (simp_all add: example_ext_def)

lemma parse_0x_show [simp]: "parse_0x (CHR ''0'' # CHR ''x'' # show_hex (unat (k :: 256 word))) = Inr k"
proof -
  have "unat k < 2 ^ LENGTH(256)" by (rule unsigned_less)
  then have "from_str_radix 16 (2 ^ 256) (show_hex (unat k)) = Some (unat k)"
    by (intro from_str_radix_show_radix) simp_all
  then show ?thesis by (simp add: parse_0x_def)
qed

lemma trim_0x: "s = [] \<or> hd s \<noteq> CHR ''0'' \<or> tl s = [] \<or> hd (tl s) \<noteq> CHR ''x'' \<Longrightarrow>
    trim_start_matches ''0x'' (CHR ''0'' # CHR ''x'' # s) = s"
proof -
  assume s: "s = [] \<or> hd s \<noteq> CHR ''0'' \<or> tl s = [] \<or> hd (tl s) \<noteq> CHR ''x''"
  have "trim_start_matches ''0x'' (CHR ''0'' # CHR ''x'' # s) = trim_start_matches ''0x'' s"
    by (subst trim_start_matches.simps) (simp add: starts_with_def)
  also have "\<not> starts_with s ''0x''"
    using s by (cases s; cases "tl s") (auto simp: starts_with_def)
  then have "trim_start_matches ''0x'' s = s"
    by (subst trim_start_matches.simps) simp
  finally show ?thesis .
qed

lemma example_decode [simp]:
  "decode_hex example_ext ''0x01'' = Inr [1]" "decode_hex example_ext ''0x00'' = Inr [0]"
  "decode_hex example_ext ''0x600a'' = Inr [96, 10]"
  by (simp_all add: decode_hex_def trim_0x to_digit_def)

lemma parse_0x_small:
  "parse_0x ''0x7'' = Inr 7" "parse_0x ''0x5'' = Inr 5" "parse_0x ''0x9'' = Inr 9" "parse_0x ''0x2'' = Inr 2"
  by (simp_all add: parse_0x_def from_str_radix_def to_digit_def)

lemma example_state:
  "parse_account_state example_ext (example_proof a ks) = Inr (ca_state example_account)"
  by (simp add: parse_account_state_def example_proof_def trim_0x from_str_radix_def to_digit_def parse_0x_small
      example_account_def)

lemma example_storage:
  "map_res (parse_storage_proof example_ext)
     (ap_storage_proof (example_proof a (map (\<lambda>key. ''0x'' @ show_hex (unat key)) ks)))
   = Inr (map (\<lambda>k. ((k, 7), (k, []))) ks)"
  by (induction ks) (simp_all add: example_proof_def parse_storage_proof_def parse_0x_small)

lemma example_found:
  "account_in_trie example_ext a [[b]] = Inr (b = 1)"
  by (simp add: account_in_trie_def proof_nodes_def hm_collect_def hm_extend_def)

lemma example_honest: "honest_node example_ext bn example_chain"
proof -
  have "proof_answers example_ext a (example_chain a) ks
      (example_proof (''0x'' @ show_hex (unat a)) (map (\<lambda>key. ''0x'' @ show_hex (unat key)) ks))" for a ks
  proof -
    have nodes: "map_res (decode_hex example_ext) (ap_account_proof
        (example_proof (''0x'' @ show_hex (unat a)) ks')) = Inr [[if show_hex (unat a) = ''1'' then 1 else 0]]" for ks'
      by (simp add: example_proof_def)
    show ?thesis
      unfolding proof_answers_def nodes example_state example_storage
      by (auto simp: example_found example_chain_def example_account_def o_def)
  qed
  then show ?thesis
    by (auto simp: honest_node_def get_result_def example_chain_def example_account_def split: if_splits)
qed

definition example_config :: chain_config where
  "example_config = \<lparr>cc_chain_id = 1\<rparr>"

definition example_view :: chain_view where
  "example_view = \<lparr>v_pre = example_chain, v_post = example_chain,
     v_hash = (\<lambda>n. of_nat (length (hex_quantity (unat n)))), v_number = 8, v_config = example_config\<rparr>"

lemma example_source: "sound_source example_ext (\<lambda>m. m) 10 example_view"
  by (simp add: sound_source_def example_view_def example_honest retry_policy_id)

section \<open>A run\<close>

definition example_tx :: transaction where
  "example_tx = \<lparr>tx_type = Legacy, tx_to = Call 1, tx_data = [], tx_value = 0, tx_gas_limit = 21000, tx_hash = 77,
     tx_sender = Inr 2, tx_access_list = [(1, [4])]\<rparr>"

definition example_block8 :: block where
  "example_block8 = \<lparr>b_header = \<lparr>bh_number = 8, bh_gas_limit = 30000000, bh_gas_used = 21000\<rparr>,
     b_transactions = [example_tx]\<rparr>"

definition example_request :: "nat \<Rightarrow> address \<Rightarrow> h256 list \<Rightarrow> rpc_request" where
  "example_request bn a ks =
     EthGetProof (''0x'' @ show_hex (unat a)) (map (\<lambda>k. ''0x'' @ show_hex (unat k)) ks) (hex_quantity bn)"

definition example_code_request :: "nat \<Rightarrow> rpc_request" where
  "example_code_request bn = EthGetCode ''0x1'' (hex_quantity bn)"

definition example_absent_account :: "h256 list \<Rightarrow> account" where
  "example_absent_account ks = NonExisting [[0]] (hm_collect (map (\<lambda>k. (k, [])) ks))"

definition example_present_account :: "h256 list \<Rightarrow> account" where
  "example_present_account ks = Existing (ca_state example_account) (hm_collect (map (\<lambda>k. (k, 7)) ks)) [[1]]
     (hm_collect (map (\<lambda>k. (k, [])) ks)) (Some [96, 10])"

lemma example_absent:
  assumes "show_hex (unat a) \<noteq> ''1''"
  shows "get_account example_ext bn a ks s =
    (Inr (example_absent_account ks),
     s\<lparr>rs_requests := rs_requests s @ [example_request bn a ks], rs_clock := rs_clock s + 1000\<rparr>)"
  using assms example_storage [of "''0x'' @ show_hex (unat a)" ks]
  by (simp add: get_account_def send_def andthen_def get_result_def example_found o_def example_request_def)
    (simp add: example_proof_def example_found o_def example_absent_account_def)

lemma example_present:
  assumes "show_hex (unat a) = ''1''" "map_of (rs_codes s) 2 = None"
  shows "get_account example_ext bn a ks s =
    (Inr (example_present_account ks),
     s\<lparr>rs_requests := rs_requests s @ [example_request bn a ks, example_code_request bn],
        rs_clock := rs_clock s + 2000, rs_codes := AList.update 2 [96, 10] (rs_codes s)\<rparr>)"
  using assms example_storage [of "''0x'' @ show_hex (unat a)" ks]
    example_state [of "''0x'' @ show_hex (unat a)" "map (\<lambda>k. ''0x'' @ show_hex (unat k)) ks"]
  by (simp add: get_account_def send_def andthen_def get_result_def example_found o_def example_request_def
      example_code_request_def, cases s)
    (simp add: example_proof_def example_found account_code_def example_account_def andthen_def get_code_def
      send_def get_result_def o_def example_request_def example_present_account_def)

lemma example_hex: "show_hex 2 \<noteq> ''1''" "show_hex 1 = ''1''" "show_hex (Suc 0) = ''1''"
  by code_simp+

definition example_fetched :: "(address, account) hmap" where
  "example_fetched = [(2, example_absent_account []), (1, example_present_account [4])]"

definition example_remote_after :: "nat \<Rightarrow> unit rpc_state" where
  "example_remote_after clock = \<lparr>rs_codes = [(2, [96, 10])], rs_node = (),
     rs_requests = [example_request 7 2 [], example_request 7 1 [4], example_code_request 7], rs_clock = clock\<rparr>"

definition example_db :: "unit rpc_db" where
  "example_db = \<lparr>db_rpc = example_remote_after 200000000, db_block_number = 8, db_cache = example_fetched,
     db_child_cache = [], db_block_hashes = [], db_chain_config = example_config, db_vm_type = VM_L1\<rparr>"

definition example_empty_db :: "unit rpc_db" where
  "example_empty_db = rpc_db_new example_remote example_config 8 VM_L1"

lemma example_fetch_chunk:
  "fetch_chunk example_ext (\<lambda>m. m) 7 [(2, []), (1, [4])] example_remote = (Inr example_fetched, example_remote_after 3000)"
  by (simp add: fetch_chunk_def andthen_def attempt_def example_absent example_present example_hex example_remote_def
      hm_collect_def hm_extend_def example_fetched_def example_remote_after_def)

lemma example_fetch_chunks:
  "fetch_chunks example_ext (\<lambda>m. m) 10 7 [] [[(2, []), (1, [4])]] example_remote
    = (Inr example_fetched, example_remote_after 200000000)"
  by (simp add: example_fetch_chunk andthen_def cooldown_def rate_limit_def hm_extend_def)
    (simp add: example_remote_after_def example_remote_def example_fetched_def)

lemma example_chunks: "chunks 10 [(2, []), (1, [4])] = [[(2 :: address, []), (1, [4 :: h256])]]"
  by (simp add: chunks.simps)

lemma example_fetch_accounts:
  "fetch_accounts example_ext (\<lambda>m. m) True 10 [(2, []), (1, [4])] False example_empty_db = (Inr example_fetched, example_db)"
proof -
  have "example_remote\<lparr>rs_codes := []\<rparr> = example_remote" by (simp add: example_remote_def)
  then show ?thesis
    by (simp add: fetch_accounts_def example_chunks sub_ovf_def andthen_def zoom_def example_fetch_chunks
        merge_fetched_def example_empty_db_def rpc_db_new_def del: fetch_chunks.simps)
      (simp add: merge_one_def example_fetched_def example_db_def example_remote_after_def
        example_absent_account_def example_present_account_def andthen_def)
qed

lemma example_with_cache:
  "with_cache example_ext (\<lambda>m. m) True 10 example_remote example_config 8 example_block8 VM_L1 = (Inr (), example_db)"
proof -
  have "block_accounts (b_transactions example_block8) = [(2, []), (1, [4])]"
    by (simp add: block_accounts_def example_block8_def example_tx_def map_filter_simps)
  then show ?thesis
    using example_fetch_accounts
    by (simp add: with_cache_def cache_accounts_def andthen_def example_empty_db_def)
      (simp add: example_db_def)
qed

end
