(* ===== verification/Rpc_Reads.thy ===== *)
theory Rpc_Reads
  imports Rpc_Example
begin

text \<open>
  The properties of the database of \<open>src/rpc/db.rs\<close>: every sequence of reads of \<open>LEVM\<close> is answered
  by the chain, what is read once is not requested again, the rate limit is kept, and the accounts
  a block names are fetched before it is executed.
\<close>

section \<open>Reads in any order\<close>

text \<open>The methods of \<open>LevmDatabase\<close>, and what they return.\<close>

datatype db_read = ReadState address | ReadStorage address h256 | ReadCode h256 | ReadHash u64 | ReadConfig

datatype reply = AccState account_state | Slot u256 | CodeIs code | HashIs h256 | ConfigIs chain_config

definition map_act :: "('a \<Rightarrow> 'b) \<Rightarrow> ('s, 'a) act \<Rightarrow> ('s, 'b) act" where
  "map_act f m = andthen m (\<lambda>x. ret (f x))"

primrec do_read ::
    "('n, 'j, 'd, 't) rpc_ext \<Rightarrow> (('n rpc_state, account) act \<Rightarrow> ('n rpc_state, account) act) \<Rightarrow>
     (('n rpc_state, rpc_block) act \<Rightarrow> ('n rpc_state, rpc_block) act) \<Rightarrow> bool \<Rightarrow> nat \<Rightarrow> account_state \<Rightarrow>
     db_read \<Rightarrow> ('n rpc_db, reply) act" where
  "do_read ext policy policy_block chk rps default_state (ReadState a) =
     map_act AccState (db_get_account_state ext policy chk rps default_state a)"
| "do_read ext policy policy_block chk rps default_state (ReadStorage a k) =
     map_act Slot (db_get_storage_value ext policy chk rps a k)"
| "do_read ext policy policy_block chk rps default_state (ReadCode h) = map_act CodeIs (db_get_account_code ext h)"
| "do_read ext policy policy_block chk rps default_state (ReadHash n) =
     map_act HashIs (db_get_block_hash ext policy_block n)"
| "do_read ext policy policy_block chk rps default_state ReadConfig = map_act ConfigIs db_get_chain_config"

text \<open>The reply that the chain gives: a function of the read for all but the code, which its hash determines.\<close>

fun true_reply ::
    "('n, 'j, 'd, 't) rpc_ext \<Rightarrow> chain_view \<Rightarrow> account_state \<Rightarrow> db_read \<Rightarrow> reply \<Rightarrow> bool" where
  "true_reply ext v default_state (ReadState a) r \<longleftrightarrow>
     r = AccState (case v_pre v a of None \<Rightarrow> default_state | Some ca \<Rightarrow> ca_state ca)"
| "true_reply ext v default_state (ReadStorage a k) r \<longleftrightarrow>
     r = Slot (case v_pre v a of None \<Rightarrow> 0 | Some ca \<Rightarrow> ca_storage ca k)"
| "true_reply ext v default_state (ReadCode h) r \<longleftrightarrow>
     (if h = x_empty_keccak ext then r = CodeIs CodeDefault
      else \<exists>c. r = CodeIs (FromBytecode c) \<and> x_code_hash ext c = h)"
| "true_reply ext v default_state (ReadHash n) r \<longleftrightarrow> r = HashIs (v_hash v n)"
| "true_reply ext v default_state ReadConfig r \<longleftrightarrow> r = ConfigIs (v_config v)"

text \<open>The documented behaviour of \<open>eth_getBlockByNumber\<close>.\<close>

definition honest_headers :: "('n, 'j, 'd, 't) rpc_ext \<Rightarrow> (u64 \<Rightarrow> h256) \<Rightarrow> bool" where
  "honest_headers ext hash \<longleftrightarrow>
     (\<forall>number n j b. fst (x_post ext (EthGetBlockByNumber (hex_quantity (unat number)) False) n) = Inr j \<longrightarrow>
        get_result ext (x_json_block ext) j = Inr b \<longrightarrow> rb_hash b = hash number)"

lemma triple_map_act:
  "triple I m (\<lambda>x t. I t \<and> Q (f x)) (errs I) \<Longrightarrow> triple I (map_act f m) (\<lambda>x t. I t \<and> Q x) (errs I)"
  unfolding map_act_def by (erule triple_andthen) (auto intro: triple_ret)

lemma get_block_triple:
  assumes "honest_headers ext hash"
  shows "triple (rpc_inv ext) (get_block ext (unat n) False)
    (\<lambda>b t. rpc_inv ext t \<and> rb_hash b = hash n) (errs (rpc_inv ext))"
  unfolding get_block_def
proof (rule triple_andthen_fact [OF send_triple])
  fix j
  assume "\<exists>node. fst (x_post ext (EthGetBlockByNumber (hex_quantity (unat n)) False) node) = Inr j"
  then show "triple (rpc_inv ext) (lift_res (get_result ext (x_json_block ext) j))
      (\<lambda>b t. rpc_inv ext t \<and> rb_hash b = hash n) (errs (rpc_inv ext))"
    using assms unfolding honest_headers_def by (intro triple_lift_errs) auto
qed

lemma get_block_hash_triple:
  assumes "honest_headers ext (v_hash v)" "retry_policy policy_block"
  shows "triple (db_inv ext v) (db_get_block_hash ext policy_block n)
    (\<lambda>h t. db_inv ext v t \<and> h = v_hash v n) (errs (db_inv ext v))"
proof -
  let ?I = "db_inv ext v"
  let ?Q = "\<lambda>h t. ?I t \<and> h = v_hash v n"
  let ?fetch = "andthen (on_rpc (policy_block (get_block ext (unat n) False))) (\<lambda>blk db.
             (Inr (rb_hash blk), db\<lparr>db_block_hashes := AList.update n (rb_hash blk) (db_block_hashes db)\<rparr>))"
  have put: "triple ?I (\<lambda>db. (Inr (rb_hash b), db\<lparr>db_block_hashes := AList.update n (rb_hash b) (db_block_hashes db)\<rparr>))
      ?Q (errs ?I)" if "rb_hash b = v_hash v n" for b
    using that by (auto simp: triple_def db_inv_def update_conv')
  have fetch: "triple ?I ?fetch ?Q (errs ?I)"
    by (rule triple_andthen_fact [OF on_rpc_triple [OF triple_retry [OF assms(2) get_block_triple [OF assms(1)]]] put])
  show ?thesis
    unfolding triple_def
  proof (intro allI impI)
    fix db
    assume I: "?I db"
    show "case db_get_block_hash ext policy_block n db of (Inl e, t) \<Rightarrow> errs ?I e t | (Inr h, t) \<Rightarrow> ?Q h t"
    proof (cases "map_of (db_block_hashes db) n")
      case None
      have "db_get_block_hash ext policy_block n db = ?fetch db"
        unfolding db_get_block_hash_def None option.case ..
      then show ?thesis using tripleD_case [OF fetch I] by (simp only:)
    next
      case (Some h)
      then show ?thesis using I by (simp add: db_get_block_hash_def db_inv_def)
    qed
  qed
qed

lemma get_account_code_triple:
  "triple (db_inv ext v) (db_get_account_code ext h)
     (\<lambda>c t. db_inv ext v t \<and> true_reply ext v default_state (ReadCode h) (CodeIs c)) (errs (db_inv ext v))"
  by (rule tripleI)
    (auto simp: db_get_account_code_def db_inv_def codes_ok_def res_simps ok_or_def split: if_splits option.splits)

lemma do_read_triple:
  assumes source: "sound_source ext policy rps v" and blocks: "honest_headers ext (v_hash v)" "retry_policy policy_block"
    and default: "as_code_hash default_state = x_empty_keccak ext"
  shows "triple (db_inv ext v) (do_read ext policy policy_block chk rps default_state q)
    (\<lambda>r t. db_inv ext v t \<and> true_reply ext v default_state q r) (errs (db_inv ext v))"
proof (cases q)
  case (ReadState a)
  show ?thesis
    unfolding ReadState do_read.simps
    by (rule triple_map_act, rule triple_conseq [OF get_account_state_triple [OF source default]]) auto
next
  case (ReadStorage a k)
  show ?thesis
    unfolding ReadStorage do_read.simps
    by (rule triple_map_act, rule triple_conseq [OF get_storage_value_triple [OF source]]) auto
next
  case (ReadCode h)
  show ?thesis
    unfolding ReadCode do_read.simps by (rule triple_map_act, rule get_account_code_triple)
next
  case (ReadHash n)
  show ?thesis
    unfolding ReadHash do_read.simps
    by (rule triple_map_act, rule triple_conseq [OF get_block_hash_triple [OF blocks]]) auto
next
  case ReadConfig
  show ?thesis
    unfolding ReadConfig do_read.simps
    by (rule triple_map_act) (auto simp: triple_def db_get_chain_config_def db_inv_def)
qed

lemma rpc_db_new_inv:
  "db_inv ext v (rpc_db_new remote (v_config v) (v_number v) vm)"
  by (simp add: db_inv_def rpc_db_new_def)

lemma cache_accounts_triple:
  assumes "sound_source ext policy rps v"
  shows "triple (db_inv ext v) (cache_accounts ext policy chk rps blk)
    (\<lambda>_ t. db_inv ext v t \<and> fetched_ok ext (v_pre v) (block_accounts (b_transactions blk)) (db_cache t))
    (errs (db_inv ext v))"
  unfolding cache_accounts_def
  by (rule triple_andthen_fact [OF fetch_pre_triple [OF assms]])
    (auto simp: triple_def db_inv_def dest: fetched_ok_cache)

lemma with_cache_ok:
  assumes "sound_source ext policy rps v"
    and "with_cache ext policy chk rps remote (v_config v) (v_number v) blk vm = (r, db)"
  shows "case r of Inl e \<Rightarrow> \<not> is_panic r
    | Inr _ \<Rightarrow> db_inv ext v db \<and> fetched_ok ext (v_pre v) (block_accounts (b_transactions blk)) (db_cache db)"
  using tripleD_case [OF cache_accounts_triple [OF assms(1)] rpc_db_new_inv [of ext v remote vm], of blk chk]
    assms(2) by (auto simp: with_cache_def split: sum.splits)

text \<open>
  C31. Reads of the execution witness database are correct. Take a database that \<open>with_cache\<close> made
  for a block, from a node that answers honestly about the chain but may fail at any time, under
  any retry policy. Then for every sequence of reads of \<open>LEVM\<close> (account states, storage slots,
  codes, block hashes, the chain configuration, in any order and with any repetitions), no read
  panics, and each reply is an error or the value the chain has in the state before the block.
\<close>

theorem database_reads_true:
  assumes "sound_source ext policy rps v" and "honest_headers ext (v_hash v)" and "retry_policy policy_block"
    and "as_code_hash default_state = x_empty_keccak ext"
    and "with_cache ext policy chk rps remote (v_config v) (v_number v) blk vm = (Inr (), db)"
  shows "\<exists>replies db'. join_all (do_read ext policy policy_block chk rps default_state) reads db = (Inr replies, db') \<and>
    list_all2 (\<lambda>q r. \<forall>x. r = Inr x \<longrightarrow> true_reply ext v default_state q x) reads replies"
proof -
  have inv: "db_inv ext v db" using with_cache_ok [OF assms(1,5)] by simp
  have "triple (db_inv ext v) (join_all (do_read ext policy policy_block chk rps default_state) reads)
      (\<lambda>rs t. db_inv ext v t \<and> list_all2 (\<lambda>q r. \<forall>x. r = Inr x \<longrightarrow> true_reply ext v default_state q x) reads rs)
      (\<lambda>_ _. False)"
    by (rule triple_join_all, rule do_read_triple [OF assms(1-4)])
  from tripleD_case [OF this inv] show ?thesis
    by (auto split: prod.splits sum.splits)
qed

lemma example_headers: "honest_headers example_ext (v_hash example_view)"
  by (auto simp: honest_headers_def example_view_def get_result_def)

theorem database_reads_true_witness:
  "\<exists>replies db'.
     join_all (do_read example_ext (\<lambda>m. m) (\<lambda>m. m) True 10 example_default)
       [ReadState 1, ReadStorage 1 4, ReadStorage 1 6, ReadCode 2, ReadHash 7, ReadConfig] example_db = (Inr replies, db') \<and>
     list_all2 (\<lambda>q r. \<forall>x. r = Inr x \<longrightarrow> true_reply example_ext example_view example_default q x)
       [ReadState 1, ReadStorage 1 4, ReadStorage 1 6, ReadCode 2, ReadHash 7, ReadConfig] replies"
  by (rule database_reads_true [OF example_source example_headers retry_policy_id,
        where remote = example_remote and blk = example_block8 and vm = VM_L1])
    (simp_all add: example_default_def example_with_cache [unfolded example_config_def] example_view_def example_config_def)

text \<open>
  What \<open>fetch_accounts\<close> promises. From a database whose caches agree with the chain, for the
  state before the block or after it: it does not reach the \<open>unreachable!\<close> of the merge or any other panic,
  the caches still agree with the chain afterwards, even when it fails half way, and what it
  returns has exactly the addresses of the index, each with the account's true fields, its true
  values at all storage keys asked for, and code that has the account's code hash.
\<close>

theorem fetch_accounts_sound:
  assumes "sound_source ext policy rps v" and "db_inv ext v db"
    and "fetch_accounts ext policy chk rps index from_child db = (r, db')"
  shows "db_inv ext v db' \<and> \<not> is_panic r \<and>
    (\<forall>m. r = Inr m \<longrightarrow> fetched_ok ext (v_at v from_child) index m)"
  using tripleD_case [OF fetch_accounts_triple [OF assms(1)] assms(2), of from_child index chk] assms(3)
  by (cases r) auto

lemma example_new_inv: "db_inv example_ext example_view example_empty_db"
  using rpc_db_new_inv [of example_ext example_view example_remote VM_L1]
  by (simp add: example_empty_db_def example_view_def)

theorem fetch_accounts_sound_witness:
  "db_inv example_ext example_view example_db \<and>
   fetched_ok example_ext example_chain [(2, []), (1, [4])] example_fetched"
  using fetch_accounts_sound [OF example_source example_new_inv example_fetch_accounts]
  by (simp add: v_at_def example_view_def)

text \<open>
  A state that was read makes its code readable: when \<open>get_account_state\<close> returns, the state
  is the one on the chain before the block (the default state for an account that does not exist), and
  \<open>get_account_code\<close> finds the code of its code hash afterwards.
\<close>

theorem account_state_then_code:
  assumes "sound_source ext policy rps v" and "db_inv ext v db" and "as_code_hash default_state = x_empty_keccak ext"
    and "db_get_account_state ext policy chk rps default_state a db = (Inr st, db')"
  shows "st = (case v_pre v a of None \<Rightarrow> default_state | Some ca \<Rightarrow> ca_state ca) \<and>
    (\<exists>c. db_get_account_code ext (as_code_hash st) db' = (Inr c, db'))"
proof -
  have "st = (case v_pre v a of None \<Rightarrow> default_state | Some ca \<Rightarrow> ca_state ca)" "code_readable ext (as_code_hash st) db'"
    using tripleD(1) [OF get_account_state_triple [OF assms(1,3)] assms(2,4)] by blast+
  then show ?thesis by (auto simp: code_readable_def db_get_account_code_def)
qed

lemma example_db_inv: "db_inv example_ext example_view example_db"
  using with_cache_ok [OF example_source, where r = "Inr ()" and remote = example_remote and blk = example_block8]
    example_with_cache by (simp add: example_view_def)

theorem account_state_then_code_witness:
  "ca_state example_account = (case v_pre example_view 1 of None \<Rightarrow> example_default | Some ca \<Rightarrow> ca_state ca) \<and>
   (\<exists>c. db_get_account_code example_ext (as_code_hash (ca_state example_account)) example_db = (Inr c, example_db))"
proof (rule account_state_then_code [OF example_source example_db_inv])
  show "as_code_hash example_default = x_empty_keccak example_ext" by (simp add: example_default_def)
  show "db_get_account_state example_ext (\<lambda>m. m) True 10 example_default 1 example_db
      = (Inr (ca_state example_account), example_db)"
    by (simp add: db_get_account_state_def cached_or_fetched_def andthen_def example_db_def example_fetched_def
        example_present_account_def zoom_def hm_or_insert_def example_remote_after_def)
qed

section \<open>Prefetching the accounts of a block\<close>

text \<open>The addresses a block names: senders, recipients and the addresses of the access lists.\<close>

definition block_addresses :: "transaction list \<Rightarrow> address set" where
  "block_addresses txs =
     {a. \<exists>tx \<in> set txs. tx_sender tx = Inr a \<or> tx_to tx = Call a \<or> a \<in> fst ` set (tx_access_list tx)}"

lemma collected_dom:
  "dom (map_of (fold (\<lambda>(a, ks) m. AList.update a ((case map_of m a of None \<Rightarrow> [] | Some ks' \<Rightarrow> ks') @ ks) m) kvs m))
     = dom (map_of m) \<union> fst ` set kvs"
  by (induction kvs arbitrary: m) (auto simp: update_conv')

lemma collected_keys:
  "map_of (fold (\<lambda>(a, ks) m. AList.update a ((case map_of m a of None \<Rightarrow> [] | Some ks' \<Rightarrow> ks') @ ks) m) kvs m) a = Some ks \<Longrightarrow>
     set ks = (case map_of m a of None \<Rightarrow> {} | Some ks' \<Rightarrow> set ks') \<union> \<Union> (set ` snd ` {kv \<in> set kvs. fst kv = a})"
proof (induction kvs arbitrary: m)
  case Nil
  then show ?case by simp
next
  case (Cons kv kvs)
  obtain b kb where kv: "kv = (b, kb)" by (cases kv)
  have "set ks = (case map_of (AList.update b ((case map_of m b of None \<Rightarrow> [] | Some ks' \<Rightarrow> ks') @ kb) m) a of
      None \<Rightarrow> {} | Some ks' \<Rightarrow> set ks') \<union> \<Union> (set ` snd ` {kv \<in> set kvs. fst kv = a})"
    by (rule Cons.IH) (use Cons.prems in \<open>simp add: kv\<close>)
  then show ?case by (auto simp: kv update_conv' split: option.splits if_splits)
qed

lemma map_filter_set: "set (List.map_filter f xs) = {y. \<exists>x \<in> set xs. f x = Some y}"
  by (induction xs) (auto simp: List.map_filter_simps split: option.splits)

lemma block_accounts_dom: "dom (map_of (block_accounts txs)) = block_addresses txs"
proof -
  have sender: "(case tx_sender tx of Inl _ \<Rightarrow> None | Inr a \<Rightarrow> Some a) = Some x \<longleftrightarrow> tx_sender tx = Inr x"
    for tx and x by (cases "tx_sender tx") simp_all
  have callee: "(case tx_to tx of Create \<Rightarrow> None | Call a \<Rightarrow> Some a) = Some x \<longleftrightarrow> tx_to tx = Call x"
    for tx and x by (cases "tx_to tx") simp_all
  have "dom (map_of (block_accounts txs)) =
      {a. \<exists>tx \<in> set txs. tx_sender tx = Inr a} \<union> {a. \<exists>tx \<in> set txs. tx_to tx = Call a} \<union>
      (\<Union>tx \<in> set txs. fst ` set (tx_access_list tx))"
    unfolding block_accounts_def Let_def collected_dom
    by (simp add: image_Un image_image map_filter_set sender callee image_UN Un_assoc)
  then show ?thesis by (auto simp: block_addresses_def)
qed

lemma block_accounts_keys:
  assumes "tx \<in> set txs" "(a, ks) \<in> set (tx_access_list tx)" "map_of (block_accounts txs) a = Some ks'"
  shows "set ks \<subseteq> set ks'"
  using assms collected_keys [OF assms(3) [unfolded block_accounts_def Let_def]]
  by (fastforce simp: image_iff)

lemma block_accounts_wf: "hm_wf (block_accounts txs)"
proof -
  have "hm_wf m \<Longrightarrow> hm_wf (fold (\<lambda>(a, ks) m. AList.update a ((case map_of m a of None \<Rightarrow> [] | Some ks' \<Rightarrow> ks') @ ks) m) kvs m)"
    for m :: "(address, h256 list) hmap" and kvs
    by (induction kvs arbitrary: m) auto
  then show ?thesis by (simp add: block_accounts_def Let_def)
qed

text \<open>
  C32. After \<open>with_cache\<close> the cache holds exactly the addresses the block names (senders, recipients
  of calls, access lists), and each storage key of an access list is in its account's storage,
  if the account exists. Reading one of those accounts or slots then changes nothing: no request
  is sent.
\<close>

theorem with_cache_prefetches:
  assumes "sound_source ext policy rps v"
    and "with_cache ext policy chk rps remote (v_config v) (v_number v) blk vm = (Inr (), db)"
  shows "dom (map_of (db_cache db)) = block_addresses (b_transactions blk) \<and>
    (\<forall>tx \<in> set (b_transactions blk). \<forall>(a, ks) \<in> set (tx_access_list tx). \<forall>k \<in> set ks.
       v_pre v a \<noteq> None \<longrightarrow> db_get_storage_value ext policy chk rps a k db = (Inr (ca_storage (the (v_pre v a)) k), db))"
proof -
  let ?txs = "b_transactions blk"
  have inv: "db_inv ext v db" and got: "fetched_ok ext (v_pre v) (block_accounts ?txs) (db_cache db)"
    using with_cache_ok [OF assms] by simp_all
  have dom: "dom (map_of (db_cache db)) = block_addresses ?txs"
    using got block_accounts_dom [of ?txs] by (simp add: fetched_ok_def dom_map_of_conv_image_fst)
  have slot: "db_get_storage_value ext policy chk rps a k db = (Inr (ca_storage (the (v_pre v a)) k), db)"
    if tx: "tx \<in> set ?txs" and al: "(a, ks) \<in> set (tx_access_list tx)" and k: "k \<in> set ks" and ex: "v_pre v a \<noteq> None"
    for tx a ks k
  proof -
    have "a \<in> dom (map_of (db_cache db))" using dom tx al by (force simp: block_addresses_def)
    then obtain acc where m: "map_of (db_cache db) a = Some acc" by blast
    then obtain ks' where acc: "consistent ext (v_pre v a) acc" "covers ks' acc" "(a, ks') \<in> set (block_accounts ?txs)"
      using got unfolding fetched_ok_def by blast
    then have "map_of (block_accounts ?txs) a = Some ks'" using block_accounts_wf by (simp add: hm_wf_def)
    then have "k \<in> set ks'" using block_accounts_keys [OF tx al] k by blast
    then have "cached_storage (Some acc) k = Some (ca_storage (the (v_pre v a)) k)"
      using acc ex by (cases acc) (auto simp: subset_iff)
    then show ?thesis by (simp add: db_get_storage_value_def m)
  qed
  show ?thesis using dom slot by blast
qed

theorem with_cache_prefetches_witness:
  "dom (map_of (db_cache example_db)) = block_addresses (b_transactions example_block8) \<and>
   db_get_storage_value example_ext (\<lambda>m. m) True 10 1 4 example_db = (Inr 7, example_db)"
proof -
  have run: "with_cache example_ext (\<lambda>m. m) True 10 example_remote (v_config example_view) (v_number example_view)
      example_block8 VM_L1 = (Inr (), example_db)"
    by (simp add: example_view_def example_with_cache)
  show ?thesis
    using with_cache_prefetches [OF example_source run]
    by (simp add: example_view_def example_block8_def example_tx_def example_chain_def example_hex example_account_def)
qed

section \<open>What is read once is not requested again\<close>

text \<open>
  The contract of a read with a cache: a hit is answered from the cache and changes nothing, a
  successful read puts its value there, and no read removes or changes an entry.
\<close>

locale read_through =
  fixes run :: "'k \<Rightarrow> ('s, 'v) act"
    and cached :: "'s \<Rightarrow> 'k \<Rightarrow> 'v option"
  assumes hit: "cached s k = Some x \<Longrightarrow> run k s = (Inr x, s)"
    and stores: "run k s = (Inr x, t) \<Longrightarrow> cached t k = Some x"
    and keeps: "cached s k = Some x \<Longrightarrow> cached (snd (run k' s)) k = Some x"
begin

lemma keeps_all: "cached s k = Some x \<Longrightarrow> cached (snd (join_all run ks s)) k = Some x"
proof (induction ks arbitrary: s)
  case Nil
  then show ?case by simp
next
  case (Cons k' ks)
  have "cached (snd (run k' s)) k = Some x" by (rule keeps [OF Cons.prems])
  then have step: "cached (snd (attempt (run k') s)) k = Some x" by simp
  show ?case
  proof (cases "attempt (run k') s")
    case (Pair r t)
    then have t: "cached t k = Some x" using step by simp
    show ?thesis
      using Pair Cons.IH [OF t] t
      by (cases r; cases "join_all run ks t"; cases "fst (join_all run ks t)") (auto simp: andthen_def)
  qed
qed

lemma read_again:
  assumes "run k s = (Inr x, t)"
  shows "run k (snd (join_all run ks t)) = (Inr x, snd (join_all run ks t))"
  by (rule hit, rule keeps_all, rule stores [OF assms])

end

interpretation block_hashes: read_through "db_get_block_hash ext policy_block"
  "\<lambda>db :: 'n rpc_db. map_of (db_block_hashes db)"
proof
  fix db :: "'n rpc_db" and n h
  assume "map_of (db_block_hashes db) n = Some h"
  then show "db_get_block_hash ext policy_block n db = (Inr h, db)" by (simp add: db_get_block_hash_def)
next
  fix db db' :: "'n rpc_db" and n h
  assume "db_get_block_hash ext policy_block n db = (Inr h, db')"
  then show "map_of (db_block_hashes db') n = Some h"
    by (auto simp: db_get_block_hash_def andthen_def zoom_def update_conv' split: option.splits prod.splits sum.splits)
next
  fix db :: "'n rpc_db" and n h n'
  assume "map_of (db_block_hashes db) n = Some h"
  then show "map_of (db_block_hashes (snd (db_get_block_hash ext policy_block n' db))) n = Some h"
    by (auto simp: db_get_block_hash_def andthen_def zoom_def update_conv' split: option.splits prod.splits sum.splits)
qed

text \<open>
  A block hash is requested until it is known and never again: once \<open>get_block_hash\<close> has
  returned the hash of a block, the same read returns the same hash without touching the world,
  after any further reads of block hashes.
\<close>

theorem block_hash_requested_once:
  assumes "db_get_block_hash ext policy_block n db = (Inr h, db1)"
    and "db2 = snd (join_all (db_get_block_hash ext policy_block) ns db1)"
  shows "db_get_block_hash ext policy_block n db2 = (Inr h, db2)"
  unfolding assms(2) by (rule block_hashes.read_again [OF assms(1)])

theorem block_hash_requested_once_witness:
  "\<exists>h db1. db_get_block_hash example_ext (\<lambda>m. m) 7 example_db = (Inr h, db1) \<and>
     db_get_block_hash example_ext (\<lambda>m. m) 7 (snd (join_all (db_get_block_hash example_ext (\<lambda>m. m)) [6, 5] db1))
       = (Inr h, snd (join_all (db_get_block_hash example_ext (\<lambda>m. m)) [6, 5] db1))"
proof -
  have "\<exists>h db1. db_get_block_hash example_ext (\<lambda>m. m) 7 example_db = (Inr h, db1)"
    by (simp add: db_get_block_hash_def example_db_def andthen_def zoom_def get_block_def send_def get_result_def)
  then show ?thesis using block_hash_requested_once by blast
qed

section \<open>The rate limit\<close>

text \<open>No call turns the clock back.\<close>

abbreviation since :: "nat \<Rightarrow> 'n rpc_state \<Rightarrow> bool" where
  "since t0 s \<equiv> t0 \<le> rs_clock s"

lemma send_since: "triple (since t0) (send ext req) (\<lambda>_ t. since t0 t \<and> True) (errs (since t0))"
proof (rule tripleI)
  fix s e t
  assume "since t0 s" "send ext req s = (Inl e, t)"
  then show "errs (since t0) e t"
    by (cases "fst (x_post ext req (rs_node s))") (auto simp: send_def split: prod.splits)
qed (auto simp: send_def split: prod.splits)

lemma get_code_since: "triple (since t0) (get_code ext bn a) (\<lambda>_ t. since t0 t \<and> True) (errs (since t0))"
  unfolding get_code_def
  by (rule triple_andthen_fact [OF send_since], intro triple_lift_then triple_lift_errs) simp_all

lemma account_code_since: "triple (since t0) (account_code ext bn a st) (\<lambda>_ t. since t0 t \<and> True) (errs (since t0))"
proof -
  let ?fetch = "andthen (get_code ext bn a)
     (\<lambda>c s. (Inr (Some c), s\<lparr>rs_codes := AList.update (as_code_hash st) c (rs_codes s)\<rparr>))"
  have fetch: "triple (since t0) ?fetch (\<lambda>_ t. since t0 t \<and> True) (errs (since t0))"
    by (rule triple_andthen [OF get_code_since]) (simp add: triple_def)
  show ?thesis
    unfolding triple_def
  proof (intro allI impI)
    fix s :: "'a rpc_state"
    assume s: "since t0 s"
    show "case account_code ext bn a st s of (Inl e, t) \<Rightarrow> errs (since t0) e t | (Inr x, t) \<Rightarrow> since t0 t \<and> True"
    proof (cases "as_code_hash st = x_empty_keccak ext \<or> map_of (rs_codes s) (as_code_hash st) \<noteq> None")
      case True
      then show ?thesis using s by (auto simp: account_code_def)
    next
      case False
      then have "account_code ext bn a st s = ?fetch s" by (simp add: account_code_def)
      then show ?thesis using tripleD_case [where s = s, OF fetch s] by (simp only:)
    qed
  qed
qed

lemma get_account_since: "triple (since t0) (get_account ext bn a ks) (\<lambda>_ t. since t0 t \<and> True) (errs (since t0))"
  unfolding get_account_def Let_def
proof (rule triple_andthen_fact [OF send_since], intro triple_lift_then)
  fix ap nodes pairs found
  show "triple (since t0) (if \<not> found then ret (NonExisting nodes (hm_collect (map snd pairs)))
         else andthen (lift_res (parse_account_state ext ap)) (\<lambda>st.
           andthen (account_code ext bn a st) (\<lambda>code.
             ret (Existing st (hm_collect (map fst pairs)) nodes (hm_collect (map snd pairs)) code))))
      (\<lambda>_ t. since t0 t \<and> True) (errs (since t0))"
    by (auto intro!: triple_ret triple_lift_then triple_andthen [OF account_code_since])
qed (simp_all add: map_res_no_panic)

lemma fetch_chunk_since:
  assumes "retry_policy policy" "fetch_chunk ext policy bn chunk s = (Inr m, t)"
  shows "rs_clock s \<le> rs_clock t"
proof -
  let ?I = "since (rs_clock s)"
  have one: "triple ?I ((\<lambda>(a, ks). andthen (policy (get_account ext bn a ks)) (\<lambda>acc. ret (a, acc))) x)
      (\<lambda>_ t. ?I t \<and> True) (errs ?I)" for x
    by (cases x) (auto intro!: triple_andthen [OF triple_retry [OF assms(1) get_account_since]] triple_ret)
  from assms(2) obtain rs u where "join_all (\<lambda>(a, ks). andthen (policy (get_account ext bn a ks)) (\<lambda>acc. ret (a, acc))) chunk s
      = (Inr rs, u)" and t: "t = u"
    unfolding fetch_chunk_def by (auto elim!: andthen_Inr_E)
  from tripleD(1) [OF triple_join_all [where I = ?I, OF one] _ this(1)] show ?thesis by (simp add: t)
qed

lemma cooldown_paced:
  assumes "cooldown rps (rs_clock s0) n s = (Inr u, t)" "rs_clock s0 \<le> rs_clock s" "n < 2 ^ 32"
  shows "rs_clock s0 + (1000000 div rps * 1000) * n \<le> rs_clock t"
  using assms
  by (auto simp: cooldown_def rate_limit_def Let_def andthen_def split: if_splits)

lemma fetch_chunks_paced:
  assumes "retry_policy policy" "rps < 2 ^ 32" "\<And>c. c \<in> set cs \<Longrightarrow> length c \<le> rps"
    and "fetch_chunks ext policy rps bn m cs s = (Inr m', t)"
  shows "rs_clock s + (1000000 div rps * 1000) * length (concat cs) \<le> rs_clock t"
  using assms(3,4)
proof (induction cs arbitrary: m s)
  case Nil
  then show ?case by simp
next
  case (Cons c cs)
  from Cons.prems(2) obtain fc s1 u s2 where
    steps: "fetch_chunk ext policy bn c s = (Inr fc, s1)" "cooldown rps (rs_clock s) (length c) s1 = (Inr u, s2)"
      "fetch_chunks ext policy rps bn (hm_extend m fc) cs s2 = (Inr m', t)"
    by (auto elim!: andthen_Inr_E)
  have "length c < 2 ^ 32" using Cons.prems(1) [of c] assms(2) by simp
  then have "rs_clock s + (1000000 div rps * 1000) * length c \<le> rs_clock s2"
    using cooldown_paced [OF steps(2) fetch_chunk_since [OF assms(1) steps(1)]] by simp
  moreover have "rs_clock s2 + (1000000 div rps * 1000) * length (concat cs) \<le> rs_clock t"
    by (rule Cons.IH [OF _ steps(3)]) (simp add: Cons.prems(1))
  ultimately show ?case by (simp add: algebra_simps)
qed

text \<open>
  Pacing: fetching \<open>n\<close> accounts takes at least \<open>n\<close> times \<open>RATE_LIMIT\<close>, however fast the node
  answers and however many calls were retried, in chunks of any size.
\<close>

theorem fetch_accounts_paced:
  assumes "retry_policy policy" and "rps < 2 ^ 32"
    and "fetch_accounts ext policy chk rps index from_child db = (Inr m, db')"
  shows "rs_clock (db_rpc db) + (1000000 div rps * 1000) * length index \<le> rs_clock (db_rpc db')"
proof -
  from assms(3) have rps: "rps \<noteq> 0"
    by (auto simp: fetch_accounts_def elim!: andthen_Inr_E split: if_splits)
  from assms(3) obtain bn s1 fetched where run:
    "fetch_chunks ext policy rps bn [] (chunks rps index) (db_rpc db) = (Inr fetched, s1)"
    and rest: "rs_clock (db_rpc db') = rs_clock s1"
    by (auto simp: fetch_accounts_def rps zoom_def merge_fetched_def elim!: andthen_Inr_E
        split: if_splits prod.splits)
  show ?thesis
    using fetch_chunks_paced [OF assms(1,2) _ run] chunks_size [of _ rps index] chunks_concat [OF rps, of index] rest
    by simp
qed

theorem fetch_accounts_paced_witness:
  "rs_clock (db_rpc example_empty_db) + 200000000 \<le> rs_clock (db_rpc example_db)"
  using fetch_accounts_paced [OF retry_policy_id _ example_fetch_accounts] by simp

text \<open>
  A request rate of zero is a panic, not an error: with \<open>REPLAY_RPC_RPS=0\<close> every
  \<open>fetch_accounts\<close>, for any index, panics before the first request.
\<close>

theorem zero_rate_panics:
  "rpc_rps (Some ''0'') = 0 \<and>
   is_panic (fst (fetch_accounts ext policy chk (rpc_rps (Some ''0'')) index from_child db)) \<and>
   snd (fetch_accounts ext policy chk (rpc_rps (Some ''0'')) index from_child db) = db"
proof -
  have zero: "rpc_rps (Some ''0'') = 0" by (simp add: rpc_rps_def from_str_radix_def to_digit_def)
  show ?thesis
    by (cases from_child; cases "sub_ovf chk (db_block_number db) 1")
      (auto simp: zero fetch_accounts_def andthen_def sub_ovf_def split: if_splits)
qed

lemma send_Inr: "send ext req s = (Inr j, t) \<Longrightarrow> rs_requests t = rs_requests s @ [req] \<and> rs_codes t = rs_codes s"
  by (auto simp: send_def split: prod.splits)

lemma get_code_requests:
  "get_code ext bn a s = (Inr c, t) \<Longrightarrow>
     rs_requests t = rs_requests s @ [EthGetCode (''0x'' @ x_addr_hex ext a) (hex_quantity bn)]"
  by (auto simp: get_code_def dest!: send_Inr elim!: andthen_Inr_E)

lemma account_code_requests:
  "account_code ext bn a st s = (Inr c, t) \<Longrightarrow>
     rs_requests t = rs_requests s @
       (if as_code_hash st = x_empty_keccak ext \<or> map_of (rs_codes s) (as_code_hash st) \<noteq> None then []
        else [EthGetCode (''0x'' @ x_addr_hex ext a) (hex_quantity bn)])"
  by (cases "map_of (rs_codes s) (as_code_hash st)")
    (auto simp: account_code_def dest!: get_code_requests elim!: andthen_Inr_E split: if_splits)

text \<open>
  The requests of one \<open>get_account\<close>: one \<open>eth_getProof\<close>, and a second one, \<open>eth_getCode\<close>, when the
  account has code that is not in the cache of codes. \<open>fetch_accounts\<close> waits one \<open>RATE_LIMIT\<close> per account,
  so up to twice \<open>REPLAY_RPC_RPS\<close> requests are sent per second.
\<close>

theorem get_account_requests:
  assumes "get_account ext bn a ks s = (Inr acc, t)"
  shows "rs_requests t = rs_requests s @
    EthGetProof (''0x'' @ x_addr_hex ext a) (map (\<lambda>key. ''0x'' @ x_h256_hex ext key) ks) (hex_quantity bn) #
    (case acc of
       Existing st _ _ _ _ \<Rightarrow>
         (if as_code_hash st = x_empty_keccak ext \<or> map_of (rs_codes s) (as_code_hash st) \<noteq> None then []
          else [EthGetCode (''0x'' @ x_addr_hex ext a) (hex_quantity bn)])
     | NonExisting _ _ \<Rightarrow> [])"
  using assms
  by (auto simp: get_account_def Let_def dest!: send_Inr account_code_requests elim!: andthen_Inr_E split: if_splits)

theorem get_account_requests_witness:
  "rs_requests (snd (get_account example_ext 7 1 [4] example_remote))
     = [example_request 7 1 [4], example_code_request 7]"
  using get_account_requests [OF example_present [of 1 example_remote 7 "[4]"]]
  by (simp add: example_present example_remote_def example_hex example_request_def example_code_request_def
      example_present_account_def example_account_def)

end
