(* ===== verification/Trie_Witness.thy ===== *)
theory Trie_Witness
  imports Rpc_Reads
begin

text \<open>
  The execution witness that is gathered account by account: \<open>to_execution_witness\<close> and
  \<open>get_potential_child_nodes\<close> of \<open>src/rpc/db.rs\<close>, and the dummy nodes that \<open>src/helpers.rs\<close> adds to a
  trie that is known in part.

  The nodes of the trie are those of \<open>ethrex-trie\<close>: the record \<open>node_ext\<close> says how one is taken apart
  into a branch, an extension with its prefix or a leaf with its partial path, and how a path gives
  away its first nibble. The record \<open>bytes_ext\<close> holds the byte forms of addresses and hashes.
\<close>

section \<open>Dummy nodes\<close>

type_synonym nibbles = "u8 list"

definition nibble_children :: "nibbles \<Rightarrow> nibbles list" where
  "nibble_children key = map (\<lambda>d. key @ [of_nat d]) [0..<16]"

text \<open>
  The map is the \<open>BTreeMap\<close> inside the \<open>InMemoryTrieDB\<close>, which is changed in place; \<open>dummy\<close> is the
  encoding of the default branch node.
\<close>

definition insert_dummies :: "bytes \<Rightarrow> (nibbles, bytes) hmap \<Rightarrow> (nibbles, bytes) hmap" where
  "insert_dummies dummy node_map =
     fold (\<lambda>key m. if length key > 64 then m
            else fold (\<lambda>child m. hm_or_insert child dummy m) (nibble_children key) m)
       (hm_keys node_map) node_map"

definition get_trie_nodes_with_dummies ::
    "(nibbles \<Rightarrow> 'p) \<Rightarrow> bytes \<Rightarrow> (nibbles, bytes) hmap \<Rightarrow> ('p \<times> bytes) list \<times> (nibbles, bytes) hmap" where
  "get_trie_nodes_with_dummies from_hex dummy node_map =
     (let m = insert_dummies dummy node_map in (map (\<lambda>(key, v). (from_hex key, v)) m, m))"

section \<open>Potential child nodes\<close>

datatype ('d, 'p) node_view = BranchNode | ExtensionNode 'p "'p \<Rightarrow> 'd" | LeafNode 'p "'p \<Rightarrow> 'd"

record ('d, 'p) node_ext =
  n_view :: "'d \<Rightarrow> ('d, 'p) node_view"
  n_next :: "'p \<Rightarrow> u8 option \<times> 'p"
  n_is_empty :: "'p \<Rightarrow> bool"
  n_encode :: "'d \<Rightarrow> bytes"

text \<open>
  The two \<open>while\<close> loops, as they are written: each pushes the node with what is left of its path,
  then takes a nibble away. They might not end, if \<open>next\<close> never ran out of nibbles.
\<close>

partial_function (option) extension_variants ::
    "('d, 'p) node_ext \<Rightarrow> ('p \<Rightarrow> 'd) \<Rightarrow> 'p \<Rightarrow> 'd list \<Rightarrow> 'd list option" where
  "extension_variants nx rebuild prefix variants =
     (case n_next nx prefix of
        (Some _, prefix') \<Rightarrow> extension_variants nx rebuild prefix' (variants @ [rebuild prefix])
      | (None, _) \<Rightarrow> Some (variants @ [rebuild prefix]))"

partial_function (option) leaf_variants ::
    "('d, 'p) node_ext \<Rightarrow> ('p \<Rightarrow> 'd) \<Rightarrow> 'p \<Rightarrow> 'd list \<Rightarrow> 'd list option" where
  "leaf_variants nx rebuild part variants =
     (let part' = snd (n_next nx part); variants' = variants @ [rebuild part]
      in if n_is_empty nx part' then Some variants' else leaf_variants nx rebuild part' variants')"

text \<open>
  The result is \<open>None\<close> when a loop does not end, and otherwise the \<open>Option<Vec<Node>>\<close> of the source.
\<close>

definition get_potential_child_nodes ::
    "('n, 'j, 'd, 't) rpc_ext \<Rightarrow> ('d, 'p) node_ext \<Rightarrow> bytes list \<Rightarrow> bytes \<Rightarrow> 'd list option option" where
  "get_potential_child_nodes ext nx pf key =
     (case map_res (\<lambda>node. bind_res (of_result (x_node_decode ext node)) (\<lambda>d. Inr (x_keccak ext node, d))) pf of
        Inl _ \<Rightarrow> Some None
      | Inr state_nodes \<Rightarrow>
          (let root = (case pf of [] \<Rightarrow> x_empty_keccak ext | r # _ \<Rightarrow> x_keccak ext r) in
           case x_trie_from_nodes ext root (hm_collect state_nodes) of
             Inl _ \<Rightarrow> Some None
           | Inr trie \<Rightarrow>
               (case x_trie_get ext trie key of
                  Inl _ \<Rightarrow> Some None
                | Inr (Some _) \<Rightarrow> Some None
                | Inr None \<Rightarrow>
                    (if pf = [] then Some None
                     else (case x_node_decode ext (last pf) of
                             Inl _ \<Rightarrow> Some None
                           | Inr final_node \<Rightarrow>
                               (case n_view nx final_node of
                                  ExtensionNode prefix rebuild \<Rightarrow>
                                    map_option Some (extension_variants nx rebuild prefix [])
                                | LeafNode part rebuild \<Rightarrow> map_option Some (leaf_variants nx rebuild part [])
                                | BranchNode \<Rightarrow> Some None))))))"

section \<open>The execution witness\<close>

record bytes_ext =
  b_address :: "address \<Rightarrow> bytes"
  b_h256 :: "h256 \<Rightarrow> bytes"

text \<open>An \<open>AccountUpdate\<close> of the pre-execution, by what is read of it.\<close>

record account_update =
  au_address :: address
  au_added_storage :: "h256 list"

definition update_keys :: "account_update list \<Rightarrow> address \<Rightarrow> h256 list" where
  "update_keys updates address =
     (case List.find (\<lambda>u. au_address u = address) updates of Some u \<Rightarrow> au_added_storage u | None \<Rightarrow> [])"

definition witness_index :: "account_update list \<Rightarrow> (address, account) hmap \<Rightarrow> (address \<times> h256 list) list" where
  "witness_index updates cache =
     map (\<lambda>(address, acc). case acc of
         Existing _ storage _ _ _ \<Rightarrow> (address, hm_keys storage)
       | NonExisting _ _ \<Rightarrow> (address, update_keys updates address)) cache"

text \<open>\<open>unwrap\<close> on a \<open>Result\<close>: an error becomes a panic.\<close>

definition unwrapped :: "('s, 'a) act \<Rightarrow> ('s, 'a) act" where
  "unwrapped m = (\<lambda>s. case m s of
       (Inl (Error e), t) \<Rightarrow> (Inl (Panic (''called Result::unwrap() on an Err value: '' @ e)), t)
     | r \<Rightarrow> r)"

text \<open>The nodes of the potential children of one proof; a loop without end is the result \<open>None\<close>.\<close>

definition child_nodes :: "('n, 'j, 'd, 't) rpc_ext \<Rightarrow> ('d, 'p) node_ext \<Rightarrow> bytes list \<Rightarrow> bytes \<Rightarrow> bytes list option" where
  "child_nodes ext nx pf key =
     (case get_potential_child_nodes ext nx pf key of
        None \<Rightarrow> None
      | Some None \<Rightarrow> Some []
      | Some (Some nodes) \<Rightarrow> Some (map (n_encode nx) nodes))"

text \<open>The concatenation of all, if each of them ends.\<close>

fun concat_all :: "'a list option list \<Rightarrow> 'a list option" where
  "concat_all [] = Some []"
| "concat_all (None # _) = None"
| "concat_all (Some xs # rest) = map_option (\<lambda>ys. xs @ ys) (concat_all rest)"

definition account_child_nodes ::
    "('n, 'j, 'd, 't) rpc_ext \<Rightarrow> ('d, 'p) node_ext \<Rightarrow> (address, account) hmap \<Rightarrow> bytes list option" where
  "account_child_nodes ext nx final =
     concat_all (map (\<lambda>(address, acc). child_nodes ext nx (get_account_proof acc) (x_hash_address ext address)) final)"

definition storage_child_nodes ::
    "('n, 'j, 'd, 't) rpc_ext \<Rightarrow> ('d, 'p) node_ext \<Rightarrow> (address, account) hmap \<Rightarrow> bytes list option" where
  "storage_child_nodes ext nx final =
     concat_all (map (\<lambda>(_, acc). concat_all (map (\<lambda>(key, pf). child_nodes ext nx pf (x_hash_key ext key))
       (get_storage_proofs acc))) final)"

definition witness_codes :: "(address, account) hmap \<Rightarrow> bytes list" where
  "witness_codes initial =
     List.map_filter (\<lambda>(_, acc). case acc of
         Existing _ _ _ _ code \<Rightarrow> Some (case code of Some c \<Rightarrow> c | None \<Rightarrow> [])
       | NonExisting _ _ \<Rightarrow> None) initial"

definition witness_keys :: "bytes_ext \<Rightarrow> (address, account) hmap \<Rightarrow> bytes list" where
  "witness_keys bx initial =
     concat (List.map_filter (\<lambda>(address, acc). case acc of
         Existing _ storage _ _ _ \<Rightarrow> Some (b_address bx address # map (b_h256 bx) (hm_keys storage))
       | NonExisting _ _ \<Rightarrow> None) initial)"

definition witness_storage_nodes :: "account \<Rightarrow> bytes list" where
  "witness_storage_nodes acc =
     (case get_storage_proofs acc of
        (_, first # _) # _ \<Rightarrow> [first]
      | _ \<Rightarrow> []) @ concat (map (\<lambda>(_, pf). drop 1 pf) (get_storage_proofs acc))"

definition witness_nodes :: "bytes list \<Rightarrow> bytes list \<Rightarrow> (address, account) hmap \<Rightarrow> bytes list" where
  "witness_nodes account_children storage_children initial =
     (case initial of
        (_, acc) # _ \<Rightarrow> (case get_account_proof acc of first # _ \<Rightarrow> [first] | [] \<Rightarrow> [])
      | [] \<Rightarrow> []) @
     concat (map (\<lambda>(_, acc). drop 1 (get_account_proof acc)) initial) @ account_children @
     concat (map (\<lambda>(_, acc). witness_storage_nodes acc) initial) @ storage_children"

text \<open>The headers from the oldest block whose hash was read, or the parent, up to the parent.\<close>

definition oldest_required :: "bool \<Rightarrow> (u64, h256) hmap \<Rightarrow> u64 \<Rightarrow> u64 res" where
  "oldest_required chk hashes number =
     bind_res (sub_ovf chk number 1) (\<lambda>parent.
       Inr (case hm_keys hashes of [] \<Rightarrow> parent | n # ns \<Rightarrow> fold min ns n))"

primrec fetch_headers :: "('n, 'j, 'd, 't) rpc_ext \<Rightarrow> nat list \<Rightarrow> ('n rpc_state, bytes list) act" where
  "fetch_headers ext [] = ret []"
| "fetch_headers ext (number # rest) =
     andthen (wrap_err ''failed to fetch block header'' (get_block ext number False)) (\<lambda>blk.
     andthen (fetch_headers ext rest) (\<lambda>hs. ret (rb_header_rlp blk # hs)))"

text \<open>
  \<open>to_execution_witness\<close>. The pre-execution \<open>levm\<close>, which reads the database and yields the account
  updates, belongs to \<open>ethrex\<close>. A loop of \<open>get_potential_child_nodes\<close> without end is the result \<open>None\<close>.
\<close>

definition gather_witness ::
    "('n, 'j, 'd, 't) rpc_ext \<Rightarrow> ('d, 'p) node_ext \<Rightarrow> bytes_ext \<Rightarrow> (address, account) hmap \<Rightarrow>
     (address, account) hmap \<Rightarrow> bytes list \<Rightarrow> rpc_execution_witness option" where
  "gather_witness ext nx bx initial final headers =
     (case account_child_nodes ext nx final of
        None \<Rightarrow> None
      | Some account_children \<Rightarrow>
          (case storage_child_nodes ext nx final of
             None \<Rightarrow> None
           | Some storage_children \<Rightarrow>
               Some \<lparr>w_state = witness_nodes account_children storage_children initial,
                     w_keys = witness_keys bx initial, w_codes = witness_codes initial, w_headers = headers\<rparr>))"

definition to_execution_witness ::
    "('n, 'j, 'd, 't) rpc_ext \<Rightarrow> ('d, 'p) node_ext \<Rightarrow> bytes_ext \<Rightarrow>
     (('n rpc_state, account) act \<Rightarrow> ('n rpc_state, account) act) \<Rightarrow> bool \<Rightarrow> nat \<Rightarrow>
     (block \<Rightarrow> vm_type \<Rightarrow> ('n rpc_db, account_update list) act) \<Rightarrow> block \<Rightarrow>
     ('n rpc_db, rpc_execution_witness option) act" where
  "to_execution_witness ext nx bx policy chk rps levm blk =
     andthen (\<lambda>db. levm blk (db_vm_type db) db) (\<lambda>updates.
     andthen (\<lambda>db. (Inr (witness_index updates (db_cache db)), db)) (\<lambda>index.
     andthen (unwrapped (fetch_accounts ext policy chk rps index False)) (\<lambda>initial.
     andthen (unwrapped (fetch_accounts ext policy chk rps index True)) (\<lambda>final.
     andthen (\<lambda>db. (oldest_required chk (db_block_hashes db) (blk_number blk), db)) (\<lambda>oldest.
     andthen (on_rpc (fetch_headers ext [unat oldest..<unat (blk_number blk)])) (\<lambda>headers.
     ret (gather_witness ext nx bx initial final headers)))))))"

section \<open>Lemmas on the dummy nodes\<close>

lemma or_inserts:
  "map_of (fold (\<lambda>k m. hm_or_insert k d m) ks m) k =
     (case map_of m k of Some v \<Rightarrow> Some v | None \<Rightarrow> if k \<in> set ks then Some d else None)"
  by (induction ks arbitrary: m) (auto simp: hm_get_or_insert split: option.splits)

lemma insert_dummies_get:
  "map_of (fold (\<lambda>key m. if length key > 64 then m
            else fold (\<lambda>child m. hm_or_insert child dummy m) (nibble_children key) m) keys m) k =
     (case map_of m k of Some v \<Rightarrow> Some v
      | None \<Rightarrow> if \<exists>key \<in> set keys. length key \<le> 64 \<and> k \<in> set (nibble_children key) then Some dummy else None)"
  by (induction keys arbitrary: m) (auto simp: or_inserts split: option.splits if_splits)

lemma insert_dummies_wf: "hm_wf m \<Longrightarrow> hm_wf (insert_dummies dummy m)"
proof -
  have one: "hm_wf m \<Longrightarrow> hm_wf (fold (\<lambda>child m. hm_or_insert child dummy m) ks m)" for ks m
    by (induction ks arbitrary: m) auto
  have "hm_wf m \<Longrightarrow> hm_wf (fold (\<lambda>key m. if length key > 64 then m
            else fold (\<lambda>child m. hm_or_insert child dummy m) (nibble_children key) m) ks m)" for ks m
    by (induction ks arbitrary: m) (auto simp: one)
  then show "hm_wf m \<Longrightarrow> hm_wf (insert_dummies dummy m)" by (simp add: insert_dummies_def)
qed

lemma nibble_children_iff: "k \<in> set (nibble_children key) \<longleftrightarrow> (\<exists>d :: u8. d < 16 \<and> k = key @ [d])"
proof
  assume "k \<in> set (nibble_children key)"
  then obtain i :: nat where "i < 16" "k = key @ [of_nat i]" by (auto simp: nibble_children_def)
  moreover have "(of_nat i :: u8) < 16" using \<open>i < 16\<close>
    by (simp add: word_less_nat_alt unat_of_nat)
  ultimately show "\<exists>d :: u8. d < 16 \<and> k = key @ [d]" by blast
next
  assume "\<exists>d :: u8. d < 16 \<and> k = key @ [d]"
  then obtain d :: u8 where d: "d < 16" "k = key @ [d]" by blast
  then have "unat d < 16" by (simp add: word_less_nat_alt)
  then show "k \<in> set (nibble_children key)"
    by (force simp: nibble_children_def d(2) image_iff intro!: bexI [of _ "unat d"])
qed

text \<open>
  C30. \<open>get_trie_nodes_with_dummies\<close> only fills gaps: every node that is known keeps its value, a missing
  child of a known path of at most 64 nibbles becomes the dummy branch, and nothing else is added.
\<close>

theorem dummies_fill_gaps:
  "map_of (snd (get_trie_nodes_with_dummies from_hex dummy node_map)) key =
     (case map_of node_map key of
        Some v \<Rightarrow> Some v
      | None \<Rightarrow> (if \<exists>path \<in> set (hm_keys node_map). length path \<le> 64 \<and> (\<exists>d :: u8. d < 16 \<and> key = path @ [d])
                 then Some dummy else None))"
  unfolding get_trie_nodes_with_dummies_def Let_def snd_conv insert_dummies_def insert_dummies_get nibble_children_iff ..

section \<open>Lemmas on the potential child nodes\<close>

text \<open>
  The documented behaviour of \<open>Nibbles\<close>: \<open>next\<close> takes the first nibble away and returns it, or returns
  nothing when there is none; \<open>is_empty\<close> says whether there is none.
\<close>

definition nibbles_ok :: "('d, 'p) node_ext \<Rightarrow> ('p \<Rightarrow> nibbles) \<Rightarrow> bool" where
  "nibbles_ok nx to_list \<longleftrightarrow>
     (\<forall>p. n_is_empty nx p \<longleftrightarrow> to_list p = []) \<and>
     (\<forall>p. case to_list p of [] \<Rightarrow> n_next nx p = (None, p)
        | d # ds \<Rightarrow> fst (n_next nx p) = Some d \<and> to_list (snd (n_next nx p)) = ds)"

lemma next_Nil: "nibbles_ok nx to_list \<Longrightarrow> to_list p = [] \<Longrightarrow> n_next nx p = (None, p)"
proof -
  assume "nibbles_ok nx to_list" "to_list p = []"
  moreover from this(1) have "case to_list p of [] \<Rightarrow> n_next nx p = (None, p)
      | d # ds \<Rightarrow> fst (n_next nx p) = Some d \<and> to_list (snd (n_next nx p)) = ds"
    by (simp add: nibbles_ok_def)
  ultimately show ?thesis by simp
qed

lemma next_Cons: "nibbles_ok nx to_list \<Longrightarrow> to_list p = d # ds \<Longrightarrow> \<exists>p'. n_next nx p = (Some d, p') \<and> to_list p' = ds"
proof -
  assume "nibbles_ok nx to_list" "to_list p = d # ds"
  moreover from this(1) have "case to_list p of [] \<Rightarrow> n_next nx p = (None, p)
      | d # ds \<Rightarrow> fst (n_next nx p) = Some d \<and> to_list (snd (n_next nx p)) = ds"
    by (simp add: nibbles_ok_def)
  ultimately show ?thesis by (cases "n_next nx p") simp
qed

lemma extension_variants_total:
  assumes "nibbles_ok nx to_list"
  shows "\<exists>ps. extension_variants nx rebuild p acc = Some (acc @ map rebuild ps) \<and>
    map to_list ps = map (\<lambda>i. drop i (to_list p)) [0..<Suc (length (to_list p))]"
proof (induction "to_list p" arbitrary: p acc)
  case Nil
  then show ?case
    by (intro exI [of _ "[p]"]) (simp add: extension_variants.simps [of nx rebuild p] next_Nil [OF assms])
next
  case (Cons d ds)
  obtain p' where p': "n_next nx p = (Some d, p')" "to_list p' = ds" using next_Cons [OF assms] Cons.hyps(2) by metis
  obtain ps where ps: "extension_variants nx rebuild p' (acc @ [rebuild p]) = Some ((acc @ [rebuild p]) @ map rebuild ps)"
    "map to_list ps = map (\<lambda>i. drop i (to_list p')) [0..<Suc (length (to_list p'))]"
    using Cons.hyps(1) [OF p'(2) [symmetric], of "acc @ [rebuild p]"] by blast
  have "map (\<lambda>i. drop i (to_list p)) [0..<Suc (length (to_list p))]
      = to_list p # map (\<lambda>i. drop i ds) [0..<Suc (length ds)]"
    unfolding Cons.hyps(2) [symmetric] by (simp add: map_upt_Suc del: upt_Suc)
  then show ?case
    by (intro exI [of _ "p # ps"])
      (simp add: extension_variants.simps [of nx rebuild p] p' ps(1) ps(2) del: upt_Suc)
qed

lemma leaf_variants_total:
  assumes "nibbles_ok nx to_list" "to_list p \<noteq> []"
  shows "\<exists>ps. leaf_variants nx rebuild p acc = Some (acc @ map rebuild ps) \<and>
    map to_list ps = map (\<lambda>i. drop i (to_list p)) [0..<length (to_list p)]"
  using assms(2)
proof (induction "to_list p" arbitrary: p acc)
  case Nil
  then show ?case by simp
next
  case (Cons d ds)
  obtain p' where p': "n_next nx p = (Some d, p')" "to_list p' = ds" using next_Cons [OF assms(1)] Cons.hyps(2) by metis
  have empty: "n_is_empty nx p' \<longleftrightarrow> ds = []" using assms(1) p'(2) by (simp add: nibbles_ok_def)
  have split: "map (\<lambda>i. drop i (to_list p)) [0..<length (to_list p)] = to_list p # map (\<lambda>i. drop i ds) [0..<length ds]"
    unfolding Cons.hyps(2) [symmetric] by (simp add: map_upt_Suc del: upt_Suc)
  show ?case
  proof (cases "ds = []")
    case True
    then show ?thesis
      by (intro exI [of _ "[p]"])
        (use split in \<open>simp add: leaf_variants.simps [of nx rebuild p] p' empty Cons.hyps(2) [symmetric]\<close>)
  next
    case False
    obtain ps where ps: "leaf_variants nx rebuild p' (acc @ [rebuild p]) = Some ((acc @ [rebuild p]) @ map rebuild ps)"
      "map to_list ps = map (\<lambda>i. drop i (to_list p')) [0..<length (to_list p')]"
      using Cons.hyps(1) [OF p'(2) [symmetric], of "acc @ [rebuild p]"] False p'(2) by blast
    show ?thesis
      by (intro exI [of _ "p # ps"])
        (simp add: leaf_variants.simps [of nx rebuild p] p' empty False ps(1) ps(2) split)
  qed
qed

lemma leaf_variants_empty:
  assumes "nibbles_ok nx to_list" "to_list p = []"
  shows "leaf_variants nx rebuild p acc = Some (acc @ [rebuild p])"
  using assms by (simp add: leaf_variants.simps [of nx rebuild p] Let_def next_Nil [OF assms] nibbles_ok_def)

text \<open>The paths that are left after 0, 1, 2, ... nibbles.\<close>

definition paths_left :: "nibbles \<Rightarrow> nat \<Rightarrow> nibbles list" where
  "paths_left path n = map (\<lambda>i. drop i path) [0..<n]"

text \<open>What the nodes are, for each kind of the last node of the proof.\<close>

definition variants_of :: "('d, 'p) node_ext \<Rightarrow> ('p \<Rightarrow> nibbles) \<Rightarrow> 'd \<Rightarrow> 'd list \<Rightarrow> bool" where
  "variants_of nx to_list d nodes \<longleftrightarrow> (case n_view nx d of
       BranchNode \<Rightarrow> False
     | ExtensionNode p rebuild \<Rightarrow>
         (\<exists>ps. nodes = map rebuild ps \<and> map to_list ps = paths_left (to_list p) (Suc (length (to_list p))))
     | LeafNode p rebuild \<Rightarrow>
         (\<exists>ps. nodes = map rebuild ps \<and> map to_list ps = paths_left (to_list p) (max 1 (length (to_list p)))))"

lemma extension_variants_ok:
  assumes "nibbles_ok nx to_list" "n_view nx d = ExtensionNode p rebuild"
  shows "\<exists>nodes. extension_variants nx rebuild p [] = Some nodes \<and> variants_of nx to_list d nodes"
  using extension_variants_total [OF assms(1), of rebuild p "[]"] assms(2)
  by (auto simp: variants_of_def paths_left_def simp del: upt_Suc)

lemma leaf_variants_ok:
  assumes "nibbles_ok nx to_list" "n_view nx d = LeafNode p rebuild"
  shows "\<exists>nodes. leaf_variants nx rebuild p [] = Some nodes \<and> variants_of nx to_list d nodes"
proof (cases "to_list p = []")
  case True
  then show ?thesis
    using leaf_variants_empty [OF assms(1) True, of rebuild "[]"] assms(2)
    by (auto simp: variants_of_def paths_left_def intro!: exI [of _ "[p]"])
next
  case False
  then have "max 1 (length (to_list p)) = length (to_list p)" by (cases "to_list p") simp_all
  then show ?thesis
    using leaf_variants_total [OF assms(1) False, of rebuild "[]"] assms(2)
    by (auto simp: variants_of_def paths_left_def simp del: upt_Suc)
qed

lemma get_potential_child_nodes_spec:
  assumes "nibbles_ok nx to_list"
  shows "\<exists>r. get_potential_child_nodes ext nx pf key = Some r \<and>
    (\<forall>nodes. r = Some nodes \<longrightarrow>
       pf \<noteq> [] \<and>
       (\<exists>state_nodes trie. proof_nodes ext pf = Inr state_nodes \<and>
          x_trie_from_nodes ext (x_keccak ext (hd pf)) state_nodes = Inr trie \<and> x_trie_get ext trie key = Inr None) \<and>
       (\<exists>d. x_node_decode ext (last pf) = Inr d \<and> variants_of nx to_list d nodes))"
proof -
  have decode: "(\<exists>m. proof_nodes ext pf = Inr m \<and> m = hm_collect ns)"
    if "map_res (\<lambda>node. bind_res (of_result (x_node_decode ext node)) (\<lambda>d. Inr (x_keccak ext node, d))) pf = Inr ns"
    for ns
  proof -
    have "list_all2 (\<lambda>node y. bind_res (of_result (x_node_decode ext node)) (\<lambda>d. Inr (x_keccak ext node, d)) = Inr y) pf ns"
      using that by (simp add: map_res_Inr_iff)
    then have "list_all2 (\<lambda>node y. bind_res (case x_node_decode ext node of
          Inl _ \<Rightarrow> Inl (Error ''Failed to decode node'') | Inr d \<Rightarrow> Inr d) (\<lambda>d. Inr (x_keccak ext node, d)) = Inr y) pf ns"
      by (rule list_all2_mono) (auto simp: res_simps)
    then show ?thesis by (simp add: proof_nodes_def map_res_Inr_iff [symmetric])
  qed
  show ?thesis
  proof (cases "map_res (\<lambda>node. bind_res (of_result (x_node_decode ext node)) (\<lambda>d. Inr (x_keccak ext node, d))) pf")
    case (Inl e)
    then show ?thesis by (simp add: get_potential_child_nodes_def)
  next
    case ns: (Inr ns)
    let ?root = "case pf of [] \<Rightarrow> x_empty_keccak ext | r # _ \<Rightarrow> x_keccak ext r"
    show ?thesis
    proof (cases "pf = [] \<or> (\<exists>e. x_trie_from_nodes ext ?root (hm_collect ns) = Inl e) \<or>
        (\<exists>tr. x_trie_from_nodes ext ?root (hm_collect ns) = Inr tr \<and> x_trie_get ext tr key \<noteq> Inr None) \<or>
        (\<exists>e. x_node_decode ext (last pf) = Inl e)")
      case True
      then show ?thesis using ns
        by (auto simp: get_potential_child_nodes_def Let_def split: sum.splits option.splits)
    next
      case False
      then obtain tr d where tr: "x_trie_from_nodes ext ?root (hm_collect ns) = Inr tr" "x_trie_get ext tr key = Inr None"
        and d: "x_node_decode ext (last pf) = Inr d" and nonempty: "pf \<noteq> []"
        by (metis sum.exhaust)
      have root: "?root = x_keccak ext (hd pf)" using nonempty by (cases pf) simp_all
      show ?thesis
        using ns tr d nonempty root decode [OF ns]
          extension_variants_ok [OF assms, of d] leaf_variants_ok [OF assms, of d]
        by (cases "n_view nx d") (auto simp: get_potential_child_nodes_def Let_def)
    qed
  qed
qed

text \<open>
  C29. \<open>get_potential_child_nodes\<close> ends for every proof, and returns nodes only for a proof of
  exclusion (the trie of its nodes has no value at the key) whose last node is an extension or a
  leaf. For an extension they are the node with every rest of its prefix, the empty one
  included; for a leaf the node with every rest of its path that keeps at least the last nibble,
  the leaf flag.
\<close>

theorem potential_child_nodes_total:
  assumes "nibbles_ok nx to_list"
  shows "\<exists>r. get_potential_child_nodes ext nx pf key = Some r \<and>
    (\<forall>nodes. r = Some nodes \<longrightarrow>
       pf \<noteq> [] \<and>
       (\<exists>state_nodes trie. proof_nodes ext pf = Inr state_nodes \<and>
          x_trie_from_nodes ext (x_keccak ext (hd pf)) state_nodes = Inr trie \<and> x_trie_get ext trie key = Inr None) \<and>
       (\<exists>d. x_node_decode ext (last pf) = Inr d \<and> variants_of nx to_list d nodes))"
  using assms by (rule get_potential_child_nodes_spec)


definition list_nodes :: "(bytes, nibbles) node_ext" where
  "list_nodes =
     \<lparr>n_view = (\<lambda>d. if d = [0] then LeafNode [1, 2, 16] (\<lambda>p. 32 # p) else BranchNode),
      n_next = (\<lambda>p. case p of [] \<Rightarrow> (None, []) | d # ds \<Rightarrow> (Some d, ds)),
      n_is_empty = (\<lambda>p. p = []), n_encode = (\<lambda>d. d)\<rparr>"

lemma list_nodes_ok: "nibbles_ok list_nodes (\<lambda>p. p)"
  by (auto simp: nibbles_ok_def list_nodes_def split: list.split)

lemma list_nodes_variants:
  "variants_of list_nodes (\<lambda>p. p) [0] nodes \<Longrightarrow> nodes = [[32, 1, 2, 16], [32, 2, 16], [32, 16]]"
  by (auto simp: variants_of_def list_nodes_def paths_left_def)

lemma list_nodes_run:
  "get_potential_child_nodes example_ext list_nodes [[0]] key = Some (Some [[32, 1, 2, 16], [32, 2, 16], [32, 16]])"
  by (simp add: get_potential_child_nodes_def hm_collect_def hm_extend_def list_nodes_def leaf_variants.simps Let_def)

theorem potential_child_nodes_total_witness:
  "\<exists>r. get_potential_child_nodes example_ext list_nodes [[0]] [9] = Some r \<and>
     r = Some [[32, 1, 2, 16], [32, 2, 16], [32, 16]] \<and>
     variants_of list_nodes (\<lambda>p. p) [0] [[32, 1, 2, 16], [32, 2, 16], [32, 16]]"
  using potential_child_nodes_total [OF list_nodes_ok, of example_ext "[[0]]" "[9]"] list_nodes_run [of "[9]"] by simp

section \<open>The witness is complete\<close>

text \<open>
  The code pushes the first node of only one account proof, and of one storage proof per account.
  That loses nothing when the proofs are of one trie: their first node is its root.
\<close>

definition roots_agree :: "bytes list list \<Rightarrow> bool" where
  "roots_agree proofs \<longleftrightarrow> (\<forall>p \<in> set proofs. p \<noteq> []) \<and> (\<forall>p \<in> set proofs. \<forall>q \<in> set proofs. hd p = hd q)"

lemma roots_agree_drop:
  assumes "roots_agree (p # ps)" "q \<in> set (p # ps)"
  shows "set q \<subseteq> insert (hd p) (set (concat (map (drop 1) (p # ps))))"
proof -
  have "q \<noteq> []" "hd q = hd p" using assms by (auto simp: roots_agree_def)
  then have "set q = insert (hd p) (set (drop 1 q))" by (cases q) simp_all
  then show ?thesis using assms(2) by auto
qed

lemma storage_nodes_complete:
  assumes "roots_agree (map snd (get_storage_proofs acc))" "(k, pf) \<in> set (get_storage_proofs acc)"
  shows "set pf \<subseteq> set (witness_storage_nodes acc)"
proof (cases "get_storage_proofs acc")
  case Nil
  then show ?thesis using assms by simp
next
  case (Cons kp rest)
  obtain k0 p0 where kp: "kp = (k0, p0)" by (cases kp)
  have mem: "pf \<in> set (p0 # map snd rest)" using assms(2) Cons kp by force
  have agree: "roots_agree (p0 # map snd rest)" using assms(1) Cons kp by simp
  then obtain r0 p1 where p0: "p0 = r0 # p1" by (cases p0) (auto simp: roots_agree_def)
  have nodes: "witness_storage_nodes acc = r0 # concat (map (drop 1) (p0 # map snd rest))"
    by (simp add: witness_storage_nodes_def Cons kp p0 o_def case_prod_unfold)
  show ?thesis using roots_agree_drop [OF agree mem] unfolding nodes p0 by simp
qed

lemma account_nodes_complete:
  assumes "roots_agree (map (\<lambda>(a, acc). get_account_proof acc) initial)" "(a, acc) \<in> set initial"
  shows "set (get_account_proof acc) \<subseteq> set (witness_nodes acs scs initial)"
proof (cases initial)
  case Nil
  then show ?thesis using assms by simp
next
  case (Cons kp rest)
  let ?f = "\<lambda>(a :: address, acc). get_account_proof acc"
  obtain a0 acc0 where kp: "kp = (a0, acc0)" by (cases kp)
  have mem: "get_account_proof acc \<in> set (get_account_proof acc0 # map ?f rest)"
    using assms(2) Cons kp by force
  have agree: "roots_agree (get_account_proof acc0 # map ?f rest)" using assms(1) Cons kp by simp
  then obtain r0 p1 where p0: "get_account_proof acc0 = r0 # p1"
    by (cases "get_account_proof acc0") (auto simp: roots_agree_def)
  have "concat (map (\<lambda>(_, acc). drop 1 (get_account_proof acc)) initial)
      = concat (map (drop 1) (get_account_proof acc0 # map ?f rest))"
    by (simp add: Cons kp o_def case_prod_unfold)
  then have sub: "insert r0 (set (concat (map (drop 1) (get_account_proof acc0 # map ?f rest))))
      \<subseteq> set (witness_nodes acs scs initial)"
    by (simp add: witness_nodes_def Cons kp p0 case_prod_unfold o_def) blast
  have hd_r0: "hd (get_account_proof acc0) = r0" by (simp add: p0)
  show ?thesis by (rule order_trans [OF roots_agree_drop [OF agree mem, unfolded hd_r0] sub])
qed

lemma gather_fields:
  assumes "gather_witness ext nx bx initial final headers = Some w"
  shows "\<exists>acs scs. account_child_nodes ext nx final = Some acs \<and> storage_child_nodes ext nx final = Some scs \<and>
    w = \<lparr>w_state = witness_nodes acs scs initial, w_keys = witness_keys bx initial,
        w_codes = witness_codes initial, w_headers = headers\<rparr>"
  using assms by (auto simp: gather_witness_def split: option.splits)

lemma concat_all_Some: "\<forall>x \<in> set xs. x \<noteq> None \<Longrightarrow> concat_all xs \<noteq> None"
  by (induction xs rule: concat_all.induct) auto

lemma child_nodes_total: "nibbles_ok nx to_list \<Longrightarrow> child_nodes ext nx pf key \<noteq> None"
  using get_potential_child_nodes_spec [of nx to_list ext pf key]
  by (auto simp: child_nodes_def split: option.split)

lemma gather_witness_total: "nibbles_ok nx to_list \<Longrightarrow> gather_witness ext nx bx initial final headers \<noteq> None"
proof -
  assume nx: "nibbles_ok nx to_list"
  have "account_child_nodes ext nx final \<noteq> None"
    unfolding account_child_nodes_def by (rule concat_all_Some) (simp add: child_nodes_total [OF nx] case_prod_beta del: not_None_eq)
  moreover have "storage_child_nodes ext nx final \<noteq> None"
    unfolding storage_child_nodes_def
    by (rule concat_all_Some)
      (simp add: case_prod_beta concat_all_Some child_nodes_total [OF nx] del: not_None_eq)
  ultimately show ?thesis by (auto simp: gather_witness_def split: option.split)
qed

text \<open>Everything about one account that stateless execution needs is in the witness.\<close>

definition account_in_witness :: "bytes_ext \<Rightarrow> rpc_execution_witness \<Rightarrow> address \<Rightarrow> account \<Rightarrow> bool" where
  "account_in_witness bx w a acc \<longleftrightarrow>
     set (get_account_proof acc) \<subseteq> set (w_state w) \<and>
     (\<forall>pf \<in> snd ` set (get_storage_proofs acc). set pf \<subseteq> set (w_state w)) \<and>
     (case acc of NonExisting _ _ \<Rightarrow> True
      | Existing _ storage _ _ code \<Rightarrow>
          b_address bx a \<in> set (w_keys w) \<and> b_h256 bx ` fst ` set storage \<subseteq> set (w_keys w) \<and>
          (\<forall>c. code = Some c \<longrightarrow> c \<in> set (w_codes w)))"

lemma gathered_account_in_witness:
  assumes "gather_witness ext nx bx initial final headers = Some w"
    and "roots_agree (map (\<lambda>(a, acc). get_account_proof acc) initial)"
    and "\<And>a acc. (a, acc) \<in> set initial \<Longrightarrow> roots_agree (map snd (get_storage_proofs acc))"
    and "(a, acc) \<in> set initial"
  shows "account_in_witness bx w a acc"
proof -
  obtain acs scs where w: "w = \<lparr>w_state = witness_nodes acs scs initial, w_keys = witness_keys bx initial,
      w_codes = witness_codes initial, w_headers = headers\<rparr>"
    using gather_fields [OF assms(1)] by blast
  have proof1: "set (get_account_proof acc) \<subseteq> set (w_state w)"
    unfolding w using account_nodes_complete [OF assms(2,4)] by simp
  have "set (witness_storage_nodes acc) \<subseteq> set (w_state w)"
    using assms(4) by (force simp: w witness_nodes_def)
  then have proof2: "set pf \<subseteq> set (w_state w)" if "(k, pf) \<in> set (get_storage_proofs acc)" for k pf
    using storage_nodes_complete [OF assms(3) [OF assms(4)] that] by blast
  have member: "x \<in> set (List.map_filter f initial)" if "f (a, acc) = Some x" for f :: "_ \<Rightarrow> 'x option" and x
    using that assms(4) by (force simp: List.map_filter_def image_iff intro: bexI [of _ "(a, acc)"])
  show ?thesis
  proof (cases acc)
    case (NonExisting p sp)
    then show ?thesis using proof1 proof2 by (force simp: account_in_witness_def)
  next
    case (Existing st storage p sp code)
    have keys: "b_address bx a # map (b_h256 bx) (hm_keys storage)
        \<in> set (List.map_filter (\<lambda>(address, acc). case acc of
             Existing _ storage _ _ _ \<Rightarrow> Some (b_address bx address # map (b_h256 bx) (hm_keys storage))
           | NonExisting _ _ \<Rightarrow> None) initial)"
      by (rule member) (simp add: Existing)
    have "(case code of Some c \<Rightarrow> c | None \<Rightarrow> []) \<in> set (w_codes w)"
      unfolding w by (simp add: witness_codes_def) (rule member, simp add: Existing)
    moreover have "insert (b_address bx a) (b_h256 bx ` fst ` set storage) \<subseteq> set (w_keys w)"
      using keys unfolding w by (force simp: witness_keys_def hm_keys_def)
    ultimately show ?thesis
      using proof1 proof2 Existing by (force simp: account_in_witness_def)
  qed
qed



definition example_initial :: "(address, account) hmap" where
  "example_initial =
     [(1, Existing (ca_state example_account) [(4, 7), (5, 7)] [[10], [11]]
            [(4, [[20], [21]]), (5, [[20], [22], [23]])] (Some [96])),
      (2, NonExisting [[10], [12]] [])]"

definition example_bytes :: bytes_ext where
  "example_bytes = \<lparr>b_address = (\<lambda>a. [1, ucast a]), b_h256 = (\<lambda>h. [2, ucast h])\<rparr>"


section \<open>The run of \<open>to_execution_witness\<close>\<close>

abbreviation hashes_are :: "(u64, h256) hmap \<Rightarrow> 'n rpc_db \<Rightarrow> bool" where
  "hashes_are H db \<equiv> db_block_hashes db = H"

lemma on_rpc_hashes: "triple (hashes_are H) (on_rpc m) (\<lambda>_. hashes_are H) (\<lambda>_. hashes_are H)"
  by (auto simp: triple_def zoom_def split: prod.splits sum.splits)

lemma merge_hashes:
  "triple (hashes_are H) (merge_fetched from_child fetched) (\<lambda>_. hashes_are H) (\<lambda>_. hashes_are H)"
  by (auto simp: merge_fetched_def triple_def zoom_def split: prod.splits sum.splits)

lemma hashes_frame:
  "triple (hashes_are H) (fetch_accounts ext policy chk rps index from_child)
     (\<lambda>_. hashes_are H) (\<lambda>_. hashes_are H)"
proof -
  let ?P = "hashes_are H"
  have tail: "triple ?P (if rps = 0 then throw (Panic ''chunk size must be non-zero'')
      else andthen (on_rpc (fetch_chunks ext policy rps (unat bn) [] (chunks rps index))) (\<lambda>fetched.
           andthen (merge_fetched from_child fetched) (\<lambda>_.
           andthen (on_rpc (\<lambda>s. (Inr (), s\<lparr>rs_codes := insert_codes ext fetched (rs_codes s)\<rparr>))) (\<lambda>_. ret fetched))))
      (\<lambda>_. ?P) (\<lambda>_. ?P)" for bn
    by (cases "rps = 0")
      (auto simp: throw_def intro!: triple_andthen [OF on_rpc_hashes] triple_andthen [OF merge_hashes] triple_ret)
  show ?thesis
    unfolding triple_def fetch_accounts_def
  proof (intro allI impI)
    fix db :: "'a rpc_db"
    assume P: "?P db"
    let ?r = "if from_child then Inr (db_block_number db) else sub_ovf chk (db_block_number db) 1"
    show "case andthen (lift_res ?r) (\<lambda>block_number.
         if rps = 0 then throw (Panic ''chunk size must be non-zero'')
         else andthen (on_rpc (fetch_chunks ext policy rps (unat block_number) [] (chunks rps index))) (\<lambda>fetched.
              andthen (merge_fetched from_child fetched) (\<lambda>_.
              andthen (on_rpc (\<lambda>s. (Inr (), s\<lparr>rs_codes := insert_codes ext fetched (rs_codes s)\<rparr>))) (\<lambda>_.
              ret fetched)))) db of (Inl e, t) \<Rightarrow> ?P t | (Inr m, t) \<Rightarrow> ?P t"
    proof (cases ?r)
      case (Inl e)
      show ?thesis using P unfolding Inl by (simp add: andthen_def)
    next
      case (Inr bn)
      show ?thesis unfolding Inr lift_res_def andthen_simps by (rule tripleD_case [OF tail P])
    qed
  qed
qed

lemma fold_min_le: "fold min ns n \<le> (n :: u64) \<and> (\<forall>m \<in> set ns. fold min ns n \<le> m)"
proof (induction ns arbitrary: n)
  case Nil
  then show ?case by simp
next
  case (Cons m ns)
  have "fold min ns (min m n) \<le> min m n" "\<forall>k \<in> set ns. fold min ns (min m n) \<le> k" using Cons.IH by blast+
  then show ?case by (auto intro: order_trans)
qed

lemma oldest_required_le:
  assumes "oldest_required chk hashes number = Inr oldest" "n \<in> set (hm_keys hashes)"
  shows "oldest \<le> n"
proof (cases "hm_keys hashes")
  case Nil
  then show ?thesis using assms(2) by simp
next
  case (Cons k ks)
  then have "oldest = fold min ks k" using assms(1) by (auto simp: oldest_required_def res_simps)
  then show ?thesis using fold_min_le [of ks k] assms(2) Cons by auto
qed

text \<open>The documented behaviour of \<open>eth_getBlockByNumber\<close> for the header.\<close>

definition honest_rlp :: "('n, 'j, 'd, 't) rpc_ext \<Rightarrow> (nat \<Rightarrow> bytes) \<Rightarrow> bool" where
  "honest_rlp ext header \<longleftrightarrow>
     (\<forall>number n j b. fst (x_post ext (EthGetBlockByNumber (hex_quantity number) False) n) = Inr j \<longrightarrow>
        get_result ext (x_json_block ext) j = Inr b \<longrightarrow> rb_header_rlp b = header number)"

lemma fetch_headers_Inr:
  assumes "honest_rlp ext header" "fetch_headers ext ns s = (Inr hs, t)"
  shows "hs = map header ns"
  using assms(2)
proof (induction ns arbitrary: s hs)
  case Nil
  then show ?case by simp
next
  case (Cons n ns)
  then obtain blk s1 hs' where blk: "get_block ext n False s = (Inr blk, s1)"
    and rest: "fetch_headers ext ns s1 = (Inr hs', t)" "hs = rb_header_rlp blk # hs'"
    by (auto elim!: andthen_Inr_E)
  from blk obtain j where "fst (x_post ext (EthGetBlockByNumber (hex_quantity n) False) (rs_node s)) = Inr j"
    "get_result ext (x_json_block ext) j = Inr blk"
    by (auto simp: get_block_def send_def res_simps elim!: andthen_Inr_E split: prod.splits)
  then have "rb_header_rlp blk = header n" using assms(1) unfolding honest_rlp_def by blast
  then show ?case using rest Cons.IH by simp
qed

lemma unwrapped_Inr: "unwrapped m s = (Inr x, t) \<longleftrightarrow> m s = (Inr x, t)"
  by (auto simp: unwrapped_def split: prod.splits sum.splits fault.splits)

lemma headers_gathered:
  assumes "honest_rlp ext header" "oldest_required chk hashes number = Inr oldest"
    and "on_rpc (fetch_headers ext [unat oldest..<unat number]) db = (Inr hs, db')"
  shows "hs = map header [unat oldest..<unat number]" "\<forall>n \<in> set (hm_keys hashes). oldest \<le> n"
    "hashes = [] \<longrightarrow> oldest = number - 1"
proof -
  show "hs = map header [unat oldest..<unat number]"
    using fetch_headers_Inr [OF assms(1)] assms(3) by (auto simp: zoom_def split: prod.splits)
  show "\<forall>n \<in> set (hm_keys hashes). oldest \<le> n" using oldest_required_le [OF assms(2)] by blast
  show "hashes = [] \<longrightarrow> oldest = number - 1"
    using assms(2) by (auto simp: oldest_required_def res_simps hm_keys_def sub_ovf_def split: if_splits)
qed

lemma to_execution_witness_gathers:
  assumes source: "sound_source ext policy rps v" and headers: "honest_rlp ext header"
    and levm: "triple (db_inv ext v) (\<lambda>db. levm blk (db_vm_type db) db) (\<lambda>_. db_inv ext v) (\<lambda>_. db_inv ext v)"
    and inv: "db_inv ext v db"
    and run: "to_execution_witness ext nx bx policy chk rps levm blk db = (Inr w, db')"
  shows "\<exists>updates db1 initial final oldest.
    levm blk (db_vm_type db) db = (Inr updates, db1) \<and>
    fetched_ok ext (v_pre v) (witness_index updates (db_cache db1)) initial \<and>
    fetched_ok ext (v_post v) (witness_index updates (db_cache db1)) final \<and>
    (\<forall>n \<in> set (hm_keys (db_block_hashes db1)). oldest \<le> n) \<and>
    (db_block_hashes db1 = [] \<longrightarrow> oldest = blk_number blk - 1) \<and>
    w = gather_witness ext nx bx initial final (map header [unat oldest..<unat (blk_number blk)])"
proof -
  from run obtain updates db1 initial db2 final db3 oldest hs db4 where
    pre: "levm blk (db_vm_type db) db = (Inr updates, db1)"
    and f1: "fetch_accounts ext policy chk rps (witness_index updates (db_cache db1)) False db1 = (Inr initial, db2)"
    and f2: "fetch_accounts ext policy chk rps (witness_index updates (db_cache db1)) True db2 = (Inr final, db3)"
    and old: "oldest_required chk (db_block_hashes db3) (blk_number blk) = Inr oldest"
    and hs: "on_rpc (fetch_headers ext [unat oldest..<unat (blk_number blk)]) db3 = (Inr hs, db4)"
    and w: "w = gather_witness ext nx bx initial final hs"
    unfolding to_execution_witness_def by (auto simp: unwrapped_Inr elim!: andthen_Inr_E)
  have inv1: "db_inv ext v db1" using tripleD(1) [OF levm inv pre] .
  have s1: "db_inv ext v db2 \<and> fetched_ok ext (v_pre v) (witness_index updates (db_cache db1)) initial"
    using tripleD(1) [OF fetch_accounts_triple [OF source] inv1 f1] by (simp add: v_at_def)
  have s2: "fetched_ok ext (v_post v) (witness_index updates (db_cache db1)) final"
    using tripleD(1) [OF fetch_accounts_triple [OF source] conjunct1 [OF s1] f2] by (simp add: v_at_def)
  have "db_block_hashes db2 = db_block_hashes db1" using tripleD(1) [OF hashes_frame refl f1] .
  then have same: "db_block_hashes db3 = db_block_hashes db1" using tripleD(1) [OF hashes_frame refl f2] by simp
  show ?thesis using pre s1 s2 headers_gathered [OF headers old hs] same w by auto
qed

text \<open>
  What \<open>to_execution_witness\<close> returns. From a database that agrees with the chain, for a
  pre-execution that only reads through the database: the witness is gathered from accounts that are
  true before the block and after it, one for each account that was read, with all storage keys that were
  read, and from the headers of all blocks from the oldest one whose hash was read (or the
  parent) to the parent, in order and without a gap. In particular the header of every block
  whose hash was read is in it.
\<close>

theorem execution_witness_sound:
  assumes source: "sound_source ext policy rps v" and headers: "honest_rlp ext header"
    and levm: "triple (db_inv ext v) (\<lambda>db. levm blk (db_vm_type db) db) (\<lambda>_. db_inv ext v) (\<lambda>_. db_inv ext v)"
    and inv: "db_inv ext v db"
    and run: "to_execution_witness ext nx bx policy chk rps levm blk db = (Inr w, db')"
  shows "\<exists>updates db1 initial final oldest.
    levm blk (db_vm_type db) db = (Inr updates, db1) \<and>
    fetched_ok ext (v_pre v) (witness_index updates (db_cache db1)) initial \<and>
    fetched_ok ext (v_post v) (witness_index updates (db_cache db1)) final \<and>
    (\<forall>n \<in> set (hm_keys (db_block_hashes db1)). oldest \<le> n) \<and>
    (db_block_hashes db1 = [] \<longrightarrow> oldest = blk_number blk - 1) \<and>
    w = gather_witness ext nx bx initial final (map header [unat oldest..<unat (blk_number blk)])"
  using assms by (rule to_execution_witness_gathers)


definition no_updates :: "block \<Rightarrow> vm_type \<Rightarrow> ('n rpc_db, account_update list) act" where
  "no_updates blk vm = (\<lambda>db. (Inr [], db))"

definition example_header :: "nat \<Rightarrow> bytes" where
  "example_header n = [of_nat (length (hex_quantity n))]"

lemma example_cached:
  assumes "map_of (rs_codes s) 2 = Some [96, 10]"
  shows "get_account example_ext bn 1 [4] s = (Inr (example_present_account [4]),
    s\<lparr>rs_requests := rs_requests s @ [example_request bn 1 [4]], rs_clock := rs_clock s + 1000\<rparr>)"
  using assms example_hex example_storage [of "''0x'' @ show_hex (unat (1 :: address))" "[4]"]
    example_state [of "''0x'' @ show_hex (unat (1 :: address))" "map (\<lambda>k. ''0x'' @ show_hex (unat k)) [4 :: h256]"]
  by (simp add: get_account_def send_def andthen_def get_result_def example_found o_def example_request_def, cases s)
    (simp add: example_proof_def example_found account_code_def example_account_def example_present_account_def andthen_def)

lemma example_chunk_again:
  assumes "map_of (rs_codes s) 2 = Some [96, 10]"
  shows "fetch_chunk example_ext (\<lambda>m. m) bn [(2, []), (1, [4])] s = (Inr example_fetched,
    s\<lparr>rs_requests := rs_requests s @ [example_request bn 2 [], example_request bn 1 [4]], rs_clock := rs_clock s + 2000\<rparr>)"
  using assms
  by (simp add: fetch_chunk_def andthen_def attempt_def example_absent example_cached example_hex
      hm_collect_def hm_extend_def example_fetched_def)

lemma example_again:
  assumes "map_of (rs_codes (db_rpc db)) 2 = Some [96, 10]" "db_block_number db = 8"
    and "if from_child then db_child_cache db = [] else db_cache db = example_fetched"
  shows "\<exists>db'. fetch_accounts example_ext (\<lambda>m. m) True 10 [(2, []), (1, [4])] from_child db = (Inr example_fetched, db') \<and>
    map_of (rs_codes (db_rpc db')) 2 = Some [96, 10] \<and> db_block_number db' = 8 \<and>
    db_child_cache db' = (if from_child then example_fetched else db_child_cache db) \<and>
    db_block_hashes db' = db_block_hashes db"
  using assms
  by (cases from_child)
    (simp_all add: fetch_accounts_def example_chunks sub_ovf_def andthen_def zoom_def example_chunk_again cooldown_def
      rate_limit_def hm_extend_def merge_fetched_def,
     simp_all add: example_fetched_def merge_one_def example_absent_account_def example_present_account_def andthen_def
      hm_collect_def hm_extend_def update_conv')

lemma example_witness_run:
  "\<exists>w db'. to_execution_witness example_ext list_nodes example_bytes (\<lambda>m. m) True 10 no_updates example_block8 example_db
     = (Inr w, db')"
proof -
  have index: "witness_index [] (db_cache example_db) = [(2, []), (1, [4])]"
    by (simp add: witness_index_def example_db_def example_fetched_def example_absent_account_def
        example_present_account_def update_keys_def hm_keys_def hm_collect_def hm_extend_def)
  have start: "map_of (rs_codes (db_rpc example_db)) 2 = Some [96, 10]" "db_block_number example_db = 8"
    "db_cache example_db = example_fetched" "db_child_cache example_db = []" "db_block_hashes example_db = []"
    by (simp_all add: example_db_def example_remote_after_def)
  obtain db1 where db1: "fetch_accounts example_ext (\<lambda>m. m) True 10 [(2, []), (1, [4])] False example_db = (Inr example_fetched, db1)"
    "map_of (rs_codes (db_rpc db1)) 2 = Some [96, 10]" "db_block_number db1 = 8" "db_child_cache db1 = []" "db_block_hashes db1 = []"
    using example_again [of example_db False] start by auto
  obtain db2 where db2: "fetch_accounts example_ext (\<lambda>m. m) True 10 [(2, []), (1, [4])] True db1 = (Inr example_fetched, db2)"
    "db_block_hashes db2 = []"
    using example_again [of db1 True] db1 by auto
  show ?thesis
    by (simp add: to_execution_witness_def no_updates_def andthen_def index unwrapped_def db1 db2 oldest_required_def
        sub_ovf_def hm_keys_def example_block8_def zoom_def wrap_err_def map_err_def get_block_def send_def get_result_def)
qed

theorem execution_witness_sound_witness:
  "\<exists>initial final w db'.
     to_execution_witness example_ext list_nodes example_bytes (\<lambda>m. m) True 10 no_updates example_block8 example_db = (Inr w, db') \<and>
     fetched_ok example_ext example_chain [(2, []), (1, [4])] initial \<and>
     fetched_ok example_ext example_chain [(2, []), (1, [4])] final \<and>
     w = gather_witness example_ext list_nodes example_bytes initial final [example_header 7]"
proof -
  obtain w db' where run: "to_execution_witness example_ext list_nodes example_bytes (\<lambda>m. m) True 10 no_updates
      example_block8 example_db = (Inr w, db')"
    using example_witness_run by blast
  have rlp: "honest_rlp example_ext example_header"
    by (auto simp: honest_rlp_def get_result_def example_header_def)
  have levm: "triple (db_inv example_ext example_view) (\<lambda>db. no_updates example_block8 (db_vm_type db) db)
      (\<lambda>_. db_inv example_ext example_view) (\<lambda>_. db_inv example_ext example_view)"
    by (simp add: no_updates_def triple_def)
  have inv: "db_inv example_ext example_view example_db"
    using with_cache_ok [OF example_source, where r = "Inr ()" and remote = example_remote and blk = example_block8]
      example_with_cache by (simp add: example_view_def)
  have index: "witness_index [] (db_cache example_db) = [(2, []), (1, [4])]"
    by (simp add: witness_index_def example_db_def example_fetched_def example_absent_account_def
        example_present_account_def update_keys_def hm_keys_def hm_collect_def hm_extend_def)
  have no_hashes: "db_block_hashes example_db = []" by (simp add: example_db_def)
  show ?thesis
    using execution_witness_sound [OF example_source rlp levm inv run] run
    by (auto simp: no_updates_def index no_hashes example_view_def example_block8_def)
qed

end
