(* ===== verification/World_Example.thy ===== *)
theory World_Example
  imports World Rpc_Example Trie_Witness
begin

text \<open>
  A concrete environment, on which the properties of the commands are instantiated. Files hold what was
  written to them. The outside is the number of the latest block of the node; it grows by one
  every 12 seconds. The node has every block, empty, and an empty witness for it; the backend takes
  2 seconds to execute and 60 to prove.
\<close>

datatype content = CacheFile cache | BenchFile bench_entry | InputFile "u64 program_input" | OtherFile string

definition empty_witness :: rpc_execution_witness where
  "empty_witness = \<lparr>w_state = [], w_keys = [], w_codes = [], w_headers = []\<rparr>"

definition chain_id_of :: "network \<Rightarrow> u64" where
  "chain_id_of net = (case net of
       PublicNetwork Mainnet \<Rightarrow> 1 | PublicNetwork Holesky \<Rightarrow> 17000 | PublicNetwork Hoodi \<Rightarrow> 560048
     | PublicNetwork Sepolia \<Rightarrow> 11155111 | L2Chain n \<Rightarrow> n | _ \<Rightarrow> 9)"

definition example_env :: "(nat, block, u64, content) env" where
  "example_env =
     \<lparr>en_ids = example_ids, en_feats = no_features, en_chk = True, en_show_net = injective_net,
      en_get_genesis = (\<lambda>net. Inr \<lparr>gen_config = \<lparr>cc_chain_id = chain_id_of net\<rparr>, gen_timestamp = 0, gen_alloc = []\<rparr>),
      en_to_json = (\<lambda>c. (CacheFile (c\<lparr>c_dir := []\<rparr>), None)),
      en_from_json = (\<lambda>f. case f of CacheFile c \<Rightarrow> Inr c | _ \<Rightarrow> Inl ''not a cache''),
      en_bench_json = (\<lambda>b. (BenchFile b, None)),
      en_rkyv = (\<lambda>i. Inr (InputFile i)),
      en_client_new = (\<lambda>url. Inr \<lparr>ec_urls = [url]\<rparr>),
      en_chain_id = (\<lambda>_ n. (Inr 1, 0, n)),
      en_block_number = (\<lambda>_ n. (Inr (of_nat n), 0, n)),
      en_block_by_number = (\<lambda>_ number n. (Inr (example_block number), 0, n)),
      en_to_block = Inr,
      en_witness = (\<lambda>_ _ _ n. (Inr empty_witness, 0, n)),
      en_batch = (\<lambda>_ number n.
        (Inr \<lparr>ba_first_block = number * 10, ba_last_block = number * 10 + 1, ba_commitments = [], ba_proofs = []\<rparr>, 0, n)),
      en_exec_witness = (\<lambda>_ _ number. Inr number),
      en_execute = (\<lambda>_ _ n. (Returned (Inr (2 * 10 ^ 9)), 2 * 10 ^ 9, n)),
      en_prove = (\<lambda>_ _ _ n. (Returned (Inr (60 * 10 ^ 9)), 60 * 10 ^ 9, n)),
      en_slack_post = (\<lambda>_ _ n. (Inr (), 0, n)),
      en_sleep = (\<lambda>secs n. n + secs div 12),
      en_host = \<lparr>hi_gpu = None, hi_cpu = Some ''cpu'', hi_ram = None, hi_branch = None, hi_commit = None\<rparr>,
      en_elasticity_multiplier = 2, en_block_size = 100\<rparr>"

text \<open>The same environment in a build for L2.\<close>

definition l2_env :: "(nat, block, u64, content) env" where
  "l2_env = example_env\<lparr>en_feats := no_features\<lparr>feat_l2 := True\<rparr>\<rparr>"

lemma example_env_simps [simp]:
  "en_ids example_env = example_ids" "en_feats example_env = no_features" "en_chk example_env"
  "en_show_net example_env = injective_net"
  "en_get_genesis example_env net = Inr \<lparr>gen_config = \<lparr>cc_chain_id = chain_id_of net\<rparr>, gen_timestamp = 0, gen_alloc = []\<rparr>"
  "en_to_json example_env c = (CacheFile (c\<lparr>c_dir := []\<rparr>), None)"
  "en_from_json example_env (CacheFile c) = Inr c"
  "en_bench_json example_env b = (BenchFile b, None)" "en_rkyv example_env i = Inr (InputFile i)"
  "en_client_new example_env url = Inr \<lparr>ec_urls = [url]\<rparr>"
  "en_chain_id example_env client n = (Inr 1, 0, n)"
  "en_block_number example_env client n = (Inr (of_nat n), 0, n)"
  "en_block_by_number example_env client number n = (Inr (example_block number), 0, n)"
  "en_to_block example_env = Inr"
  "en_witness example_env client from_number to_number n = (Inr empty_witness, 0, n)"
  "en_exec_witness example_env wit cfg number = Inr number"
  "en_execute example_env be inp n = (Returned (Inr (2 * 10 ^ 9)), 2 * 10 ^ 9, n)"
  "en_prove example_env be inp f n = (Returned (Inr (60 * 10 ^ 9)), 60 * 10 ^ 9, n)"
  "en_slack_post example_env url m n = (Inr (), 0, n)"
  "en_sleep example_env secs n = n + secs div 12"
  by (simp_all add: example_env_def)

definition example_world :: "nat \<Rightarrow> (nat, content) world" where
  "example_world latest = \<lparr>wd_fs = empty_fs,
     wd_remote = \<lparr>rs_codes = [], rs_node = latest, rs_requests = [], rs_clock = 0\<rparr>, wd_events = []\<rparr>"

definition online_opts :: replay_options where
  "online_opts = \<lparr>o_common = common_default, o_rpc_url = Some ''http://node'', o_cached = False, o_network = None,
     o_cache_dir = [''replay_cache''], o_cache_level = CacheOn, o_slack_url = None, o_no_zkvm = False, o_repeat = 1,
     o_bench = False, o_notification_level = NotifyFailed\<rparr>"

definition offline_opts :: replay_options where
  "offline_opts = online_opts\<lparr>o_rpc_url := None, o_cached := True, o_network := Some (PublicNetwork Mainnet)\<rparr>"

lemma opts_ok: "replay_options_ok online_opts" "replay_options_ok offline_opts"
  by (simp_all add: replay_options_ok_def online_opts_def offline_opts_def common_default_def)

end
