(* ===== verification/Fetcher.thy ===== *)
theory Fetcher
  imports Runner World_Example
begin

text \<open>
  \<open>src/fetcher.rs\<close>, with \<open>setup_rpc\<close> of \<open>src/cli.rs\<close>: the cache for a block or a batch, from disk or from a node,
  with the fallback on \<open>RpcDB\<close> when the node has no \<open>debug_executionWitness\<close>.

  The log level of \<open>main\<close> is \<open>INFO\<close>, so the arguments of \<open>info!\<close> are evaluated. \<open>SystemTime::elapsed\<close> fails only
  when the clock of the machine is set back; the time of the model does not go back.
\<close>

section \<open>The fallback\<close>

text \<open>What the fallback uses of other crates; \<open>fb_rpc\<close> is the transport to a URL.\<close>

record ('n, 'j, 'd, 't, 'p) fallback_ext =
  fb_rpc :: "string \<Rightarrow> ('n, 'j, 'd, 't) rpc_ext"
  fb_nodes :: "('d, 'p) node_ext"
  fb_bytes :: bytes_ext
  fb_policy :: "('n rpc_state, account) act \<Rightarrow> ('n rpc_state, account) act"
  fb_rps :: nat
  fb_levm :: "block \<Rightarrow> vm_type \<Rightarrow> ('n rpc_db, account_update list) act"

text \<open>
  The two steps on a fresh database. \<open>None\<close> is a loop of \<open>get_potential_child_nodes\<close> without end,
  which \<open>potential_child_nodes_total\<close> excludes; it has the last branch to itself.
\<close>

definition fallback_witness ::
    "('n, 'j, 'd, 't, 'p) fallback_ext \<Rightarrow> bool \<Rightarrow> string \<Rightarrow> chain_config \<Rightarrow> u64 \<Rightarrow> block \<Rightarrow> vm_type \<Rightarrow>
     ('n rpc_state, rpc_execution_witness) act" where
  "fallback_witness fb chk url cfg number blk vm = (\<lambda>remote.
     case wrap_err ''failed to create rpc db''
         (\<lambda>_. with_cache (fb_rpc fb url) (fb_policy fb) chk (fb_rps fb) remote cfg number blk vm)
         (rpc_db_new remote cfg number vm) of
       (Inl e, db) \<Rightarrow> (Inl e, db_rpc db)
     | (Inr _, db) \<Rightarrow>
         (case wrap_err ''failed to build execution db''
             (to_execution_witness (fb_rpc fb url) (fb_nodes fb) (fb_bytes fb) (fb_policy fb) chk (fb_rps fb)
               (fb_levm fb) blk) db of
            (Inl e, db') \<Rightarrow> (Inl e, db_rpc db')
          | (Inr (Some w), db') \<Rightarrow> (Inr w, db_rpc db')
          | (Inr None, db') \<Rightarrow> (Inl (Panic ''does not end''), db_rpc db')))"

section \<open>One block\<close>

definition setup_rpc ::
    "('n, 'b, 'e, 'c) env \<Rightarrow> replay_options \<Rightarrow> (('n, 'c) world, eth_client \<times> network) act" where
  "setup_rpc env opts =
     andthen (lift_res (unwrap (o_rpc_url opts))) (\<lambda>url.
     andthen (lift_res (of_result (en_client_new env url))) (\<lambda>client.
     andthen (call (en_chain_id env client)) (\<lambda>id.
     andthen (lift_res (as_u64 id)) (\<lambda>chain_id.
       ret (client, network_from_chain_id (en_ids env) (en_feats env) chain_id)))))"

fun requested_number :: "block_identifier \<Rightarrow> u64 \<Rightarrow> u64 res" where
  "requested_number (BlockNumber n) latest = Inr n"
| "requested_number TagLatest latest = Inr latest"
| "requested_number TagOther latest = Inl (Panic ''not implemented: Only latest block tag is supported'')"

definition block_from_rpc :: "('n, 'b, 'e, 'c) env \<Rightarrow> 'b \<Rightarrow> block res" where
  "block_from_rpc env rb = in_context ''Failed to convert from rpc block to block'' (en_to_block env rb)"

definition witness_from_rpc ::
    "('n, 'b, 'e, 'c) env \<Rightarrow> ('n, 'j, 'd, 't, 'p) fallback_ext \<Rightarrow> eth_client \<Rightarrow> chain_config \<Rightarrow> u64 \<Rightarrow> block \<Rightarrow>
     (('n, 'c) world, rpc_execution_witness) act" where
  "witness_from_rpc env fb client cfg number blk =
     andthen (outside (en_witness env client number None)) (\<lambda>r.
     case r of
       Inr w \<Rightarrow> ret w
     | Inl (RequestError _) \<Rightarrow>
         andthen (lift_res (case ec_urls client of [] \<Rightarrow> Inl (Error ''No RPC URLs configured'') | url # _ \<Rightarrow> Inr url)) (\<lambda>url.
         on_remote (fallback_witness fb (en_chk env) url cfg number blk (vm_of_build (en_feats env))))
     | Inl (OtherClientError e) \<Rightarrow> throw (Error (''Unexpected response from debug_executionWitness: '' @ e)))"

text \<open>\<open>get_blockdata_rpc\<close> in two parts: what it does without a cache file, and as a whole.\<close>

definition fetch_from_node ::
    "('n, 'b, 'e, 'c) env \<Rightarrow> ('n, 'j, 'd, 't, 'p) fallback_ext \<Rightarrow> eth_client \<Rightarrow> chain_config \<Rightarrow> u64 \<Rightarrow> path \<Rightarrow>
     (('n, 'c) world, cache) act" where
  "fetch_from_node env fb client cfg number dir =
     andthen (call (en_chain_id env client)) (\<lambda>chain_id.
     if chain_id \<noteq> ucast (cc_chain_id cfg) then
       throw (Error ''Rpc endpoint returned a different chain id than the one set by --network'')
     else
       andthen (wrap_err ''Failed to retrieve requested block'' (call (en_block_by_number env client number))) (\<lambda>rb.
       andthen (lift_res (block_from_rpc env rb)) (\<lambda>blk.
       andthen (witness_from_rpc env fb client cfg number blk) (\<lambda>w.
         ret (cache_new (en_ids env) (en_feats env) [blk] w cfg dir)))))"

definition get_blockdata_rpc ::
    "('n, 'b, 'e, 'c) env \<Rightarrow> ('n, 'j, 'd, 't, 'p) fallback_ext \<Rightarrow> eth_client \<Rightarrow> network \<Rightarrow> block_identifier \<Rightarrow> path \<Rightarrow>
     (('n, 'c) world, cache) act" where
  "get_blockdata_rpc env fb client net ident dir =
     andthen (call (en_block_number env client)) (\<lambda>latest_number.
     andthen (lift_res (as_u64 latest_number)) (\<lambda>latest.
     andthen (lift_res (requested_number ident latest)) (\<lambda>number.
     andthen (lift_res (sub_ovf (en_chk env) latest number)) (\<lambda>behind_latest.
     andthen (lift_res (of_result (en_get_genesis env net))) (\<lambda>g.
     andthen (attempt (on_disk (cache_load (en_from_json env) dir
         (get_block_cache_file_name (en_show_net env) net number None)))) (\<lambda>cached.
     case cached of
       Inr c \<Rightarrow> ret c
     | Inl _ \<Rightarrow> fetch_from_node env fb client (gen_config g) number dir))))))"

definition get_blockdata ::
    "('n, 'b, 'e, 'c) env \<Rightarrow> ('n, 'j, 'd, 't, 'p) fallback_ext \<Rightarrow> replay_options \<Rightarrow> u64 option \<Rightarrow>
     (('n, 'c) world, cache \<times> network) act" where
  "get_blockdata env fb opts block_number =
     (if o_cached opts then
        andthen (lift_res (ok_or (o_network opts) ''Network must be specified in cached mode'')) (\<lambda>net.
        andthen (lift_res (ok_or block_number ''Block number must be specified in cached mode'')) (\<lambda>number.
        andthen (map_err (\<lambda>e. ''Cache wasn't found for block '' @ show_u64 number @ '': '' @ e)
          (on_disk (cache_load (en_from_json env) (o_cache_dir opts)
            (get_block_cache_file_name (en_show_net env) net number None)))) (\<lambda>c.
        ret (c, net))))
      else
        andthen (setup_rpc env opts) (\<lambda>(client, rpc_network).
        andthen (lift_res (case o_network opts of
            None \<Rightarrow> Inr ()
          | Some net \<Rightarrow> if net = rpc_network then Inr ()
              else Inl (Error (''Specified network ('' @ en_show_net env net @ '') does not match RPC network ('' @
                en_show_net env rpc_network @ '')'')))) (\<lambda>_.
        andthen (get_blockdata_rpc env fb client rpc_network
            (case block_number of Some n \<Rightarrow> BlockNumber n | None \<Rightarrow> TagLatest) (o_cache_dir opts)) (\<lambda>c.
        andthen (on_disk (cache_write (en_show_net env) (en_to_json env) c)) (\<lambda>_.
          ret (c, rpc_network))))))"

section \<open>A batch of L2 blocks\<close>

primrec fetch_blocks ::
    "('n, 'b, 'e, 'c) env \<Rightarrow> eth_client \<Rightarrow> (u64 \<Rightarrow> 'b \<Rightarrow> block res) \<Rightarrow> (u64 \<Rightarrow> string) \<Rightarrow> u64 list \<Rightarrow>
     (('n, 'c) world, block list) act" where
  "fetch_blocks env client convert ctx [] = ret []"
| "fetch_blocks env client convert ctx (n # ns) =
     andthen (wrap_err (ctx n) (call (en_block_by_number env client n))) (\<lambda>rb.
     andthen (lift_res (convert n rb)) (\<lambda>blk.
     andthen (fetch_blocks env client convert ctx ns) (\<lambda>rest. ret (blk # rest))))"

text \<open>\<open>Vec::with_capacity\<close> panics when the bytes do not fit into an \<open>isize\<close>. \<open>from..=to\<close> as a list.\<close>

definition with_capacity :: "nat \<Rightarrow> u64 \<Rightarrow> unit res" where
  "with_capacity elem_size n =
     (if 2 ^ 63 \<le> unat n * elem_size then Inl (Panic ''capacity overflow'') else Inr ())"

definition range_incl :: "u64 \<Rightarrow> u64 \<Rightarrow> u64 list" where
  "range_incl from to = map of_nat [unat from..<Suc (unat to)]"

definition fetch_rangedata_from_client ::
    "('n, 'b, 'e, 'c) env \<Rightarrow> eth_client \<Rightarrow> chain_config \<Rightarrow> u64 \<Rightarrow> u64 \<Rightarrow> path \<Rightarrow> (('n, 'c) world, cache) act" where
  "fetch_rangedata_from_client env client cfg from to dir =
     andthen (call (en_chain_id env client)) (\<lambda>chain_id.
     if chain_id \<noteq> ucast (cc_chain_id cfg) then
       throw (Error ''Rpc endpoint returned a different chain id than the one set by --network'')
     else
       andthen (lift_res (bind_res (sub_ovf (en_chk env) to from) (\<lambda>d. add_ovf (en_chk env) d 1))) (\<lambda>len.
       andthen (lift_res (with_capacity (en_block_size env) len)) (\<lambda>_.
       andthen (fetch_blocks env client
           (\<lambda>_ rb. in_context ''Failed to convert from rpc block to block: Failed to convert rpc block to block''
              (en_to_block env rb))
           (\<lambda>n. ''failed to fetch block '' @ show_u64 n) (range_incl from to)) (\<lambda>blocks.
       andthen (outside (en_witness env client from (Some to))) (\<lambda>r.
       andthen (lift_res (case r of
           Inr w \<Rightarrow> Inr w
         | Inl (RequestError e) \<Rightarrow> Inl (Error (''Failed to get execution witness for range: '' @ e))
         | Inl (OtherClientError e) \<Rightarrow> Inl (Error (''Failed to get execution witness for range: '' @ e)))) (\<lambda>w.
         ret (cache_new (en_ids env) (en_feats env) blocks w cfg dir)))))))"

definition first_or_zeros :: "bytes list \<Rightarrow> bytes" where
  "first_or_zeros bs = (case bs of [] \<Rightarrow> replicate 48 0 | b # _ \<Rightarrow> b)"

definition get_batchdata ::
    "('n, 'b, 'e, 'c) env \<Rightarrow> eth_client \<Rightarrow> network \<Rightarrow> u64 \<Rightarrow> path \<Rightarrow> (('n, 'c) world, cache) act" where
  "get_batchdata env client net batch_number dir =
     andthen (attempt (on_disk (cache_load (en_from_json env) dir (get_batch_cache_file_name batch_number)))) (\<lambda>cached.
     case cached of
       Inr c \<Rightarrow> ret c
     | Inl _ \<Rightarrow>
         andthen (call (en_batch env client batch_number)) (\<lambda>batch.
         andthen (lift_res (of_result (en_get_genesis env net))) (\<lambda>g.
         andthen (fetch_rangedata_from_client env client (gen_config g) (ba_first_block batch) (ba_last_block batch) dir)
           (\<lambda>c.
         let c' = c\<lparr>c_l2_fields := Some \<lparr>blob_commitment = first_or_zeros (ba_commitments batch),
               blob_proof = first_or_zeros (ba_proofs batch)\<rparr>\<rparr> in
         andthen (on_disk (cache_write (en_show_net env) (en_to_json env) c')) (\<lambda>_. ret c')))))"

section \<open>What keeps the files\<close>

lemma keeps_cache_load [keeps_intros]: "keeps wd_fs (on_disk (cache_load from_json dir name))"
  by (intro keeps_intros) simp

lemma keeps_setup_rpc [keeps_intros]: "keeps wd_fs (setup_rpc env opts)"
  "keeps posts (setup_rpc env opts)"
  unfolding setup_rpc_def by (intro keeps_intros)+

lemma keeps_witness_from_rpc [keeps_intros]: "keeps wd_fs (witness_from_rpc env fb client cfg n blk)"
  "keeps posts (witness_from_rpc env fb client cfg n blk)"
  unfolding witness_from_rpc_def by (intro keeps_intros)+

lemma keeps_fetch_from_node [keeps_intros]: "keeps wd_fs (fetch_from_node env fb client cfg number dir)"
  "keeps posts (fetch_from_node env fb client cfg number dir)"
  unfolding fetch_from_node_def by (intro keeps_intros)+

lemma keeps_get_blockdata_rpc [keeps_intros]: "keeps wd_fs (get_blockdata_rpc env fb client net ident dir)"
  "keeps posts (get_blockdata_rpc env fb client net ident dir)"
  unfolding get_blockdata_rpc_def by (intro keeps_intros)+

lemma keeps_get_blockdata [keeps_intros]: "keeps posts (get_blockdata env fb opts number)"
  unfolding get_blockdata_def by (intro keeps_intros)

lemma keeps_fetch_blocks [keeps_intros]: "keeps wd_fs (fetch_blocks env client convert ctx ns)"
  by (induction ns) (simp_all only: fetch_blocks.simps, (intro keeps_intros | assumption)+)

lemma keeps_fetch_rangedata [keeps_intros]: "keeps wd_fs (fetch_rangedata_from_client env client cfg from to dir)"
  unfolding fetch_rangedata_from_client_def by (intro keeps_intros)

section \<open>A directory of caches\<close>

text \<open>
  What is known of the other crates: networks print differently; the JSON of a cache parses back, and one
  that was cut off by an error does not parse; a node asked for a block by number answers with that
  block; the genesis of a network has its chain id.
\<close>

definition env_ok :: "('n, 'b, 'e, 'c) env \<Rightarrow> bool" where
  "env_ok env \<longleftrightarrow>
     inj (en_show_net env) \<and>
     (\<forall>c. snd (en_to_json env c) = None \<longrightarrow> en_from_json env (fst (en_to_json env c)) = Inr (c\<lparr>c_dir := []\<rparr>)) \<and>
     (\<forall>c e. snd (en_to_json env c) = Some e \<longrightarrow> (\<exists>m. en_from_json env (fst (en_to_json env c)) = Inl m)) \<and>
     (\<forall>client n x rb blk. fst (en_block_by_number env client n x) = Inr rb \<longrightarrow> en_to_block env rb = Inr blk \<longrightarrow>
        blk_number blk = n) \<and>
     (\<forall>id g. let net = network_from_chain_id (en_ids env) (en_feats env) id in
        en_get_genesis env net = Inr g \<longrightarrow>
        network_from_chain_id (en_ids env) (en_feats env) (cc_chain_id (gen_config g)) = net)"

lemma env_okD:
  assumes "env_ok env"
  shows "inj (en_show_net env)"
    "snd (en_to_json env c) = None \<Longrightarrow> en_from_json env (fst (en_to_json env c)) = Inr (c\<lparr>c_dir := []\<rparr>)"
    "en_from_json env (fst (en_to_json env c)) = Inr c' \<Longrightarrow> c' = c\<lparr>c_dir := []\<rparr>"
    "fst (en_block_by_number env client n x) = Inr rb \<Longrightarrow> en_to_block env rb = Inr blk \<Longrightarrow> blk_number blk = n"
    "net = network_from_chain_id (en_ids env) (en_feats env) i \<Longrightarrow> en_get_genesis env net = Inr g \<Longrightarrow>
      network_from_chain_id (en_ids env) (en_feats env) (cc_chain_id (gen_config g)) = net"
  using assms unfolding env_ok_def Let_def by (blast, blast, cases "snd (en_to_json env c)", auto)

text \<open>The invariant of a cache directory: a single-block file that parses holds what its name says.\<close>

definition well_named :: "('n, 'b, 'e, 'c) env \<Rightarrow> path \<Rightarrow> (path \<Rightarrow> 'c option) \<Rightarrow> bool" where
  "well_named env dir files \<longleftrightarrow>
     (\<forall>net n content c. files (join dir (get_block_cache_file_name (en_show_net env) net n None)) = Some content \<longrightarrow>
        en_from_json env content = Inr c \<longrightarrow> c_network c = net \<and> map blk_number (c_blocks c) = [n])"

text \<open>The cache that was asked for.\<close>

definition asked_for :: "cache \<Rightarrow> network \<Rightarrow> u64 option \<Rightarrow> path \<Rightarrow> bool" where
  "asked_for c net number dir \<longleftrightarrow>
     c_network c = net \<and> c_dir c = dir \<and>
     (\<exists>n. map blk_number (c_blocks c) = [n] \<and> (number = None \<or> number = Some n))"

lemma cache_load_asked:
  assumes "well_named env dir (fs_read f)"
    and "cache_load (en_from_json env) dir (get_block_cache_file_name (en_show_net env) net n None) f = (Inr c, f')"
  shows "asked_for c net (Some n) dir \<and> f' = f"
proof -
  have f': "f' = f" using assms(2) cache_load_state by (metis snd_conv)
  obtain content c0 where "fs_read f (join dir (get_block_cache_file_name (en_show_net env) net n None)) = Some content"
    "en_from_json env content = Inr c0" "c = c0\<lparr>c_dir := dir\<rparr>"
    using assms(2) unfolding cache_load_def by (auto simp: res_simps elim!: andthen_Inr_E dest!: fs_open_InrD)
  then show ?thesis using assms(1) f' by (auto simp: well_named_def asked_for_def)
qed

lemma cache_path_single:
  assumes "map blk_number (c_blocks c) = [n]"
  shows "cache_path show_net c = join (c_dir c) (get_block_cache_file_name show_net (c_network c) n None)"
proof -
  obtain blk where "c_blocks c = [blk]" "blk_number blk = n" using assms by auto
  then show ?thesis by (simp add: cache_file_name_def)
qed

text \<open>Whatever happens while a cache that was asked for is written, its directory stays well named.\<close>

lemma cache_write_well_named:
  assumes env: "env_ok env" and named: "well_named env (c_dir c) (fs_read f)"
    and one: "map blk_number (c_blocks c) = [n]"
    and run: "cache_write (en_show_net env) (en_to_json env) c f = (r, f')"
  shows "well_named env (c_dir c) (fs_read f')"
  unfolding well_named_def
proof (intro allI impI)
  fix net m content c0
  let ?p = "join (c_dir c) (get_block_cache_file_name (en_show_net env) net m None)"
  assume content: "fs_read f' ?p = Some content" and parses: "en_from_json env content = Inr c0"
  have path: "cache_path (en_show_net env) c = join (c_dir c) (get_block_cache_file_name (en_show_net env) (c_network c) n None)"
    by (rule cache_path_single [OF one])
  show "c_network c0 = net \<and> map blk_number (c_blocks c0) = [m]"
  proof (cases "fs_read f' ?p = fs_read f ?p")
    case True
    then show ?thesis using content parses named unfolding well_named_def by metis
  next
    case False
    then have same: "?p = cache_path (en_show_net env) c" using cache_write_frame [OF run] by metis
    then have net: "net = c_network c" "m = n"
      using file_name_inj [OF env_okD(1) [OF env]] unfolding path by (metis join_inj)+
    have "fs_read f' ?p = Some (fst (en_to_json env c))"
      using cache_write_changes [OF run] False same by metis
    then have "content = fst (en_to_json env c)" using content by simp
    then have "c0 = c\<lparr>c_dir := []\<rparr>" using env_okD(3) [OF env] parses by simp
    then show ?thesis using net one by simp
  qed
qed

text \<open>What an identifier asks for.\<close>

fun asked_number :: "block_identifier \<Rightarrow> u64 option" where
  "asked_number (BlockNumber n) = Some n"
| "asked_number _ = None"

lemma call_InrD: "call f w = (Inr x, w') \<Longrightarrow> fst (f (rs_node (wd_remote w))) = Inr x"
  by (auto simp: call_def outside_def zoom_def res_simps elim!: andthen_Inr_E split: prod.splits)

lemma fetch_from_node_Inr:
  assumes "fetch_from_node env fb client cfg number dir w = (Inr c, w')"
  shows "\<exists>rb blk wit n. fst (en_block_by_number env client number n) = Inr rb \<and> block_from_rpc env rb = Inr blk \<and>
    c = cache_new (en_ids env) (en_feats env) [blk] wit cfg dir"
proof -
  from assms obtain v where "andthen (wrap_err ''Failed to retrieve requested block'' (call (en_block_by_number env client number))) (\<lambda>rb.
      andthen (lift_res (block_from_rpc env rb)) (\<lambda>blk.
      andthen (witness_from_rpc env fb client cfg number blk) (\<lambda>w.
        ret (cache_new (en_ids env) (en_feats env) [blk] w cfg dir)))) v = (Inr c, w')"
    unfolding fetch_from_node_def by (auto elim!: andthen_Inr_E split: if_splits)
  then obtain rb v' where rb: "call (en_block_by_number env client number) v = (Inr rb, v')"
    and rest: "andthen (lift_res (block_from_rpc env rb)) (\<lambda>blk.
      andthen (witness_from_rpc env fb client cfg number blk) (\<lambda>w.
        ret (cache_new (en_ids env) (en_feats env) [blk] w cfg dir))) v' = (Inr c, w')"
    by (rule andthen_Inr_E) (simp only: wrap_err_Inr_iff)
  from rest obtain blk wit where "block_from_rpc env rb = Inr blk"
    "c = cache_new (en_ids env) (en_feats env) [blk] wit cfg dir"
    by (auto elim!: andthen_Inr_E)
  with call_InrD [OF rb] show ?thesis by blast
qed

lemma get_blockdata_rpc_asked:
  assumes env: "env_ok env" and named: "well_named env dir (wd_read w)"
    and net: "net = network_from_chain_id (en_ids env) (en_feats env) i"
    and run: "get_blockdata_rpc env fb client net ident dir w = (Inr c, w')"
  shows "asked_for c net (asked_number ident) dir"
proof -
  let ?load = "\<lambda>number. on_disk (cache_load (en_from_json env) dir
        (get_block_cache_file_name (en_show_net env) net number None))"
  from run obtain latest_number latest number g cached w1 w2 where
    call1: "call (en_block_number env client) w = (Inr latest_number, w1)"
    and number: "requested_number ident latest = Inr number" and g: "en_get_genesis env net = Inr g"
    and load: "attempt (?load number) w1 = (Inr cached, w2)"
    and rest: "(case cached of Inr c \<Rightarrow> ret c | Inl _ \<Rightarrow> fetch_from_node env fb client (gen_config g) number dir) w2
      = (Inr c, w')"
    by (auto simp: get_blockdata_rpc_def res_simps elim!: andthen_Inr_E)
  have fs1: "wd_fs w1 = wd_fs w" using call_frame [OF call1] by simp
  have asks: "asked_number ident = None \<or> asked_number ident = Some number"
    using number by (cases ident) auto
  show ?thesis
  proof (cases cached)
    case (Inr c1)
    then have "?load number w1 = (Inr c1, w2)"
      using load by (auto simp: attempt_def split: prod.splits sum.splits fault.splits)
    then have "asked_for c1 net (Some number) dir"
      using cache_load_asked [OF named [folded fs1]] on_disk_frame by metis
    then have "asked_for c1 net (Some number) dir"
      using cache_load_asked [OF named [folded fs1]] on_disk_frame by metis
    moreover have "c = c1" using rest Inr by simp
    ultimately show ?thesis using asks by (auto simp: asked_for_def)
  next
    case (Inl e)
    then have "fetch_from_node env fb client (gen_config g) number dir w2 = (Inr c, w')" using rest by simp
    from fetch_from_node_Inr [OF this] obtain rb blk wit n where
      rb: "fst (en_block_by_number env client number n) = Inr rb" and blk: "block_from_rpc env rb = Inr blk"
      and c: "c = cache_new (en_ids env) (en_feats env) [blk] wit (gen_config g) dir" by blast
    have "en_to_block env rb = Inr blk" using blk by (simp add: block_from_rpc_def res_simps)
    then have "blk_number blk = number" using env_okD(4) [OF env rb] by blast
    then show ?thesis
      using asks env_okD(5) [OF env net g] by (auto simp: asked_for_def c cache_new_def)
  qed
qed

lemma get_blockdata_online:
  assumes env: "env_ok env" and named: "well_named env (o_cache_dir opts) (wd_read w)"
    and online: "\<not> o_cached opts" and run: "get_blockdata env fb opts number w = (Inr (c, net), w')"
  shows "asked_for c net number (o_cache_dir opts)"
    and "cache_write (en_show_net env) (en_to_json env) c (wd_fs w) = (Inr (), wd_fs w')"
    and "\<exists>i. net = network_from_chain_id (en_ids env) (en_feats env) i"
proof -
  let ?ident = "case number of Some n \<Rightarrow> BlockNumber n | None \<Rightarrow> TagLatest"
  from run online obtain client w1 w2 w3 where
    su: "setup_rpc env opts w = (Inr (client, net), w1)"
    and rpc: "get_blockdata_rpc env fb client net ?ident (o_cache_dir opts) w1 = (Inr c, w2)"
    and wr: "on_disk (cache_write (en_show_net env) (en_to_json env) c) w2 = (Inr (), w3)" and w': "w' = w3"
    by (auto simp: get_blockdata_def elim!: andthen_Inr_E split: prod.splits)
  have fs: "wd_fs w1 = wd_fs w" "wd_fs w2 = wd_fs w"
    using keepsD [OF keeps_setup_rpc(1) su] keepsD [OF keeps_get_blockdata_rpc(1) rpc] by simp_all
  from su obtain i where i: "net = network_from_chain_id (en_ids env) (en_feats env) i"
    by (auto simp: setup_rpc_def elim!: andthen_Inr_E)
  then show "\<exists>i. net = network_from_chain_id (en_ids env) (en_feats env) i" by blast
  have "asked_number ?ident = number" by (cases number) simp_all
  then show "asked_for c net number (o_cache_dir opts)"
    using get_blockdata_rpc_asked [OF env named [folded fs(1)] i rpc] by simp
  show "cache_write (en_show_net env) (en_to_json env) c (wd_fs w) = (Inr (), wd_fs w')"
    using on_disk_frame [OF wr] fs w' by simp
qed

text \<open>When it fails, it has written nothing, or it failed in writing the cache that was asked for.\<close>

lemma get_blockdata_failed:
  assumes env: "env_ok env" and named: "well_named env (o_cache_dir opts) (wd_read w)"
    and run: "get_blockdata env fb opts number w = (Inl e, w')"
  shows "well_named env (o_cache_dir opts) (wd_read w')"
proof (cases "o_cached opts")
  case True
  have "keeps wd_fs (get_blockdata env fb opts number)"
    using True unfolding get_blockdata_def by (simp only: if_True) (intro keeps_intros)
  then have "wd_fs w' = wd_fs w" using run by (rule keepsD)
  then show ?thesis using named by simp
next
  case False
  obtain r w1 where su: "setup_rpc env opts w = (r, w1)" by fastforce
  have fs1: "wd_fs w1 = wd_fs w" using keepsD [OF keeps_setup_rpc(1) su] .
  show ?thesis
  proof (cases r)
    case (Inl e)
    then have "w' = w1" using run False su by (simp add: get_blockdata_def andthen_def)
    then show ?thesis using fs1 named by simp
  next
    case (Inr cn)
    obtain client net where cn: "cn = (client, net)" by (cases cn)
    let ?ident = "case number of Some n \<Rightarrow> BlockNumber n | None \<Rightarrow> TagLatest"
    obtain r2 w2 where rpc: "get_blockdata_rpc env fb client net ?ident (o_cache_dir opts) w1 = (r2, w2)" by fastforce
    have fs2: "wd_fs w2 = wd_fs w" using keepsD [OF keeps_get_blockdata_rpc(1) rpc] fs1 by simp
    show ?thesis
    proof (cases "w' = w1 \<or> w' = w2")
      case True
      then show ?thesis using fs1 fs2 named by auto
    next
      case written: False
      obtain c where c: "r2 = Inr c" and wr: "wd_fs w' = snd (cache_write (en_show_net env) (en_to_json env) c (wd_fs w2))"
        using run False su Inr cn rpc written
        by (cases r2) (auto simp: get_blockdata_def andthen_def zoom_def split: sum.splits prod.splits option.splits if_splits)
      from su Inr cn obtain i where i: "net = network_from_chain_id (en_ids env) (en_feats env) i"
        by (auto simp: setup_rpc_def elim!: andthen_Inr_E)
      have asked: "asked_for c net (asked_number ?ident) (o_cache_dir opts)"
        using get_blockdata_rpc_asked [OF env named [folded fs1] i] rpc c by simp
      then obtain n where "map blk_number (c_blocks c) = [n]" "c_dir c = o_cache_dir opts"
        by (auto simp: asked_for_def)
      then show ?thesis
        using cache_write_well_named [OF env, of c "wd_fs w2" n] named fs2 wr by (metis prod.collapse)
    qed
  qed
qed

section \<open>Properties\<close>


text \<open>
  C6. What was fetched online can be replayed offline: after a successful \<open>get_blockdata\<close> from a node, the same command
  with \<open>--cached\<close> and the network of the result returns the very same cache, without a request.
\<close>

theorem offline_after_online:
  assumes "env_ok env" and "well_named env (o_cache_dir opts) (wd_read w)" and "\<not> o_cached opts"
    and "get_blockdata env fb opts number w = (Inr (c, net), w')"
    and "\<And>p. fs_denied (wd_fs w) OpenRead p = None"
    and "o_cached offline" "o_network offline = Some net" "o_cache_dir offline = o_cache_dir opts"
  shows "get_blockdata env fb offline (Some (blk_number (hd (c_blocks c)))) w' = (Inr (c, net), w')"
proof -
  have asked: "asked_for c net number (o_cache_dir opts)" by (rule get_blockdata_online(1) [OF assms(1-4)])
  then obtain n where one: "map blk_number (c_blocks c) = [n]" and c: "c_network c = net" "c_dir c = o_cache_dir opts"
    by (auto simp: asked_for_def)
  have hd: "blk_number (hd (c_blocks c)) = n" using one by auto
  have wr: "cache_write (en_show_net env) (en_to_json env) c (wd_fs w) = (Inr (), wd_fs w')"
    by (rule get_blockdata_online(2) [OF assms(1-4)])
  let ?name = "get_block_cache_file_name (en_show_net env) net n None"
  have "wd_read w' (join (o_cache_dir opts) ?name) = Some (fst (en_to_json env c))" "fs_denied (wd_fs w') = fs_denied (wd_fs w)"
    using cache_write_InrD [OF wr] cache_path_single [OF one] c by simp_all
  moreover have "en_from_json env (fst (en_to_json env c)) = Inr (c\<lparr>c_dir := []\<rparr>)"
    using env_okD(2) [OF assms(1)] cache_write_InrD(2) [OF wr] by blast
  ultimately have "cache_load (en_from_json env) (o_cache_dir opts) ?name (wd_fs w') = (Inr c, wd_fs w')"
    using assms(5) c(2) by (simp add: cache_load_Inr_iff)
  then show ?thesis
    using assms(6-8) by (simp add: get_blockdata_def hd andthen_def zoom_def)
qed

lemma fallback_ends:
  assumes nx: "nibbles_ok (fb_nodes fb) to_list"
    and "to_execution_witness (fb_rpc fb url) (fb_nodes fb) (fb_bytes fb) (fb_policy fb) chk (fb_rps fb) (fb_levm fb) blk db
      = (Inr r, db')"
  shows "r \<noteq> None"
proof -
  from assms(2) obtain initial final hs where
    "r = gather_witness (fb_rpc fb url) (fb_nodes fb) (fb_bytes fb) initial final hs"
    unfolding to_execution_witness_def by (auto elim!: andthen_Inr_E)
  then show ?thesis using gather_witness_total [OF nx] by simp
qed



definition example_fallback :: "(unit, example_answer, bytes, bytes list, nibbles) fallback_ext" where
  "example_fallback = \<lparr>fb_rpc = (\<lambda>_. example_ext), fb_nodes = list_nodes, fb_bytes = example_bytes, fb_policy = (\<lambda>m. m),
     fb_rps = 10, fb_levm = no_updates\<rparr>"

lemma example_fallback_run:
  "\<exists>w remote'. fallback_witness example_fallback True ''http://node'' (v_config example_view) (v_number example_view)
     example_block8 VM_L1 example_remote = (Inr w, remote')"
proof -
  obtain r db' where run: "to_execution_witness example_ext list_nodes example_bytes (\<lambda>m. m) True 10 no_updates
      example_block8 example_db = (Inr r, db')"
    using example_witness_run by blast
  have "r \<noteq> None"
    using fallback_ends [of example_fallback "\<lambda>p. p"] run list_nodes_ok by (simp add: example_fallback_def)
  then obtain w where "r = Some w" by blast
  then show ?thesis
    using run example_with_cache
    by (simp add: fallback_witness_def example_fallback_def example_view_def wrap_err_def map_err_def)
qed


section \<open>Limits\<close>

text \<open>The same node for the outside of \<open>example_env\<close>.\<close>

definition nat_fallback :: "(nat, example_answer, bytes, bytes list, nibbles) fallback_ext" where
  "nat_fallback = \<lparr>fb_rpc = (\<lambda>_.
       \<lparr>x_post = (\<lambda>req n. case example_post req () of (a, latency, _) \<Rightarrow> (a, latency, n)),
        x_result = x_result example_ext, x_json_text = x_json_text example_ext, x_json_block = x_json_block example_ext,
        x_json_proof = x_json_proof example_ext, x_json_string = x_json_string example_ext,
        x_addr_hex = x_addr_hex example_ext, x_h256_hex = x_h256_hex example_ext,
        x_parse_h256 = x_parse_h256 example_ext, x_parse_u256 = x_parse_u256 example_ext,
        x_hex_decode = x_hex_decode example_ext, x_keccak = x_keccak example_ext,
        x_node_decode = x_node_decode example_ext, x_trie_from_nodes = x_trie_from_nodes example_ext,
        x_trie_get = x_trie_get example_ext, x_hash_address = x_hash_address example_ext,
        x_hash_key = x_hash_key example_ext, x_code_hash = x_code_hash example_ext,
        x_empty_keccak = x_empty_keccak example_ext\<rparr>),
     fb_nodes = list_nodes, fb_bytes = example_bytes, fb_policy = (\<lambda>m. m), fb_rps = 10, fb_levm = no_updates\<rparr>"

text \<open>
  Asking a node for a block that it does not have yet ends in a panic when the build has overflow
  checks: the distance to the latest block is computed for a log line before anything else. This holds
  even if the block is in the cache.
\<close>

theorem future_block_panics:
  assumes "en_chk env" and "call (en_block_number env client) w = (Inr (ucast (latest :: u64)), w1)" and "latest < number"
  shows "get_blockdata_rpc env fb client net (BlockNumber number) dir w
    = (Inl (Panic ''attempt to subtract with overflow''), w1)"
  using assms by (simp add: get_blockdata_rpc_def andthen_def sub_ovf_def)

theorem future_block_panics_witness:
  "get_blockdata_rpc example_env nat_fallback \<lparr>ec_urls = [''http://node'']\<rparr>
     (PublicNetwork Mainnet) (BlockNumber 8) [''replay_cache''] (example_world 7)
   = (Inl (Panic ''attempt to subtract with overflow''), example_world 7)"
  by (rule future_block_panics [where latest = 7])
    (simp_all add: call_def outside_def zoom_def andthen_def example_world_def)

text \<open>
  A batch is written under the name of its blocks, not under the name it is looked up by.
\<close>

lemma batch_name_not_block_name:
  assumes "show_net net \<noteq> ''batch''"
  shows "get_batch_cache_file_name n \<noteq> get_block_cache_file_name show_net net from to"
proof
  assume "get_batch_cache_file_name n = get_block_cache_file_name show_net net from to"
  then have "''cache_batch'' @ CHR ''_'' # (show_u64 n @ ''.json'')
      = (''cache_'' @ show_net net) @ CHR ''_'' # (number_part from to @ ''.json'')"
    unfolding get_block_cache_file_name_parts by (simp add: get_batch_cache_file_name_def)
  then have "''cache_batch'' = ''cache_'' @ show_net net" by (rule last_sep_inj [THEN conjunct1]) simp_all
  then show False using assms by simp
qed

text \<open>
  C27. The cache of a batch is never used: \<open>get_batchdata\<close> looks for \<open>cache_batch_<n>.json\<close>, and
  writes the cache under the name of its first and last block. After it has fetched a batch, the file it looks for
  is as missing as before, so the next call asks the node again.
\<close>

theorem batch_cache_never_written:
  assumes "get_batchdata env client net n dir w = (Inr c, w')" and "\<forall>m. en_show_net env m \<noteq> ''batch''"
    and "wd_read w (join dir (get_batch_cache_file_name n)) = None"
  shows "\<exists>e. on_disk (cache_load (en_from_json env) dir (get_batch_cache_file_name n)) w' = (Inl (Error e), w') \<and>
    wd_read w' (join (c_dir c) (cache_file_name (en_show_net env) c)) = Some (fst (en_to_json env c))"
proof -
  let ?load = "on_disk (cache_load (en_from_json env) dir (get_batch_cache_file_name n))"
  have missed: "\<exists>e. ?load v = (Inl (Error e), v)" if "wd_read v (join dir (get_batch_cache_file_name n)) = None" for v
    using cache_load_missing [OF that, of "en_from_json env"] by (auto simp: zoom_def)
  obtain e where e: "attempt ?load w = (Inr (Inl e), w)" using missed [OF assms(3)] by (auto simp: attempt_def)
  have skip: "andthen (attempt ?load) F w = F (Inl e) w" for F
    by (rule andthen_Inr [where m = "attempt ?load", OF e])
  have "andthen (call (en_batch env client n)) (\<lambda>batch.
         andthen (lift_res (of_result (en_get_genesis env net))) (\<lambda>g.
         andthen (fetch_rangedata_from_client env client (gen_config g) (ba_first_block batch) (ba_last_block batch) dir)
           (\<lambda>c.
         let c' = c\<lparr>c_l2_fields := Some \<lparr>blob_commitment = first_or_zeros (ba_commitments batch),
               blob_proof = first_or_zeros (ba_proofs batch)\<rparr>\<rparr> in
         andthen (on_disk (cache_write (en_show_net env) (en_to_json env) c')) (\<lambda>_. ret c')))) w = (Inr c, w')"
    using assms(1) unfolding get_batchdata_def skip by simp
  then obtain batch v c0 w1 and g :: genesis where v: "call (en_batch env client n) w = (Inr batch, v)"
    and range: "fetch_rangedata_from_client env client (gen_config g) (ba_first_block batch) (ba_last_block batch) dir v = (Inr c0, w1)"
    and wr: "on_disk (cache_write (en_show_net env) (en_to_json env) c) w1 = (Inr (), w')"
    by (auto simp: Let_def elim!: andthen_Inr_E)
  have fetched: "wd_fs w1 = wd_fs w"
    using call_frame [OF v] keepsD [OF keeps_fetch_rangedata range] by simp
  note disk = cache_write_InrD [OF conjunct2 [OF conjunct2 [OF on_disk_frame [OF wr]]]]
  have "get_batch_cache_file_name n \<noteq> cache_file_name (en_show_net env) c"
    unfolding cache_file_name_def by (rule batch_name_not_block_name [OF assms(2) [rule_format]])
  then have "wd_read w' (join dir (get_batch_cache_file_name n)) = None"
    using disk(3) assms(3) fetched by simp
  then show ?thesis using missed [of w'] disk(3) by auto
qed


section \<open>Instances\<close>

text \<open>A batch of two blocks of the network \<open>L2:1\<close>, fetched by a build for L2.\<close>

definition l2_client :: eth_client where "l2_client = \<lparr>ec_urls = [''http://node'']\<rparr>"

lemma injective_net_not_batch: "injective_net m \<noteq> ''batch''"
  by (auto simp: injective_net_def split: network.split public_network.split)

lemma open_empty [simp]: "fs_open p empty_fs = (Inl (Error ''No such file or directory''), empty_fs)"
  by (simp add: fs_open_def empty_fs_def)

lemma load_empty: "\<exists>e. on_disk (cache_load from_json dir name) (example_world n) = (Inl (Error e), example_world n)"
  by (simp add: example_world_def cache_load_def zoom_def andthen_def map_err_def)

lemma l2_range_run:
  "\<exists>c. fetch_rangedata_from_client l2_env l2_client \<lparr>cc_chain_id = 1\<rparr> 50 51 [''replay_cache''] (example_world 0)
     = (Inr c, example_world 0) \<and> c_blocks c \<noteq> [] \<and> c_dir c = [''replay_cache'']"
proof -
  have range: "range_incl 50 51 = [50, 51]" by (simp add: range_incl_def upt_rec)
  show ?thesis
    by (simp add: l2_env_def example_world_def zoom_def andthen_def call_def outside_def example_env_def
        fetch_rangedata_from_client_def sub_ovf_def add_ovf_def with_capacity_def range wrap_err_def map_err_def
        cache_new_def)
qed

lemma l2_batch_run:
  "\<exists>c w'. get_batchdata l2_env l2_client (L2Chain 1) 5 [''replay_cache''] (example_world 0) = (Inr c, w')"
proof -
  obtain c where c: "fetch_rangedata_from_client l2_env l2_client \<lparr>cc_chain_id = 1\<rparr> 50 51 [''replay_cache''] (example_world 0)
     = (Inr c, example_world 0)" "c_blocks c \<noteq> []" "c_dir c = [''replay_cache'']"
    using l2_range_run by blast
  obtain e where e: "on_disk (cache_load (en_from_json l2_env) [''replay_cache''] (get_batch_cache_file_name 5)) (example_world 0)
      = (Inl (Error e), example_world 0)"
    using load_empty by blast
  have batch: "call (en_batch l2_env l2_client 5) (example_world 0)
      = (Inr \<lparr>ba_first_block = 50, ba_last_block = 51, ba_commitments = [], ba_proofs = []\<rparr>, example_world 0)"
    by (simp add: l2_env_def example_env_def call_def outside_def zoom_def andthen_def example_world_def)
  have gen: "en_get_genesis l2_env (L2Chain 1) = Inr \<lparr>gen_config = \<lparr>cc_chain_id = 1\<rparr>, gen_timestamp = 0, gen_alloc = []\<rparr>"
    by (simp add: l2_env_def example_env_def chain_id_of_def)
  have json: "snd (en_to_json l2_env x) = None" for x by (simp add: l2_env_def example_env_def)
  show ?thesis
    by (simp add: get_batchdata_def attempt_def e andthen_def batch gen c)
      (simp add: Let_def zoom_def example_world_def cache_write_fresh json c)
qed

theorem batch_cache_never_written_witness:
  "\<exists>c w' e. get_batchdata l2_env l2_client (L2Chain 1) 5 [''replay_cache''] (example_world 0) = (Inr c, w') \<and>
     on_disk (cache_load (en_from_json l2_env) [''replay_cache''] (get_batch_cache_file_name 5)) w' = (Inl (Error e), w')"
proof -
  obtain c w' where run: "get_batchdata l2_env l2_client (L2Chain 1) 5 [''replay_cache''] (example_world 0) = (Inr c, w')"
    using l2_batch_run by blast
  show ?thesis
    using batch_cache_never_written [OF run] run
    by (auto simp: l2_env_def example_env_def injective_net_not_batch example_world_def empty_fs_def)
qed

text \<open>Block 5 of mainnet, fetched when block 7 is the latest.\<close>

lemma example_env_ok: "env_ok example_env"
  by (auto simp: env_ok_def injective_net_inj chain_id_of_def network_from_chain_id_def example_ids_def no_features_def Let_def)

definition block5_cache :: cache where
  "block5_cache = cache_new example_ids no_features [example_block 5] empty_witness \<lparr>cc_chain_id = 1\<rparr> [''replay_cache'']"

definition world_with_block5 :: "(nat, content) world" where
  "world_with_block5 = (example_world 7)\<lparr>wd_fs := empty_fs\<lparr>
     fs_files := [([''replay_cache'', ''cache_mainnet_5.json''], CacheFile (block5_cache\<lparr>c_dir := []\<rparr>))],
     fs_dirs := [[''replay_cache'']]\<rparr>\<rparr>"

lemma show_five: "show_nat 5 = ''5''"
  by code_simp

lemma well_named_none [simp]: "well_named env dir (\<lambda>p. None)"
  by (simp add: well_named_def)

lemma block5_run:
  "get_blockdata example_env nat_fallback online_opts (Some 5) (example_world 7)
     = (Inr (block5_cache, PublicNetwork Mainnet), world_with_block5)"
proof -
  have name: "get_block_cache_file_name injective_net (PublicNetwork Mainnet) 5 None = ''cache_mainnet_5.json''"
    using show_five by (simp add: get_block_cache_file_name_def injective_net_def)
  have net: "network_from_chain_id example_ids no_features 1 = PublicNetwork Mainnet"
    by (simp add: network_from_chain_id_def example_ids_def)
  have one: "as_u64 1 = Inr 1" "as_u64 7 = Inr 7" by (simp_all add: as_u64_def)
  have "cache_path injective_net block5_cache = [''replay_cache'', ''cache_mainnet_5.json'']"
    by (simp add: block5_cache_def cache_new_def cache_file_name_def net name join_def)
  then have wr: "cache_write injective_net (en_to_json example_env) block5_cache empty_fs = (Inr (), wd_fs world_with_block5)"
    using cache_write_fresh [of block5_cache "en_to_json example_env" "''replay_cache''" injective_net]
    by (simp add: block5_cache_def cache_new_def world_with_block5_def)
  have fetch: "get_blockdata_rpc example_env nat_fallback \<lparr>ec_urls = [''http://node'']\<rparr> (PublicNetwork Mainnet)
      (BlockNumber 5) [''replay_cache''] (example_world 7) = (Inr block5_cache, example_world 7)"
    by (simp add: get_blockdata_rpc_def call_def outside_def zoom_def andthen_def example_world_def one sub_ovf_def
        cache_load_def attempt_def map_err_def fetch_from_node_def wrap_err_def chain_id_of_def block_from_rpc_def
        witness_from_rpc_def block5_cache_def)
  have "setup_rpc example_env online_opts (example_world 7)
      = (Inr (\<lparr>ec_urls = [''http://node'']\<rparr>, PublicNetwork Mainnet), example_world 7)"
    by (simp add: setup_rpc_def online_opts_def call_def outside_def zoom_def andthen_def example_world_def one net)
  then show ?thesis
    using fetch wr
    by (simp add: get_blockdata_def online_opts_def andthen_def zoom_def example_world_def)
      (simp add: world_with_block5_def example_world_def)
qed


theorem offline_after_online_witness:
  "get_blockdata example_env nat_fallback offline_opts (Some 5) world_with_block5
     = (Inr (block5_cache, PublicNetwork Mainnet), world_with_block5)"
proof -
  have "blk_number (hd (c_blocks block5_cache)) = 5" by (simp add: block5_cache_def cache_new_def)
  then show ?thesis
    using offline_after_online [OF example_env_ok _ _ block5_run, of offline_opts]
    by (simp add: online_opts_def offline_opts_def example_world_def empty_fs_def)
qed

end
