(* ===== verification/No_Zkvm.thy ===== *)
theory No_Zkvm
  imports Runner World_Example
begin

text \<open>
  \<open>prepare_no_zkvm_state\<close> and \<open>replay_no_zkvm\<close> of \<open>src/cli.rs\<close>: executing a block with \<open>Blockchain::add_block_pipeline\<close> on an
  in-memory store that is rebuilt from the witness, repeatedly if asked, with statistics.

  The record \<open>store_ext\<close> holds what belongs to \<open>ethrex-storage\<close>, \<open>ethrex-trie\<close> and \<open>ethrex-blockchain\<close>: the state of the
  guest program \<open>'g\<close> that a witness \<open>'e\<close> converts to, decoded nodes \<open>'d\<close>, keys of trie nodes \<open>'k\<close>, the store \<open>'s\<close>. The
  code of an account is its bytes; \<open>Code::default()\<close> has none.
\<close>

section \<open>The store\<close>

record ('e, 'g, 'd, 'k, 's, 'n) store_ext =
  sx_guest :: "'e \<Rightarrow> string + 'g"
  sx_keys :: "'e \<Rightarrow> bytes list"
  sx_codes :: "'g \<Rightarrow> (h256, bytes) hmap"
  sx_parent_root :: "'g \<Rightarrow> h256"
  sx_headers :: "'g \<Rightarrow> (h256 \<times> bytes) list"
  sx_state_get :: "'g \<Rightarrow> bytes \<Rightarrow> string + bytes option"
  sx_keccak :: "bytes \<Rightarrow> h256"
  sx_node_decode :: "bytes \<Rightarrow> string + 'd"
  sx_from_nodes :: "h256 \<Rightarrow> (h256, 'd) hmap \<Rightarrow> string + (nibbles, bytes) hmap"
  sx_from_hex :: "nibbles \<Rightarrow> 'k"
  sx_dummy :: bytes
  sx_address :: "bytes \<Rightarrow> address"
  sx_hash_address :: "address \<Rightarrow> bytes"
  sx_h256 :: "bytes \<Rightarrow> h256"
  sx_account_decode :: "bytes \<Rightarrow> string + account_state"
  sx_new :: "string + 's"
  sx_put_state :: "('k \<times> bytes) list \<Rightarrow> 's \<Rightarrow> string + 's"
  sx_put_storage :: "h256 \<Rightarrow> ('k \<times> bytes) list \<Rightarrow> 's \<Rightarrow> string + 's"
  sx_set_config :: "chain_config \<Rightarrow> 's \<Rightarrow> string + 's"
  sx_add_code :: "h256 \<Rightarrow> bytes \<Rightarrow> 's \<Rightarrow> string + 's"
  sx_add_header :: "h256 \<Rightarrow> bytes \<Rightarrow> 's \<Rightarrow> string + 's"
  sx_prepare_time :: "('n, unit) outside"
  sx_add_block :: "'s \<Rightarrow> block \<Rightarrow> ('n, string + unit) outside"

text \<open>The nodes of the witness by their hashes, the null node left out.\<close>

definition decoded_nodes :: "('e, 'g, 'd, 'k, 's, 'n) store_ext \<Rightarrow> bytes list \<Rightarrow> (h256, 'd) hmap res" where
  "decoded_nodes sx state =
     bind_res (map_res (\<lambda>b. bind_res (of_result (sx_node_decode sx b)) (\<lambda>node. Inr (sx_keccak sx b, node)))
         (filter (\<lambda>b. b \<noteq> [0x80]) state))
       (\<lambda>nodes. Inr (hm_collect nodes))"

text \<open>One round of the loop over the addresses, on the codes and the store.\<close>

definition account_step ::
    "('e, 'g, 'd, 'k, 's, 'n) store_ext \<Rightarrow> 'g \<Rightarrow> (h256, 'd) hmap \<Rightarrow> address \<Rightarrow>
     (h256, bytes) hmap \<times> 's \<Rightarrow> ((h256, bytes) hmap \<times> 's) res" where
  "account_step sx g all_nodes addr = (\<lambda>(codes, store).
     let hashed_address = sx_hash_address sx addr in
     bind_res (of_result (sx_state_get sx g hashed_address)) (\<lambda>found.
     case found of
       None \<Rightarrow> Inr (codes, store)
     | Some rlp \<Rightarrow>
         bind_res (of_result (sx_account_decode sx rlp)) (\<lambda>st.
         let codes' = hm_or_insert (as_code_hash st) [] codes in
         case sx_from_nodes sx (as_storage_root st) all_nodes of
           Inl _ \<Rightarrow> Inr (codes', store)
         | Inr storage_trie \<Rightarrow>
             (let nodes = fst (get_trie_nodes_with_dummies (sx_from_hex sx) (sx_dummy sx) storage_trie) in
              if nodes = [] then Inr (codes', store)
              else bind_res (of_result (sx_put_storage sx (sx_h256 sx hashed_address) nodes store)) (\<lambda>store'.
                Inr (codes', store'))))))"

definition prepare_no_zkvm_state ::
    "('n, 'b, 'e, 'c) env \<Rightarrow> ('e, 'g, 'd, 'k, 's, 'n) store_ext \<Rightarrow> cache \<Rightarrow> ('s \<times> block \<times> string) res" where
  "prepare_no_zkvm_state env sx c =
     (if length (c_blocks c) > 1 then Inl (Error ''Cache for L1 witness should contain only one block.'')
      else bind_res (cache_get_chain_config (en_get_genesis env) c) (\<lambda>cfg.
        bind_res (index_at (c_blocks c) 0) (\<lambda>blk.
        bind_res (get_first_block_number c) (\<lambda>number.
        bind_res (of_result (en_exec_witness env (c_witness c) cfg number)) (\<lambda>ew.
        bind_res (of_result (sx_guest sx ew)) (\<lambda>g.
        bind_res (of_result (sx_new sx)) (\<lambda>store.
        bind_res (decoded_nodes sx (w_state (c_witness c))) (\<lambda>all_nodes.
        bind_res (of_result (sx_from_nodes sx (sx_parent_root sx g) all_nodes)) (\<lambda>state_trie.
        bind_res (of_result (sx_put_state sx
            (fst (get_trie_nodes_with_dummies (sx_from_hex sx) (sx_dummy sx) state_trie)) store)) (\<lambda>store.
        let addresses = map (sx_address sx) (filter (\<lambda>k. length k = 20) (sx_keys sx ew)) in
        bind_res (fold_res (account_step sx g all_nodes) addresses (sx_codes sx g, store)) (\<lambda>(all_codes, store).
        bind_res (of_result (sx_set_config sx cfg store)) (\<lambda>store.
        bind_res (fold_res (\<lambda>(h, code) s. of_result (sx_add_code sx h code s)) all_codes store) (\<lambda>store.
        bind_res (fold_res (\<lambda>(h, header) s. of_result (sx_add_header sx h header s)) (sx_headers sx g) store) (\<lambda>store.
          Inr (store, blk, en_show_net env (c_network c))))))))))))))))"

section \<open>Running\<close>

text \<open>\<open>Instant::now()\<close> before and \<open>elapsed()\<close> after.\<close>

definition timed :: "(('n, 'c) world, 'a) act \<Rightarrow> (('n, 'c) world, 'a \<times> duration) act" where
  "timed m = (\<lambda>w. andthen m (\<lambda>x w'. (Inr (x, rs_clock (wd_remote w') - rs_clock (wd_remote w)), w')) w)"

definition no_zkvm_run ::
    "('n, 'b, 'e, 'c) env \<Rightarrow> ('e, 'g, 'd, 'k, 's, 'n) store_ext \<Rightarrow> cache \<Rightarrow> (('n, 'c) world, duration \<times> duration) act" where
  "no_zkvm_run env sx c =
     andthen (timed (andthen (lift_res (prepare_no_zkvm_state env sx c)) (\<lambda>prepared.
         andthen (outside (sx_prepare_time sx)) (\<lambda>_. ret prepared)))) (\<lambda>((store, blk, net), prep_duration).
     andthen (timed (call (sx_add_block sx store blk))) (\<lambda>(_, exec_duration).
       ret (prep_duration, exec_duration)))"

primrec repeat_run :: "nat \<Rightarrow> ('s, 'a) act \<Rightarrow> ('s, 'a list) act" where
  "repeat_run 0 m = ret []"
| "repeat_run (Suc n) m = andthen m (\<lambda>x. andthen (repeat_run n m) (\<lambda>xs. ret (x # xs)))"

fun debug_backend :: "backend_type \<Rightarrow> string" where
  "debug_backend ExecBackend = ''Exec''"
| "debug_backend SP1Backend = ''SP1''"
| "debug_backend Risc0Backend = ''RISC0''"
| "debug_backend ZiskBackend = ''ZisK''"
| "debug_backend OpenVMBackend = ''OpenVM''"

text \<open>The statistics are formatted for the log; what is logged is not kept, its panics are.\<close>

definition replay_no_zkvm ::
    "('n, 'b, 'e, 'c) env \<Rightarrow> ('e, 'g, 'd, 'k, 's, 'n) store_ext \<Rightarrow> cache \<Rightarrow> replay_options \<Rightarrow>
     (('n, 'c) world, duration) act" where
  "replay_no_zkvm env sx c opts =
     andthen (lift_res (backend (en_feats env) (o_zkvm (o_common opts)))) (\<lambda>b.
     if b \<noteq> ExecBackend then
       throw (Error (''Tried to execute without zkVM but backend was set to '' @ debug_backend b))
     else if o_action (o_common opts) = Prove then throw (Error ''Proving not enabled without backend'')
     else andthen (repeat_run (unat (o_repeat opts)) (no_zkvm_run env sx c)) (\<lambda>runs.
       let prep_durations = map fst runs; exec_durations = map snd runs in
       if o_repeat opts > 1 then
         andthen (lift_res (rs_fmt (run_stats_new prep_durations))) (\<lambda>_.
         andthen (lift_res (rs_fmt (run_stats_new exec_durations))) (\<lambda>_.
         andthen (lift_res (print_individual_runs prep_durations exec_durations)) (\<lambda>_.
           lift_res (rs_median (run_stats_new exec_durations)))))
       else lift_res (index_at exec_durations 0)))"

section \<open>Properties\<close>

lemma account_step_codes:
  assumes "account_step sx g all_nodes a (m, s) = Inr (m', s')"
  shows "m' = m \<and> sx_state_get sx g (sx_hash_address sx a) = Inr None \<or>
    (\<exists>rlp st. sx_state_get sx g (sx_hash_address sx a) = Inr (Some rlp) \<and> sx_account_decode sx rlp = Inr st \<and>
      m' = hm_or_insert (as_code_hash st) [] m)"
proof -
  obtain found where found: "sx_state_get sx g (sx_hash_address sx a) = Inr found"
    using assms by (auto simp: account_step_def Let_def res_simps)
  show ?thesis
  proof (cases found)
    case None
    then show ?thesis using assms found by (simp add: account_step_def Let_def)
  next
    case (Some rlp)
    obtain st where st: "sx_account_decode sx rlp = Inr st"
      using assms found Some by (auto simp: account_step_def Let_def res_simps)
    have "m' = hm_or_insert (as_code_hash st) [] m"
    proof (cases "sx_from_nodes sx (as_storage_root st) all_nodes")
      case (Inl e)
      then show ?thesis using assms found Some st by (simp add: account_step_def Let_def)
    next
      case (Inr tr)
      then show ?thesis
        using assms found Some st by (simp add: account_step_def Let_def res_simps split: if_splits)
    qed
    then show ?thesis using found Some st by simp
  qed
qed


section \<open>Repeated runs\<close>

abbreviation wd_clock :: "('n, 'c) world \<Rightarrow> nat" where
  "wd_clock w \<equiv> rs_clock (wd_remote w)"

lemma timed_Inr: "timed m w = (Inr (x, d), w') \<Longrightarrow> m w = (Inr x, w') \<and> d = wd_clock w' - wd_clock w"
  by (auto simp: timed_def elim!: andthen_Inr_E)

lemma outside_clock: "outside f w = (Inr x, w') \<Longrightarrow> wd_clock w \<le> wd_clock w' \<and> wd_fs w' = wd_fs w"
  by (auto simp: outside_def zoom_def split: prod.splits)

lemma no_zkvm_run_time:
  assumes "no_zkvm_run env sx c w = (Inr (p, e), w')"
  shows "wd_clock w + (p + e) \<le> wd_clock w' \<and> wd_fs w' = wd_fs w"
proof -
  from assms obtain prepared w1 u where
    one: "timed (andthen (lift_res (prepare_no_zkvm_state env sx c)) (\<lambda>prepared.
         andthen (outside (sx_prepare_time sx)) (\<lambda>_. ret prepared))) w = (Inr (prepared, p), w1)"
    and two: "timed (call (sx_add_block sx (fst prepared) (fst (snd prepared)))) w1 = (Inr (u, e), w')"
    by (auto simp: no_zkvm_run_def split: prod.splits elim!: andthen_Inr_E)
  from one have "wd_clock w \<le> wd_clock w1 \<and> wd_fs w1 = wd_fs w \<and> p = wd_clock w1 - wd_clock w"
    by (auto dest!: timed_Inr elim!: andthen_Inr_E dest: outside_clock)
  moreover from two have "wd_clock w1 \<le> wd_clock w' \<and> wd_fs w' = wd_fs w1 \<and> e = wd_clock w' - wd_clock w1"
    by (auto simp: call_def dest!: timed_Inr elim!: andthen_Inr_E dest: outside_clock)
  ultimately show ?thesis by simp
qed

lemma repeat_run_time:
  assumes "repeat_run n (no_zkvm_run env sx c) w = (Inr runs, w')"
  shows "length runs = n \<and> wd_clock w + sum_list (map snd runs) \<le> wd_clock w' \<and> wd_fs w' = wd_fs w"
  using assms
proof (induction n arbitrary: w runs)
  case 0
  then show ?case by simp
next
  case (Suc n)
  then obtain p e w1 rest where "no_zkvm_run env sx c w = (Inr (p, e), w1)"
    "repeat_run n (no_zkvm_run env sx c) w1 = (Inr rest, w')" "runs = (p, e) # rest"
    by (auto elim!: andthen_Inr_E)
  then show ?case using no_zkvm_run_time [of env sx c w p e w1] Suc.IH [of w1 rest] by simp
qed

lemma rs_fmt_sum: "rs_fmt (run_stats_new ds) = Inr vals \<Longrightarrow> sum_list ds < dur_limit"
  by (auto simp: rs_fmt_def rs_mean_def dur_sum_def res_simps split: if_splits)

text \<open>The median, or the first of one, lies between the extremes.\<close>

lemma reported_between:
  assumes "ds \<noteq> []" and "sum_list ds < dur_limit \<and> rs_median (run_stats_new ds) = Inr d \<or> index_at ds 0 = Inr d"
  shows "Min (set ds) \<le> d \<and> d \<le> Max (set ds)"
proof (cases "index_at ds 0 = Inr d")
  case True
  then show ?thesis using assms(1) by (cases ds) simp_all
next
  case False
  then obtain m where m: "rs_median (run_stats_new ds) = Inr m" "sort ds ! ((length ds - 1) div 2) \<le> m"
    "m \<le> sort ds ! (length ds div 2)"
    using rs_median_middle [OF assms(1)] assms(2) by auto
  have mem: "sort ds ! i \<in> set ds" if "i < length ds" for i
    using nth_mem [of i "sort ds"] that by simp
  have idx: "(length ds - 1) div 2 < length ds" "length ds div 2 < length ds"
    using assms(1) by (cases ds, simp_all)+
  have "Min (set ds) \<le> sort ds ! ((length ds - 1) div 2)" "sort ds ! (length ds div 2) \<le> Max (set ds)"
    using mem [OF idx(1)] mem [OF idx(2)] by (simp_all only: List.finite_set Min_le Max_ge)
  then show ?thesis using m assms(2) False by simp
qed


text \<open>
  \<open>--repeat 0\<close> is accepted on the command line, and ends in a panic: there is no duration to return.
\<close>

theorem repeat_zero_panics:
  assumes "o_repeat opts = 0" and "o_zkvm (o_common opts) = None" and "o_action (o_common opts) = Execute"
  shows "replay_no_zkvm env sx c opts w = (Inl (Panic ''index out of bounds''), w)"
  using assms by (simp add: replay_no_zkvm_def andthen_def backend_def)

section \<open>Instances\<close>

text \<open>A store with nothing in it, and an execution of three seconds.\<close>

definition example_store :: "(u64, unit, unit, nibbles, unit, nat) store_ext" where
  "example_store =
     \<lparr>sx_guest = (\<lambda>_. Inr ()), sx_keys = (\<lambda>_. [replicate 20 1]), sx_codes = (\<lambda>_. [(5, [1])]), sx_parent_root = (\<lambda>_. 0),
      sx_headers = (\<lambda>_. [(7, [])]), sx_state_get = (\<lambda>_ _. Inr (Some [])), sx_keccak = (\<lambda>_. 0), sx_node_decode = (\<lambda>_. Inr ()),
      sx_from_nodes = (\<lambda>_ _. Inr []), sx_from_hex = (\<lambda>n. n), sx_dummy = [], sx_address = (\<lambda>_. 1), sx_hash_address = (\<lambda>_. []),
      sx_h256 = (\<lambda>_. 0),
      sx_account_decode = (\<lambda>_. Inr \<lparr>as_nonce = 0, as_balance = 0, as_storage_root = 0, as_code_hash = 6\<rparr>),
      sx_new = Inr (), sx_put_state = (\<lambda>_ _. Inr ()), sx_put_storage = (\<lambda>_ _ _. Inr ()), sx_set_config = (\<lambda>_ _. Inr ()),
      sx_add_code = (\<lambda>_ _ _. Inr ()), sx_add_header = (\<lambda>_ _ _. Inr ()),
      sx_prepare_time = (\<lambda>n. ((), 10 ^ 9, n)), sx_add_block = (\<lambda>_ _ n. (Inr (), 3 * 10 ^ 9, n))\<rparr>"


definition no_zkvm_opts :: "u32 \<Rightarrow> replay_options" where
  "no_zkvm_opts n = online_opts\<lparr>o_no_zkvm := True, o_repeat := n\<rparr>"

definition no_zkvm_cache :: cache where
  "no_zkvm_cache = cache_new example_ids no_features [example_block 7] empty_witness \<lparr>cc_chain_id = 1\<rparr> []"

lemma example_no_zkvm_run:
  "no_zkvm_run example_env example_store no_zkvm_cache w
    = (Inr (10 ^ 9, 3 * 10 ^ 9), w\<lparr>wd_remote := (wd_remote w)\<lparr>rs_clock := rs_clock (wd_remote w) + 4 * 10 ^ 9\<rparr>\<rparr>)"
proof -
  have "prepare_no_zkvm_state example_env example_store no_zkvm_cache
      = Inr ((), example_block 7, injective_net (PublicNetwork Mainnet))"
    by (simp add: prepare_no_zkvm_state_def no_zkvm_cache_def cache_new_def no_features_def cache_get_chain_config_def
        network_from_chain_id_def example_ids_def get_first_block_number_def example_store_def decoded_nodes_def
        empty_witness_def get_trie_nodes_with_dummies_def insert_dummies_def hm_keys_def account_step_def hm_or_insert_def)
  then show ?thesis
    by (simp add: no_zkvm_run_def timed_def andthen_def outside_def call_def zoom_def)
      (simp add: example_store_def)
qed


theorem repeat_zero_panics_witness:
  "replay_options_ok (no_zkvm_opts 0) \<and>
   replay_no_zkvm example_env example_store no_zkvm_cache (no_zkvm_opts 0) (example_world 7)
     = (Inl (Panic ''index out of bounds''), example_world 7)"
proof
  show "replay_options_ok (no_zkvm_opts 0)"
    by (simp add: replay_options_ok_def no_zkvm_opts_def online_opts_def common_default_def)
  show "replay_no_zkvm example_env example_store no_zkvm_cache (no_zkvm_opts 0) (example_world 7)
     = (Inl (Panic ''index out of bounds''), example_world 7)"
    by (rule repeat_zero_panics) (simp_all add: no_zkvm_opts_def online_opts_def common_default_def)
qed

end
