(* ===== verification/Receipts.thy ===== *)
theory Receipts
  imports Chain_Types
begin

text \<open>
  \<open>print_receipt\<close> and \<open>print_transition\<close> of \<open>src/cli.rs\<close>: the lines that are printed for a transaction that was
  replayed. A hash or an address is formatted with all its digits, a number without leading zeros; the data of a log
  is formatted by the crate \<open>bytes\<close>, a parameter.
\<close>

record account_info =
  ai_balance :: u256
  ai_nonce :: u64
  ai_code_hash :: h256

text \<open>\<open>AccountUpdate\<close>, \<open>Log\<close> and \<open>Receipt\<close>.\<close>

record account_change =
  ac_address :: address
  ac_removed :: bool
  ac_info :: "account_info option"
  ac_code :: "bytes option"
  ac_added_storage :: "(h256, u256) hmap"

record log_entry =
  lo_address :: address
  lo_topics :: "h256 list"
  lo_data :: bytes

record receipt =
  rc_tx_type :: tx_type
  rc_succeeded :: bool
  rc_cumulative_gas_used :: u64
  rc_logs :: "log_entry list"

text \<open>\<open>Debug\<close> of \<open>TxType\<close>, and the hexadecimal formats.\<close>

fun debug_tx_type :: "tx_type \<Rightarrow> string" where
  "debug_tx_type Legacy = ''Legacy''"
| "debug_tx_type EIP2930 = ''EIP2930''"
| "debug_tx_type EIP1559 = ''EIP1559''"
| "debug_tx_type EIP4844 = ''EIP4844''"
| "debug_tx_type EIP7702 = ''EIP7702''"
| "debug_tx_type FeeToken = ''FeeToken''"
| "debug_tx_type Privileged = ''Privileged''"

definition hex_address :: "address \<Rightarrow> string" where "hex_address a = pad0 40 (show_hex (unat a))"
definition hex_h256 :: "h256 \<Rightarrow> string" where "hex_h256 h = ''0x'' @ pad0 64 (show_hex (unat h))"
definition hex_u256 :: "u256 \<Rightarrow> string" where "hex_u256 v = ''0x'' @ show_hex (unat v)"
definition hex_encode :: "bytes \<Rightarrow> string" where "hex_encode bs = concat (map (\<lambda>b. pad0 2 (show_hex (unat b))) bs)"

definition print_transition :: "account_change \<Rightarrow> string list" where
  "print_transition u =
     [''Account '' @ hex_address (ac_address u)] @
     (if ac_removed u then [''  Account deleted.''] else []) @
     (case ac_info u of
        None \<Rightarrow> []
      | Some info \<Rightarrow>
          [''  Updated AccountInfo:'',
           ''    New balance: '' @ show_nat (unat (ai_balance info)),
           ''    New nonce: '' @ show_u64 (ai_nonce info),
           ''    New codehash: '' @ hex_h256 (ai_code_hash info)] @
          (case ac_code u of None \<Rightarrow> [] | Some code \<Rightarrow> [''    New code: '' @ hex_encode code])) @
     (if ac_added_storage u \<noteq> [] then [''  Updated Storage:''] else []) @
     map (\<lambda>(key, v). ''    '' @ hex_h256 key @ '' = '' @ hex_u256 v) (ac_added_storage u)"

fun join_with :: "string \<Rightarrow> string list \<Rightarrow> string" where
  "join_with sep [] = []"
| "join_with sep [s] = s"
| "join_with sep (s # ss) = s @ sep @ join_with sep ss"

definition print_receipt :: "(bytes \<Rightarrow> string) \<Rightarrow> receipt \<Rightarrow> string list" where
  "print_receipt show_data r =
     [if rc_succeeded r then ''Transaction succeeded.'' else ''Transaction failed.'',
      ''  Transaction type: '' @ debug_tx_type (rc_tx_type r),
      ''  Gas used: '' @ show_u64 (rc_cumulative_gas_used r)] @
     (if rc_logs r \<noteq> [] then [''  Logs: ''] else []) @
     map (\<lambda>l. ''    - 0x'' @ hex_address (lo_address l) @ '' ('' @ join_with '', '' (map hex_h256 (lo_topics l)) @ '') => '' @
            show_data (lo_data l)) (rc_logs r)"

section \<open>What the lines say\<close>

lemma show_hex_inj [simp]: "show_hex a = show_hex b \<longleftrightarrow> a = b"
proof
  assume eq: "show_hex a = show_hex b"
  have "digits_val 16 (Suc (max a b)) 0 (show_hex n) = Some n" if "n \<le> max a b" for n
    using that digits_val_show_radix [of 16 n "Suc (max a b)"] by simp
  from this [of a] this [of b] have "Some a = Some b" unfolding eq by simp
  then show "a = b" by simp
qed simp

lemma hex_u256_inj [simp]: "hex_u256 a = hex_u256 b \<longleftrightarrow> a = b"
  by (simp add: hex_u256_def)

end
