(* ===== verification/Replay.thy ===== *)
theory Replay
  imports Fetcher No_Zkvm Receipts
begin

text \<open>
  \<open>replay_block\<close>, \<open>replay_transaction\<close> of \<open>src/cli.rs\<close> and \<open>try_send_report_to_slack\<close> of \<open>src/slack.rs\<close>: one block from
  its data to the report, with the policies on notifications, on keeping the cache and on the benchmark file.
\<close>

section \<open>The parts\<close>

definition try_send_report_to_slack ::
    "('n, 'b, 'e, 'c) env \<Rightarrow> report \<Rightarrow> string option \<Rightarrow> (('n, 'c) world, unit) act" where
  "try_send_report_to_slack env r webhook =
     (case webhook of
        None \<Rightarrow> ret ()
      | Some url \<Rightarrow>
          (let payload = to_slack_message (en_show_net env) (en_host env) r in
           andthen (observe (Posted url payload)) (\<lambda>_. call (en_slack_post env url payload))))"

text \<open>Executing, and proving after that, unless the build is one for ZisK.\<close>

definition exec_and_prove ::
    "('n, 'b, 'e, 'c) env \<Rightarrow> backend_type \<Rightarrow> common_options \<Rightarrow> cache \<Rightarrow>
     (('n, 'c) world, outcome option \<times> outcome option) act" where
  "exec_and_prove env be common c =
     (case o_action common of
        Execute \<Rightarrow> andthen (attempt (exec env be c)) (\<lambda>execution_result. ret (Some execution_result, None))
      | Prove \<Rightarrow>
          andthen (if feat_zisk (en_feats env) then ret None
                   else andthen (attempt (exec env be c)) (\<lambda>execution_result. ret (Some execution_result)))
            (\<lambda>execution_result.
          andthen (attempt (prove env be (o_proof_type common) c)) (\<lambda>proving_result.
            ret (execution_result, Some proving_result))))"

text \<open>Which of the ways a block is run; a failure is a result, not an error of the command.\<close>

definition run_block ::
    "('n, 'b, 'e, 'c) env \<Rightarrow> ('e, 'g, 'x, 'k, 's, 'n) store_ext \<Rightarrow> replay_options \<Rightarrow> backend_type \<Rightarrow> cache \<Rightarrow>
     (('n, 'c) world, outcome option \<times> outcome option) act" where
  "run_block env sx opts be c =
     (if o_no_zkvm opts then
        andthen (attempt (replay_no_zkvm env sx c opts)) (\<lambda>result. ret (Some result, None))
      else exec_and_prove env be (o_common opts) c)"

definition show_report :: "('n, 'b, 'e, 'c) env \<Rightarrow> bool \<Rightarrow> report \<Rightarrow> (('n, 'c) world, unit) act" where
  "show_report env verbose r =
     (if verbose then observe (Printed (report_lines (en_show_net env) (en_host env) r))
      else observe (case report_log (en_show_net env) r of (level, line) \<Rightarrow> Logged level line))"

definition notify :: "('n, 'b, 'e, 'c) env \<Rightarrow> replay_options \<Rightarrow> report \<Rightarrow> (('n, 'c) world, unit) act" where
  "notify env opts r =
     (case o_notification_level opts of
        NotifyFailed \<Rightarrow> if has_error r then try_send_report_to_slack env r (o_slack_url opts) else ret ()
      | NotifyOff \<Rightarrow> ret ()
      | NotifyOn \<Rightarrow> try_send_report_to_slack env r (o_slack_url opts))"

definition settle_cache :: "('n, 'b, 'e, 'c) env \<Rightarrow> replay_options \<Rightarrow> report \<Rightarrow> cache \<Rightarrow> (('n, 'c) world, unit) act" where
  "settle_cache env opts r c =
     (if \<not> o_cached opts then
        (case o_cache_level opts of
           CacheOn \<Rightarrow> ret ()
         | CacheFailed \<Rightarrow> if \<not> has_error r then on_disk (cache_delete (en_show_net env) c) else ret ()
         | CacheOff \<Rightarrow> on_disk (cache_delete (en_show_net env) c))
      else ret ())"

text \<open>\<open>expect\<close> on a \<open>Result\<close>: an error becomes a panic with the message in front.\<close>

definition expecting :: "string \<Rightarrow> ('s, 'a) act \<Rightarrow> ('s, 'a) act" where
  "expecting msg m = (\<lambda>s. case m s of
       (Inl (Error e), t) \<Rightarrow> (Inl (Panic (msg @ '': '' @ e)), t)
     | r \<Rightarrow> r)"

definition bench_path :: path where "bench_path = [''bench_latest.json'']"

definition write_bench :: "('n, 'b, 'e, 'c) env \<Rightarrow> replay_options \<Rightarrow> report \<Rightarrow> (('n, 'c) world, unit) act" where
  "write_bench env opts r =
     (if o_bench opts then
        andthen (lift_res (to_bench_file (en_host env) r)) (\<lambda>entry.
        andthen (expecting ''failed to create bench_latest.json''
            (on_disk (fs_write bench_path (fst (en_bench_json env entry))))) (\<lambda>_.
          case snd (en_bench_json env entry) of
            None \<Rightarrow> ret ()
          | Some e \<Rightarrow> throw (Error (''failed to write to bench_latest.json: '' @ e))))
      else ret ())"

section \<open>One block, one transaction\<close>

definition no_block :: string where
  "no_block = ''no block found in the cache, this should never happen''"

definition first_block :: "cache \<Rightarrow> block res" where
  "first_block c = (case c_blocks c of [] \<Rightarrow> Inl (Error no_block) | blk # _ \<Rightarrow> Inr blk)"

text \<open>The report of a run, with what the options say about it.\<close>

abbreviation report_for ::
    "common_options \<Rightarrow> block \<Rightarrow> network \<Rightarrow> outcome option \<Rightarrow> outcome option \<Rightarrow> report" where
  "report_for common \<equiv> report_new_for (o_zkvm common) (o_resource common) (o_action common)"

definition replay_block ::
    "('n, 'b, 'e, 'c) env \<Rightarrow> ('n, 'j, 'd, 't, 'p) fallback_ext \<Rightarrow> ('e, 'g, 'x, 'k, 's, 'n) store_ext \<Rightarrow> block_options \<Rightarrow>
     (('n, 'c) world, unit) act" where
  "replay_block env fb sx args =
     (let opts = bo_opts args; common = o_common opts in
      andthen (get_blockdata env fb opts (bo_block args)) (\<lambda>(c, net).
      andthen (lift_res (first_block c)) (\<lambda>blk.
      andthen (lift_res (backend (en_feats env) (o_zkvm common))) (\<lambda>be.
      andthen (run_block env sx opts be c) (\<lambda>(execution_result, proving_result).
      let r = report_for common blk net execution_result proving_result in
      andthen (show_report env (o_verbose common) r) (\<lambda>_.
      andthen (notify env opts r) (\<lambda>_.
      andthen (settle_cache env opts r c) (\<lambda>_.
        write_bench env opts r))))))))"

definition replay_transaction ::
    "('n, 'b, 'e, 'c) env \<Rightarrow> ('n, 'j, 'd, 't, 'p) fallback_ext \<Rightarrow> ('e, 'g, account_change list, receipt) vm_ext \<Rightarrow>
     (bytes \<Rightarrow> string) \<Rightarrow> transaction_opts \<Rightarrow> (('n, 'c) world, unit) act" where
  "replay_transaction env fb vx show_data args =
     (if o_cached (to_opts args) \<and> to_block_number args = None then
        throw (Error ''In cached mode, --block-number must be specified for transaction replay'')
      else
        andthen (get_blockdata env fb (to_opts args) (to_block_number args)) (\<lambda>(c, _).
        andthen (lift_res (run_tx env vx c (to_tx_hash args))) (\<lambda>(receipt, transitions).
        andthen (observe (Printed (print_receipt show_data receipt))) (\<lambda>_.
          for_each (\<lambda>t. observe (Printed (print_transition t))) transitions))))"

section \<open>What keeps the files\<close>

lemma keeps_option_cases:
  "keeps f m \<Longrightarrow> keeps f m' \<Longrightarrow> keeps f (case a of Execute \<Rightarrow> m | Prove \<Rightarrow> m')"
  "keeps f m \<Longrightarrow> keeps f m' \<Longrightarrow> keeps f m'' \<Longrightarrow> keeps f (case cl of CacheFailed \<Rightarrow> m | CacheOff \<Rightarrow> m' | CacheOn \<Rightarrow> m'')"
  "keeps f m \<Longrightarrow> keeps f m' \<Longrightarrow> keeps f m'' \<Longrightarrow>
     keeps f (case nl of NotifyFailed \<Rightarrow> m | NotifyOff \<Rightarrow> m' | NotifyOn \<Rightarrow> m'')"
  by (cases a, simp_all) (cases cl, simp_all, cases nl, simp_all)

lemma keeps_expecting [keeps_intros]: "keeps f m \<Longrightarrow> keeps f (expecting msg m)"
  unfolding keeps_def expecting_def by (auto split: prod.split sum.split fault.split) (metis snd_conv)+

lemma keeps_exec [keeps_intros]:
  "keeps wd_fs (exec env be c)" "keeps wd_fs (prove env be pt c)"
  "keeps posts (exec env be c)" "keeps posts (prove env be pt c)"
  unfolding exec_def prove_def by (intro keeps_intros)+

lemma keeps_exec_and_prove [keeps_intros]:
  "keeps wd_fs (exec_and_prove env be common c)" "keeps posts (exec_and_prove env be common c)"
  unfolding exec_and_prove_def by (intro keeps_intros keeps_option_cases)+

lemma keeps_timed [keeps_intros]: "keeps f m \<Longrightarrow> keeps f (timed m)"
  unfolding keeps_def timed_def andthen_def by (auto split: prod.split sum.split) (metis snd_conv)+

lemma keeps_repeat_run [keeps_intros]: "keeps f m \<Longrightarrow> keeps f (repeat_run n m)"
  by (induction n) (auto intro!: keeps_intros)

lemma keeps_no_zkvm_run [keeps_intros]: "keeps wd_fs (no_zkvm_run env sx c)" "keeps posts (no_zkvm_run env sx c)"
  unfolding no_zkvm_run_def by ((intro keeps_intros, auto intro!: keeps_intros split: prod.split)+)

lemma keeps_replay_no_zkvm [keeps_intros]:
  "keeps wd_fs (replay_no_zkvm env sx c opts)" "keeps posts (replay_no_zkvm env sx c opts)"
  unfolding replay_no_zkvm_def Let_def by (intro keeps_intros)+

lemma keeps_run_block [keeps_intros]: "keeps wd_fs (run_block env sx opts be c)" "keeps posts (run_block env sx opts be c)"
  unfolding run_block_def by (intro keeps_intros)+

lemma keeps_send [keeps_intros]: "keeps wd_fs (try_send_report_to_slack env r webhook)"
  unfolding try_send_report_to_slack_def Let_def by (intro keeps_intros)

lemma keeps_show_report [keeps_intros]: "keeps wd_fs (show_report env verbose r)" "keeps posts (show_report env verbose r)"
  unfolding show_report_def by (simp_all add: keeps_intros split: prod.split)

lemma keeps_settle [keeps_intros]: "keeps posts (settle_cache env opts r c)" "keeps posts (write_bench env opts r)"
  unfolding settle_cache_def write_bench_def by (intro keeps_intros keeps_option_cases)+

lemma keeps_notify [keeps_intros]: "keeps wd_fs (notify env opts r)"
  unfolding notify_def by (intro keeps_intros keeps_option_cases)

lemma exec_and_prove_unfold:
  "exec_and_prove env be common c w =
     (case o_action common of
        Execute \<Rightarrow> (case exec env be c w of (r, w1) \<Rightarrow> (Inr (Some (map_sum (case_fault id id) id r), None), w1))
      | Prove \<Rightarrow>
          (case if feat_zisk (en_feats env) then (None, w)
                else (case exec env be c w of (r, w1) \<Rightarrow> (Some (map_sum (case_fault id id) id r), w1)) of
             (e, w1) \<Rightarrow>
               (case prove env be (o_proof_type common) c w1 of
                  (p, w2) \<Rightarrow> (Inr (e, Some (map_sum (case_fault id id) id p)), w2))))"
proof -
  have att: "attempt (exec env be c) v = (case exec env be c v of (r, v') \<Rightarrow> (Inr (map_sum (case_fault id id) id r), v'))" for v
    using exec_frame [of env be c v] by (auto simp: attempt_def split: prod.split sum.split fault.split)
  have att': "attempt (prove env be pt c) v = (case prove env be pt c v of (r, v') \<Rightarrow> (Inr (map_sum (case_fault id id) id r), v'))"
    for v pt
    using prove_frame [of env be pt c v] by (auto simp: attempt_def split: prod.split sum.split fault.split)
  show ?thesis
    by (auto simp: exec_and_prove_def andthen_def att att' split: action.split prod.split)
qed

end
