(* ===== verification/Replay_Policy.thy ===== *)
theory Replay_Policy
  imports Replay
begin

text \<open>
  What replaying a block promises about files and messages, as a function on an abstract
  state, and the proof that \<open>replay_block\<close> of \<open>src/cli.rs\<close> implements it: which cache files are kept, when a
  message is sent, and what happens when a step fails.
\<close>

section \<open>The promise\<close>

text \<open>All files, and all messages sent so far.\<close>

record 'c ledger =
  lg_files :: "path \<Rightarrow> 'c option"
  lg_posts :: "event list"

definition ledger_of :: "('n, 'c) world \<Rightarrow> 'c ledger" where
  "ledger_of w = \<lparr>lg_files = wd_read w, lg_posts = posts w\<rparr>"

text \<open>The policy options, by whether the run failed.\<close>

definition keeps_file :: "replay_options \<Rightarrow> bool \<Rightarrow> bool" where
  "keeps_file opts failed \<longleftrightarrow> o_cached opts \<or> o_cache_level opts = CacheOn \<or> o_cache_level opts = CacheFailed \<and> failed"

definition notifies :: "replay_options \<Rightarrow> bool \<Rightarrow> bool" where
  "notifies opts failed \<longleftrightarrow> o_notification_level opts = NotifyOn \<or> o_notification_level opts = NotifyFailed \<and> failed"

definition messages :: "('n, 'b, 'e, 'c) env \<Rightarrow> replay_options \<Rightarrow> report \<Rightarrow> event list" where
  "messages env opts r =
     (case o_slack_url opts of
        Some url \<Rightarrow> if notifies opts (has_error r) then [Posted url (to_slack_message (en_show_net env) (en_host env) r)] else []
      | None \<Rightarrow> [])"

definition settled_files ::
    "('n, 'b, 'e, 'c) env \<Rightarrow> replay_options \<Rightarrow> path \<Rightarrow> report \<Rightarrow> (path \<Rightarrow> 'c option) \<Rightarrow> path \<Rightarrow> 'c option" where
  "settled_files env opts file r files =
     (let kept = if keeps_file opts (has_error r) then files else files(file := None) in
      if o_bench opts then
        (case to_bench_file (en_host env) r of
           Inr entry \<Rightarrow> kept(bench_path \<mapsto> fst (en_bench_json env entry))
         | Inl _ \<Rightarrow> kept)
      else kept)"

definition replay_spec ::
    "('n, 'b, 'e, 'c) env \<Rightarrow> replay_options \<Rightarrow> path \<Rightarrow> report \<Rightarrow> 'c ledger \<Rightarrow> 'c ledger" where
  "replay_spec env opts file r l =
     \<lparr>lg_files = settled_files env opts file r (lg_files l), lg_posts = lg_posts l @ messages env opts r\<rparr>"

section \<open>The steps\<close>

lemma posts_posted: "posts (w\<lparr>wd_events := wd_events w @ [Posted url m]\<rparr>) = posts w @ [Posted url m]"
  by (simp add: posts_def)

lemma send_posts:
  assumes "try_send_report_to_slack env r webhook w = (res, w')"
  shows "posts w' = posts w @ (case webhook of
    Some url \<Rightarrow> [Posted url (to_slack_message (en_show_net env) (en_host env) r)] | None \<Rightarrow> [])"
proof (cases webhook)
  case None
  then show ?thesis using assms by (simp add: try_send_report_to_slack_def)
next
  case (Some url)
  let ?m = "to_slack_message (en_show_net env) (en_host env) r"
  have "call (en_slack_post env url ?m) (w\<lparr>wd_events := wd_events w @ [Posted url ?m]\<rparr>) = (res, w')"
    using assms Some by (simp add: try_send_report_to_slack_def andthen_def Let_def)
  then have "posts w' = posts (w\<lparr>wd_events := wd_events w @ [Posted url ?m]\<rparr>)"
    by (rule keepsD [OF keeps_call(2)])
  then show ?thesis using Some by (simp add: posts_posted)
qed

lemma notify_cases:
  "notify env opts r = (if notifies opts (has_error r) then try_send_report_to_slack env r (o_slack_url opts) else ret ())"
  by (simp add: notify_def notifies_def split: notification_level.split)

lemma notify_posts: "notify env opts r w = (res, w') \<Longrightarrow> posts w' = posts w @ messages env opts r"
  by (auto simp: notify_cases messages_def dest: send_posts split: if_splits option.splits)

lemma settle_cases:
  "settle_cache env opts r c = (if keeps_file opts (has_error r) then ret () else on_disk (cache_delete (en_show_net env) c))"
  by (simp add: settle_cache_def keeps_file_def split: cache_level.split)

lemma settle_files:
  assumes "settle_cache env opts r c w = (Inr (), w')"
  shows "wd_read w' = (if keeps_file opts (has_error r) then wd_read w else (wd_read w)(cache_path (en_show_net env) c := None))"
proof (cases "keeps_file opts (has_error r)")
  case True
  then show ?thesis using assms by (simp add: settle_cases)
next
  case False
  then have "cache_delete (en_show_net env) c (wd_fs w) = (Inr (), wd_fs w')"
    using assms on_disk_frame by (simp add: settle_cases) blast
  then show ?thesis using False disk.del_Inr [OF cache_delete_InrD(2)] by simp
qed

lemma expecting_Inr_iff [res_simps]: "expecting msg m s = (Inr x, t) \<longleftrightarrow> m s = (Inr x, t)"
  by (auto simp: expecting_def split: prod.splits sum.splits fault.splits)

lemma bench_files:
  assumes "write_bench env opts r w = (Inr (), w')"
  shows "wd_read w' = (if o_bench opts then
      case to_bench_file (en_host env) r of
        Inr entry \<Rightarrow> (wd_read w)(bench_path \<mapsto> fst (en_bench_json env entry)) | Inl _ \<Rightarrow> wd_read w
    else wd_read w)"
proof (cases "o_bench opts")
  case False
  then show ?thesis using assms by (simp add: write_bench_def)
next
  case True
  then obtain entry w1 where entry: "to_bench_file (en_host env) r = Inr entry"
    and run: "on_disk (fs_write bench_path (fst (en_bench_json env entry))) w = (Inr (), w1)"
    and last: "(case snd (en_bench_json env entry) of None \<Rightarrow> ret ()
      | Some e \<Rightarrow> throw (Error (''failed to write to bench_latest.json: '' @ e))) w1 = (Inr (), w')"
    using assms by (auto simp: write_bench_def res_simps elim!: andthen_Inr_E)
  have "w' = w1" using last by (auto split: option.splits)
  moreover have "wd_read w1 = (wd_read w)(bench_path \<mapsto> fst (en_bench_json env entry))"
    by (rule disk.put_Inr [OF conjunct2 [OF conjunct2 [OF on_disk_frame [OF run]]]])
  ultimately show ?thesis using True entry by simp
qed

lemma replay_block_steps:
  assumes "replay_block env fb sx args w = (Inr (), w')"
  obtains c net w1 blk be e p w2 w3 w4 w5 where
    "get_blockdata env fb (bo_opts args) (bo_block args) w = (Inr (c, net), w1)"
    "first_block c = Inr blk" "backend (en_feats env) (o_zkvm (o_common (bo_opts args))) = Inr be"
    "run_block env sx (bo_opts args) be c w1 = (Inr (e, p), w2)"
    "show_report env (o_verbose (o_common (bo_opts args)))
       (report_for (o_common (bo_opts args)) blk net e p) w2 = (Inr (), w3)"
    "notify env (bo_opts args)
       (report_for (o_common (bo_opts args)) blk net e p) w3 = (Inr (), w4)"
    "settle_cache env (bo_opts args)
       (report_for (o_common (bo_opts args)) blk net e p) c w4 = (Inr (), w5)"
    "write_bench env (bo_opts args)
       (report_for (o_common (bo_opts args)) blk net e p) w5 = (Inr (), w')"
  using assms unfolding replay_block_def Let_def
  by (auto elim!: andthen_Inr_E split: prod.splits)

section \<open>The refinement\<close>

text \<open>
  C8. A replay that returns has done what the policy says: with the data of the block at hand, it has run the first block
  of the data, and the files and messages are then those of \<open>replay_spec\<close> for the report of
  that run. So the cache file is gone unless the command worked offline, was told to keep it, or keeps it
  for failures and there was one; no other file has changed but the benchmark file where
  it was asked for; and one message was sent if there is somewhere to send it and the level asks for it.
\<close>

theorem replay_block_refines:
  assumes "replay_block env fb sx args w = (Inr (), w')"
  shows "\<exists>c net w1 blk be e p w2.
    get_blockdata env fb (bo_opts args) (bo_block args) w = (Inr (c, net), w1) \<and>
    c_blocks c \<noteq> [] \<and> blk = hd (c_blocks c) \<and>
    backend (en_feats env) (o_zkvm (o_common (bo_opts args))) = Inr be \<and>
    run_block env sx (bo_opts args) be c w1 = (Inr (e, p), w2) \<and>
    ledger_of w' = replay_spec env (bo_opts args) (cache_path (en_show_net env) c)
      (report_for (o_common (bo_opts args)) blk net e p) (ledger_of w1)"
proof -
  obtain c net w1 blk be e p w2 w3 w4 w5 where
    data: "get_blockdata env fb (bo_opts args) (bo_block args) w = (Inr (c, net), w1)"
    and blk: "first_block c = Inr blk" and be: "backend (en_feats env) (o_zkvm (o_common (bo_opts args))) = Inr be"
    and run: "run_block env sx (bo_opts args) be c w1 = (Inr (e, p), w2)"
    and shown: "show_report env (o_verbose (o_common (bo_opts args)))
       (report_for (o_common (bo_opts args)) blk net e p) w2 = (Inr (), w3)"
    and sent: "notify env (bo_opts args)
       (report_for (o_common (bo_opts args)) blk net e p) w3 = (Inr (), w4)"
    and settled: "settle_cache env (bo_opts args)
       (report_for (o_common (bo_opts args)) blk net e p) c w4 = (Inr (), w5)"
    and bench: "write_bench env (bo_opts args)
       (report_for (o_common (bo_opts args)) blk net e p) w5 = (Inr (), w')"
    using assms by (rule replay_block_steps)
  have "wd_fs w4 = wd_fs w1"
    using keepsD [OF keeps_run_block(1) run] keepsD [OF keeps_show_report(1) shown] keepsD [OF keeps_notify sent] by simp
  moreover have "posts w3 = posts w1"
    using keepsD [OF keeps_run_block(2) run] keepsD [OF keeps_show_report(2) shown] by simp
  moreover have "posts w' = posts w4"
    using keepsD [OF keeps_settle(1) settled] keepsD [OF keeps_settle(2) bench] by simp
  ultimately have "ledger_of w' = replay_spec env (bo_opts args) (cache_path (en_show_net env) c)
      (report_for (o_common (bo_opts args)) blk net e p) (ledger_of w1)"
    using notify_posts [OF sent] settle_files [OF settled] bench_files [OF bench]
    by (simp add: ledger_of_def replay_spec_def settled_files_def Let_def split: sum.split)
  moreover have "c_blocks c \<noteq> [] \<and> blk = hd (c_blocks c)"
    using blk by (auto simp: first_block_def split: list.splits)
  ultimately show ?thesis using data be run by blast
qed

section \<open>Order and failures\<close>

text \<open>
  C21. Proving comes after executing: \<open>exec_and_prove\<close> never fails itself, its two results are there as the action says,
  and the backend is used on the blocks of the data at most twice, first to execute and then, for the
  action \<open>Prove\<close>, to prove whatever the execution returned. A build for ZisK, where the process can use its
  client only once, executes nothing before a proof.
\<close>

theorem prove_after_execute:
  "(\<exists>e p. fst (exec_and_prove env be common c w) = Inr (e, p) \<and>
     (e = None) = (o_action common = Prove \<and> feat_zisk (en_feats env)) \<and> (p = None) = (o_action common = Execute)) \<and>
   wd_events (snd (exec_and_prove env be common c w)) = wd_events w @
     (case get_input env c of
        Inl _ \<Rightarrow> []
      | Inr inp \<Rightarrow>
          (if o_action common = Prove \<and> feat_zisk (en_feats env) then [] else [Executed be (c_blocks c)]) @
          (if o_action common = Prove then [Proved be (c_blocks c) (proof_format_from (o_proof_type common))] else []))"
proof (cases "get_input env c")
  case (Inl e)
  then show ?thesis
    by (cases "o_action common") (auto simp: exec_and_prove_unfold exec_unfold prove_unfold)
next
  case (Inr inp)
  then show ?thesis
    using get_input_blocks [OF Inr]
    by (cases "o_action common") (auto simp: exec_and_prove_unfold exec_unfold prove_unfold split: prod.split)
qed

lemma exec_and_prove_returns: "\<exists>e p w'. exec_and_prove env be common c w = (Inr (e, p), w')"
  by (cases "o_action common") (simp_all add: exec_and_prove_unfold split: prod.split)

lemma run_block_returns: "\<not> o_no_zkvm opts \<Longrightarrow> \<exists>e p w'. run_block env sx opts be c w = (Inr (e, p), w')"
  by (simp add: run_block_def exec_and_prove_returns)

text \<open>The event of showing a report.\<close>

definition shown :: "('n, 'b, 'e, 'c) env \<Rightarrow> bool \<Rightarrow> report \<Rightarrow> event" where
  "shown env verbose r =
     (if verbose then Printed (report_lines (en_show_net env) (en_host env) r)
      else (case report_log (en_show_net env) r of (level, line) \<Rightarrow> Logged level line))"

lemma show_report_shown: "show_report env verbose r w = (Inr (), w\<lparr>wd_events := wd_events w @ [shown env verbose r]\<rparr>)"
  by (simp add: show_report_def shown_def)

lemma replay_block_upto_report:
  assumes "get_blockdata env fb (bo_opts args) (bo_block args) w = (Inr (c, net), w1)"
    and "c_blocks c \<noteq> []" and "backend (en_feats env) (o_zkvm (o_common (bo_opts args))) = Inr be"
    and "run_block env sx (bo_opts args) be c w1 = (Inr (e, p), w2)"
    and "r = report_for (o_common (bo_opts args)) (hd (c_blocks c)) net e p"
  shows "replay_block env fb sx args w =
    andthen (notify env (bo_opts args) r) (\<lambda>_. andthen (settle_cache env (bo_opts args) r c) (\<lambda>_. write_bench env (bo_opts args) r))
      (w2\<lparr>wd_events := wd_events w2 @ [shown env (o_verbose (o_common (bo_opts args))) r]\<rparr>)"
proof -
  have "first_block c = Inr (hd (c_blocks c))" using assms(2) by (cases "c_blocks c") (simp_all add: first_block_def)
  then show ?thesis using assms by (simp add: replay_block_def Let_def andthen_def show_report_shown)
qed


lemma slack_failure:
  assumes "get_blockdata env fb (bo_opts args) (bo_block args) w = (Inr (c, net), w1)"
    and "c_blocks c \<noteq> []" and "backend (en_feats env) (o_zkvm (o_common (bo_opts args))) = Inr be"
    and "\<not> o_no_zkvm (bo_opts args)" and "o_notification_level (bo_opts args) = NotifyOn"
    and "o_slack_url (bo_opts args) = Some url" and "\<And>m n. fst (en_slack_post env url m n) = Inl err"
  shows "\<exists>w'. replay_block env fb sx args w = (Inl (Error err), w') \<and> wd_fs w' = wd_fs w1"
proof -
  obtain e p w2 where run: "run_block env sx (bo_opts args) be c w1 = (Inr (e, p), w2)"
    using run_block_returns [OF assms(4)] by blast
  define r where "r = report_for (o_common (bo_opts args)) (hd (c_blocks c)) net e p"
  let ?w3 = "w2\<lparr>wd_events := wd_events w2 @ [shown env (o_verbose (o_common (bo_opts args))) r]\<rparr>"
  have failed: "fst (call (en_slack_post env url m) v) = Inl (Error err)" for m v
    using assms(7) [of m "rs_node (wd_remote v)"]
    by (auto simp: call_def outside_def zoom_def andthen_def split: prod.split)
  have "fst (notify env (bo_opts args) r ?w3) = Inl (Error err)"
    by (simp add: notify_def assms(5,6) try_send_report_to_slack_def Let_def andthen_def failed)
  then obtain w' where sent: "notify env (bo_opts args) r ?w3 = (Inl (Error err), w')" by (metis prod.collapse)
  have "replay_block env fb sx args w = (Inl (Error err), w')"
    unfolding replay_block_upto_report [OF assms(1-3) run r_def] by (rule andthen_Inl [where m = "notify env (bo_opts args) r", OF sent])
  moreover have "wd_fs w' = wd_fs w1"
    using keepsD [OF keeps_notify sent] keepsD [OF keeps_run_block(1) run] by simp
  ultimately show ?thesis by blast
qed

text \<open>
  C25. When Slack does not answer, the replay ends there, with the error of the request: the cache is not
  settled and no benchmark file is written. So \<open>--cache-level off\<close> leaves the cache file of \<open>get_blockdata\<close>.
\<close>

theorem slack_failure_keeps_cache:
  assumes "get_blockdata env fb (bo_opts args) (bo_block args) w = (Inr (c, net), w1)"
    and "c_blocks c \<noteq> []" and "backend (en_feats env) (o_zkvm (o_common (bo_opts args))) = Inr be"
    and "\<not> o_no_zkvm (bo_opts args)" and "o_notification_level (bo_opts args) = NotifyOn"
    and "o_slack_url (bo_opts args) = Some url" and "\<And>m n. fst (en_slack_post env url m n) = Inl err"
  shows "\<exists>w'. replay_block env fb sx args w = (Inl (Error err), w') \<and> wd_fs w' = wd_fs w1"
  using assms by (rule slack_failure)

section \<open>Instances\<close>

text \<open>Block 5 of mainnet without a webhook, keeping the cache or not, and with a webhook that does not answer.\<close>

definition block5_args :: "replay_options \<Rightarrow> block_options" where
  "block5_args opts = \<lparr>bo_block = Some 5, bo_opts = opts\<rparr>"

definition silent_env :: "(nat, block, u64, content) env" where
  "silent_env = example_env\<lparr>en_slack_post := (\<lambda>_ _ n. (Inl ''timed out'', 0, n))\<rparr>"

definition quiet_opts :: "cache_level \<Rightarrow> replay_options" where
  "quiet_opts level = online_opts\<lparr>o_cache_level := level\<rparr>"

definition slack_opts :: replay_options where
  "slack_opts = online_opts\<lparr>o_cache_level := CacheOff, o_slack_url := Some ''https://slack'', o_notification_level := NotifyOn\<rparr>"

lemma block5_args_simps [simp]: "bo_opts (block5_args opts) = opts" "bo_block (block5_args opts) = Some 5"
  by (simp_all add: block5_args_def)

lemma get_blockdata_cong:
  assumes "o_cached opts' = o_cached opts" "o_network opts' = o_network opts" "o_cache_dir opts' = o_cache_dir opts"
    and "o_rpc_url opts' = o_rpc_url opts"
  shows "get_blockdata env fb opts' n = get_blockdata env fb opts n"
  using assms by (simp add: get_blockdata_def setup_rpc_def)

lemma get_blockdata_slack: "get_blockdata (env\<lparr>en_slack_post := f\<rparr>) fb opts n = get_blockdata env fb opts n"
  by (simp add: get_blockdata_def setup_rpc_def get_blockdata_rpc_def fetch_from_node_def block_from_rpc_def
      witness_from_rpc_def cong: sum.case_cong option.case_cong client_error.case_cong if_cong)

lemma block5_data:
  "get_blockdata example_env nat_fallback (bo_opts (block5_args (quiet_opts level))) (bo_block (block5_args (quiet_opts level)))
     (example_world 7) = (Inr (block5_cache, PublicNetwork Mainnet), world_with_block5)"
  using block5_run get_blockdata_cong [of "quiet_opts level" online_opts example_env nat_fallback "Some 5"]
  by (simp add: block5_args_def quiet_opts_def)

lemma block5_data_slack:
  "get_blockdata silent_env nat_fallback (bo_opts (block5_args slack_opts)) (bo_block (block5_args slack_opts)) (example_world 7)
     = (Inr (block5_cache, PublicNetwork Mainnet), world_with_block5)"
proof -
  have "get_blockdata silent_env nat_fallback online_opts (Some 5) = get_blockdata example_env nat_fallback online_opts (Some 5)"
    unfolding silent_env_def by (rule get_blockdata_slack)
  then show ?thesis
    using block5_run get_blockdata_cong [of slack_opts online_opts silent_env nat_fallback "Some 5"]
    by (simp add: block5_args_def slack_opts_def)
qed

lemma block5_simps [simp]:
  "c_blocks block5_cache = [example_block 5]"
  "cache_path injective_net block5_cache = [''replay_cache'', ''cache_mainnet_5.json'']"
proof -
  show "c_blocks block5_cache = [example_block 5]" by (simp add: block5_cache_def cache_new_def)
  show "cache_path injective_net block5_cache = [''replay_cache'', ''cache_mainnet_5.json'']"
    using show_five
    by (simp add: block5_cache_def cache_new_def cache_file_name_def get_block_cache_file_name_def injective_net_def
        network_from_chain_id_def example_ids_def join_def)
qed


lemma slack_block5:
  "fst (en_slack_post silent_env url m n) = Inl ''timed out''"
  "backend (en_feats silent_env) (o_zkvm (o_common (bo_opts (block5_args slack_opts)))) = Inr ExecBackend"
  "\<not> o_no_zkvm (bo_opts (block5_args slack_opts))" "o_notification_level (bo_opts (block5_args slack_opts)) = NotifyOn"
  "o_slack_url (bo_opts (block5_args slack_opts)) = Some ''https://slack''"
  by (simp_all add: silent_env_def slack_opts_def online_opts_def common_default_def backend_def)

lemma slack_block5_fails:
  "\<exists>w'. replay_block silent_env nat_fallback example_store (block5_args slack_opts) (example_world 7)
      = (Inl (Error ''timed out''), w')"
  using slack_failure [OF block5_data_slack _ slack_block5(2-5,1), of example_store] by auto

theorem slack_failure_keeps_cache_witness:
  "\<exists>w'. replay_block silent_env nat_fallback example_store (block5_args slack_opts) (example_world 7)
      = (Inl (Error ''timed out''), w') \<and>
     wd_read w' [''replay_cache'', ''cache_mainnet_5.json''] = Some (CacheFile (block5_cache\<lparr>c_dir := []\<rparr>))"
proof -
  obtain w' where
    "replay_block silent_env nat_fallback example_store (block5_args slack_opts) (example_world 7) = (Inl (Error ''timed out''), w')"
    "wd_fs w' = wd_fs world_with_block5"
    using slack_failure_keeps_cache [OF block5_data_slack _ slack_block5(2-5,1), of example_store] by auto
  then show ?thesis by (auto simp: world_with_block5_def)
qed

lemma block5_replayed:
  "\<exists>w'. replay_block example_env nat_fallback example_store (block5_args (quiet_opts CacheFailed)) (example_world 7) = (Inr (), w')"
proof -
  let ?opts = "quiet_opts CacheFailed"
  have "\<not> o_no_zkvm ?opts" by (simp add: quiet_opts_def online_opts_def)
  obtain e p w2 where run: "run_block example_env example_store ?opts ExecBackend block5_cache world_with_block5 = (Inr (e, p), w2)"
    using run_block_returns [OF \<open>\<not> o_no_zkvm ?opts\<close>] by blast
  have exec: "backend (en_feats example_env) (o_zkvm (o_common (bo_opts (block5_args ?opts)))) = Inr ExecBackend"
    by (simp add: backend_def quiet_opts_def online_opts_def common_default_def)
  define r where "r = report_for (o_common (bo_opts (block5_args ?opts))) (hd (c_blocks block5_cache)) (PublicNetwork Mainnet) e p"
  let ?w3 = "w2\<lparr>wd_events := wd_events w2 @ [shown example_env (o_verbose (o_common (bo_opts (block5_args ?opts)))) r]\<rparr>"
  have fs: "wd_fs w2 = wd_fs world_with_block5" by (rule keepsD [OF keeps_run_block(1) run])
  have del: "\<exists>f. cache_delete injective_net block5_cache (wd_fs world_with_block5) = (Inr (), f)"
    by (simp add: cache_delete_def fs_remove_def world_with_block5_def empty_fs_def)
  have "\<exists>w'. andthen (settle_cache example_env ?opts r block5_cache) (\<lambda>_. write_bench example_env ?opts r) ?w3 = (Inr (), w')"
    using del fs by (auto simp: settle_cases write_bench_def andthen_def zoom_def quiet_opts_def online_opts_def)
  moreover have "notify example_env ?opts r ?w3 = (Inr (), ?w3)"
    by (simp add: notify_cases try_send_report_to_slack_def quiet_opts_def online_opts_def)
  moreover have "replay_block example_env nat_fallback example_store (block5_args ?opts) (example_world 7) =
    andthen (notify example_env ?opts r) (\<lambda>_. andthen (settle_cache example_env ?opts r block5_cache)
      (\<lambda>_. write_bench example_env ?opts r)) ?w3"
    using replay_block_upto_report [OF block5_data _ exec _ r_def, where sx = example_store and ?w2.0 = w2] run
    by simp
  ultimately show ?thesis
    by (simp add: andthen_def)
qed

lemma block5_executed:
  "\<exists>w2. run_block example_env example_store (quiet_opts level) ExecBackend block5_cache world_with_block5
     = (Inr (Some (Inr (2 * 10 ^ 9)), None), w2)"
proof -
  have "get_input example_env block5_cache
      = Inr \<lparr>pi_blocks = [example_block 5], pi_execution_witness = 5, pi_l2 = None\<rparr>"
    by (simp add: get_input_def get_l1_input_def block5_cache_def cache_new_def no_features_def get_first_block_number_def
        genesis_config_def example_block_def)
  then show ?thesis
    by (simp add: run_block_def quiet_opts_def online_opts_def common_default_def exec_and_prove_unfold exec_unfold caught_result_def)
qed

theorem replay_block_refines_witness:
  "\<exists>w'. replay_block example_env nat_fallback example_store (block5_args (quiet_opts CacheFailed)) (example_world 7) = (Inr (), w') \<and>
     wd_read w' = (wd_read world_with_block5)([''replay_cache'', ''cache_mainnet_5.json''] := None)"
proof -
  obtain w' where run: "replay_block example_env nat_fallback example_store (block5_args (quiet_opts CacheFailed)) (example_world 7)
      = (Inr (), w')"
    using block5_replayed by blast
  have ok: "\<not> has_error (report_for common blk net (Some (Inr d)) None)" for common blk net d
    by (simp add: report_new_for_def has_error_def)
  have be: "backend (en_feats example_env) (o_zkvm (o_common (quiet_opts CacheFailed))) = Inr ExecBackend"
    by (simp add: quiet_opts_def online_opts_def common_default_def backend_def)
  have bench: "\<not> o_bench (quiet_opts CacheFailed)" "\<not> keeps_file (quiet_opts CacheFailed) False"
    by (simp_all add: keeps_file_def quiet_opts_def online_opts_def)
  obtain blk net where "ledger_of w' = replay_spec example_env (quiet_opts CacheFailed)
      [''replay_cache'', ''cache_mainnet_5.json'']
      (report_for (o_common (quiet_opts CacheFailed)) blk net (Some (Inr (2 * 10 ^ 9))) None) (ledger_of world_with_block5)"
    using replay_block_refines [OF run] block5_data [of CacheFailed] block5_executed [of CacheFailed] be by auto
  then show ?thesis
    using run ok bench by (simp add: ledger_of_def replay_spec_def settled_files_def)
qed

end
