(* ===== verification/Blocks_Loop.thy ===== *)
theory Blocks_Loop
  imports Replay_Policy
begin

text \<open>
  The command \<open>blocks\<close> and \<open>fetch_latest_block_number\<close> of \<open>src/cli.rs\<close>: which blocks are replayed in which
  order, waiting for the next block whose number is a multiple of 100, and following the head of the chain without end.

  Three of its loops may run forever: they are partial functions, whose value is \<open>None\<close> when they do not return.
\<close>

section \<open>Runs that may not end\<close>

type_synonym ('s, 'a) run = "'s \<Rightarrow> ('a res \<times> 's) option"

text \<open>What follows a run, if it returns, with a value.\<close>

abbreviation proceed ::
    "('a res \<times> 's) option \<Rightarrow> ('a \<Rightarrow> 's \<Rightarrow> ('b res \<times> 's) option) \<Rightarrow> ('b res \<times> 's) option" where
  "proceed r f \<equiv> Option.bind r (\<lambda>(v, s). case v of Inl e \<Rightarrow> Some (Inl e, s) | Inr x \<Rightarrow> f x s)"

section \<open>The latest block\<close>

definition latest_number :: "('n, 'b, 'e, 'c) env \<Rightarrow> eth_client \<Rightarrow> (('n, 'c) world, u64) act" where
  "latest_number env client = andthen (call (en_block_number env client)) (\<lambda>n. lift_res (as_u64 n))"

text \<open>The body of the waiting loop; the number of the block it waits for is computed for the log.\<close>

definition wait_once :: "('n, 'b, 'e, 'c) env \<Rightarrow> eth_client \<Rightarrow> u64 \<Rightarrow> (('n, 'c) world, u64) act" where
  "wait_once env client latest =
     (let blocks_left = 100 - latest mod 100 in
      andthen (lift_res (add_ovf (en_chk env) latest blocks_left)) (\<lambda>_.
      andthen (sleep env (unat (blocks_left * 12))) (\<lambda>_.
        latest_number env client)))"

partial_function (option) wait_for_multiple ::
    "('n, 'b, 'e, 'c) env \<Rightarrow> eth_client \<Rightarrow> bool \<Rightarrow> u64 \<Rightarrow> (('n, 'c) world, u64) run" where
  "wait_for_multiple env client only_eth_proofs_blocks latest w =
     (if only_eth_proofs_blocks \<and> latest mod 100 \<noteq> 0 then
        proceed (Some (wait_once env client latest w))
          (\<lambda>latest' w'. wait_for_multiple env client only_eth_proofs_blocks latest' w')
      else Some (Inr latest, w))"

definition fetch_latest_block_number ::
    "('n, 'b, 'e, 'c) env \<Rightarrow> string \<Rightarrow> bool \<Rightarrow> (('n, 'c) world, u64) run" where
  "fetch_latest_block_number env rpc_url only_eth_proofs_blocks w =
     (case en_client_new env rpc_url of
        Inl e \<Rightarrow> Some (Inl (Error e), w)
      | Inr client \<Rightarrow>
          proceed (Some (latest_number env client w)) (\<lambda>latest w'.
            wait_for_multiple env client only_eth_proofs_blocks latest w'))"

text \<open>With \<open>maybe_rpc.unwrap()\<close> in front, as it is called.\<close>

definition latest_from :: "('n, 'b, 'e, 'c) env \<Rightarrow> blocks_options \<Rightarrow> (('n, 'c) world, u64) run" where
  "latest_from env args w =
     proceed (Some (lift_res (unwrap (o_rpc_url (bs_opts args))) w)) (\<lambda>rpc_url w'.
       fetch_latest_block_number env rpc_url (bs_only_eth_proofs_blocks args) w')"

section \<open>The loops over blocks\<close>

definition second_later :: "('n, 'b, 'e, 'c) env \<Rightarrow> ('n, 'c) world \<Rightarrow> ('n, 'c) world" where
  "second_later env w = snd (sleep env 1 w)"

text \<open>The inner loop: until there is a block that was not replayed.\<close>

partial_function (option) await_block ::
    "('n, 'b, 'e, 'c) env \<Rightarrow> blocks_options \<Rightarrow> u64 \<Rightarrow> u64 \<Rightarrow> (('n, 'c) world, u64) run" where
  "await_block env args block_to_replay last_block w =
     (if bs_endless args \<and> last_block < block_to_replay then
        proceed (latest_from env args w) (\<lambda>last_block' w'.
          await_block env args block_to_replay last_block' (second_later env w'))
      else Some (Inr last_block, w))"

partial_function (option) replay_loop ::
    "('n, 'b, 'e, 'c) env \<Rightarrow> blocks_options \<Rightarrow> (u64 \<Rightarrow> (('n, 'c) world, unit) act) \<Rightarrow> u64 \<Rightarrow> u64 \<Rightarrow>
     (('n, 'c) world, unit) run" where
  "replay_loop env args replay block_to_replay last_block w =
     (if block_to_replay \<le> last_block then
        if bs_only_eth_proofs_blocks args \<and> block_to_replay mod 100 \<noteq> 0 then
          proceed (Some (add_ovf (en_chk env) block_to_replay 1, w)) (\<lambda>next_block w'.
            if bs_endless args \<and> last_block < next_block then
              proceed (latest_from env args w') (\<lambda>last_block' w''.
                replay_loop env args replay next_block last_block' (second_later env w''))
            else replay_loop env args replay next_block last_block w')
        else
          proceed (Some (replay block_to_replay w)) (\<lambda>_ w'.
          proceed (Some (add_ovf (en_chk env) block_to_replay 1, w')) (\<lambda>next_block w''.
          proceed (await_block env args next_block last_block w'') (\<lambda>last_block' w3.
            replay_loop env args replay next_block last_block' w3)))
      else Some (Inr (), w))"

section \<open>The command\<close>

text \<open>The checks for cached blocks: the blocks to run one by one, none of them when a range is meant.\<close>

definition listed_blocks :: "('n, 'b, 'e, 'c) env \<Rightarrow> blocks_options \<Rightarrow> (('n, 'c) world, u64 list) act" where
  "listed_blocks env args =
     (let opts = bs_opts args in
      if o_cached opts \<and> bs_blocks args = [] then
        if bs_from args = None \<and> bs_to args = None then
          andthen (lift_res (unwrap (o_network opts))) (\<lambda>net.
            on_disk (get_block_numbers_in_cache_dir (en_show_net env) (o_cache_dir opts) net))
        else if (bs_from args = None) \<noteq> (bs_to args = None) then
          throw (Error ''Either both `from` and `to` must be specified, or neither.'')
        else ret (bs_blocks args)
      else ret (bs_blocks args))"

definition or_latest :: "('n, 'b, 'e, 'c) env \<Rightarrow> blocks_options \<Rightarrow> u64 option \<Rightarrow> (('n, 'c) world, u64) run" where
  "or_latest env args number w = (case number of Some n \<Rightarrow> Some (Inr n, w) | None \<Rightarrow> latest_from env args w)"

text \<open>The command, given what the command \<open>block\<close> does for one block number.\<close>

definition blocks_with ::
    "('n, 'b, 'e, 'c) env \<Rightarrow> blocks_options \<Rightarrow> (u64 \<Rightarrow> (('n, 'c) world, unit) act) \<Rightarrow> (('n, 'c) world, unit) run" where
  "blocks_with env args replay w =
     proceed (Some (listed_blocks env args w)) (\<lambda>blocks w1.
       if blocks \<noteq> [] then Some (for_each replay (sort blocks) w1)
       else
         proceed (or_latest env args (bs_from args) w1) (\<lambda>from w2.
         proceed (or_latest env args (bs_to args) w2) (\<lambda>to w3.
           if to < from then Some (Inl (Error ''starting point can't be greater than ending point''), w3)
           else replay_loop env args replay from to w3)))"

definition replay_blocks ::
    "('n, 'b, 'e, 'c) env \<Rightarrow> ('n, 'j, 'd, 't, 'p) fallback_ext \<Rightarrow> ('e, 'g, 'x, 'k, 's, 'n) store_ext \<Rightarrow> blocks_options \<Rightarrow>
     (('n, 'c) world, unit) run" where
  "replay_blocks env fb sx args =
     blocks_with env args (\<lambda>n. replay_block env fb sx \<lparr>bo_block = Some n, bo_opts = bs_opts args\<rparr>)"

section \<open>A fixed range of blocks\<close>

text \<open>What a run that does not follow the chain is to replay, in order.\<close>

definition wanted :: "blocks_options \<Rightarrow> u64 \<Rightarrow> bool" where
  "wanted args n \<longleftrightarrow> \<not> bs_only_eth_proofs_blocks args \<or> n mod 100 = 0"

definition planned :: "('n, 'b, 'e, 'c) env \<Rightarrow> blocks_options \<Rightarrow> ('n, 'c) world \<Rightarrow> u64 list option" where
  "planned env args w =
     (if bs_blocks args \<noteq> [] then Some (sort (bs_blocks args))
      else if o_cached (bs_opts args) \<and> bs_from args = None \<and> bs_to args = None then
        (case o_network (bs_opts args) of
           None \<Rightarrow> None
         | Some net \<Rightarrow>
             (case fst (get_block_numbers_in_cache_dir (en_show_net env) (o_cache_dir (bs_opts args)) net (wd_fs w)) of
                Inl _ \<Rightarrow> None
              | Inr ns \<Rightarrow> if ns = [] then None else Some ns))
      else
        (case (bs_from args, bs_to args) of
           (Some from, Some to) \<Rightarrow>
             if \<not> bs_endless args \<and> from \<le> to \<and> to < - 1 then Some (filter (wanted args) (range_incl from to)) else None
         | _ \<Rightarrow> None))"

lemma add_one_exact: "unat n + 1 < 2 ^ 64 \<Longrightarrow> add_ovf chk n 1 = Inr (n + 1) \<and> unat (n + 1 :: u64) = unat n + 1"
  by (simp add: add_ovf_exact unat_word_ariths)

lemma replay_loop_unfold:
  "replay_loop env args replay n m w =
     (if n \<le> m then
        if \<not> wanted args n then
          proceed (Some (add_ovf (en_chk env) n 1, w)) (\<lambda>n' w'.
            if bs_endless args \<and> m < n' then
              proceed (latest_from env args w') (\<lambda>m' w''. replay_loop env args replay n' m' (second_later env w''))
            else replay_loop env args replay n' m w')
        else
          proceed (Some (replay n w)) (\<lambda>_ w'.
          proceed (Some (add_ovf (en_chk env) n 1, w')) (\<lambda>n' w''.
          proceed (await_block env args n' m w'') (\<lambda>m' w3. replay_loop env args replay n' m' w3)))
      else Some (Inr (), w))"
  unfolding wanted_def by (subst replay_loop.simps) (simp only: de_Morgan_disj not_not)

lemma replay_range:
  assumes "\<not> bs_endless args" "unat to + 1 < 2 ^ 64" "unat from \<le> unat to + 1"
  shows "replay_loop env args replay from to w
    = Some (for_each replay (filter (wanted args) (map of_nat [unat from..<Suc (unat to)])) w)"
  using assms(3)
proof (induction "Suc (unat to) - unat from" arbitrary: "from" w)
  case 0
  then have "\<not> from \<le> to" by (simp add: word_le_nat_alt)
  then show ?case using 0 by (simp add: replay_loop.simps)
next
  case (Suc k)
  then have le: "unat from \<le> unat to" "from \<le> to" by (simp_all add: word_le_nat_alt)
  have one: "add_ovf (en_chk env) from 1 = Inr (from + 1)" "unat (from + 1) = unat from + 1"
    using add_one_exact [of "from"] le(1) assms(2) by simp_all
  have IH: "replay_loop env args replay (from + 1) to v
      = Some (for_each replay (filter (wanted args) (map of_nat [unat (from + 1)..<Suc (unat to)])) v)" for v
    by (rule Suc.hyps(1)) (use Suc.hyps(2) one(2) le(1) in simp_all)
  have split: "map of_nat [unat from..<Suc (unat to)] = from # map of_nat [unat (from + 1)..<Suc (unat to)]"
    using le(1) one(2) by (simp add: upt_conv_Cons del: upt_Suc)
  have aw: "await_block env args n m v = Some (Inr m, v)" for n m v
    using assms(1) by (simp add: await_block.simps)
  show ?case
  proof (cases "wanted args from")
    case False
    then show ?thesis
      unfolding split replay_loop_unfold [of env args replay "from"] using le(2) IH one(1) assms(1)
      by (simp del: upt_Suc)
  next
    case True
    then show ?thesis
      unfolding split replay_loop_unfold [of env args replay "from"] using le(2) IH one(1)
      by (simp add: aw andthen_def del: upt_Suc split: prod.split sum.split)
  qed
qed

lemma listing_state:
  "get_block_numbers_in_cache_dir show_net dir net f = (r, f') \<Longrightarrow> f' = f \<and> (\<forall>ns. r = Inr ns \<longrightarrow> sorted ns)"
  by (auto simp: get_block_numbers_in_cache_dir_def andthen_def fs_list_def permitted_def
      split: prod.splits sum.splits option.splits if_splits)

text \<open>
  C10. The command \<open>blocks\<close> ends unless it follows the chain, and replays each of its blocks once, stopping at the first error: the
  blocks that are listed, sorted; without a list all cached blocks of the network, in order; or the blocks of
  a range, both ends included, of which \<open>--only-eth-proofs-blocks\<close> keeps the multiples of 100.
\<close>

theorem blocks_follow_plan:
  assumes "planned env args w = Some ns"
  shows "replay_blocks env fb sx args w
    = Some (for_each (\<lambda>n. replay_block env fb sx \<lparr>bo_block = Some n, bo_opts = bs_opts args\<rparr>) ns w)"
proof -
  let ?replay = "\<lambda>n. replay_block env fb sx \<lparr>bo_block = Some n, bo_opts = bs_opts args\<rparr>"
  consider (listed) "bs_blocks args \<noteq> []"
    | (cached) "bs_blocks args = []" "o_cached (bs_opts args)" "bs_from args = None" "bs_to args = None"
    | (range) "bs_blocks args = []" "\<not> (o_cached (bs_opts args) \<and> bs_from args = None \<and> bs_to args = None)"
    by (cases "bs_blocks args = []") auto
  then show ?thesis
  proof cases
    case listed
    then show ?thesis
      using assms by (simp add: planned_def replay_blocks_def blocks_with_def listed_blocks_def Let_def)
  next
    case cached
    then obtain net r f where net: "o_network (bs_opts args) = Some net"
      and r: "get_block_numbers_in_cache_dir (en_show_net env) (o_cache_dir (bs_opts args)) net (wd_fs w) = (r, f)"
      and ns: "r = Inr ns" "ns \<noteq> []"
      using assms by (cases "get_block_numbers_in_cache_dir (en_show_net env) (o_cache_dir (bs_opts args))
          (the (o_network (bs_opts args))) (wd_fs w)")
        (auto simp: planned_def split: option.splits sum.splits if_splits)
    have "f = wd_fs w" "sort ns = ns" using listing_state [OF r] ns(1) by (simp_all add: sorted_sort_id)
    then have "listed_blocks env args w = (Inr ns, w)"
      using cached net r ns(1) by (simp add: listed_blocks_def zoom_def andthen_def)
    then show ?thesis using ns(2) \<open>sort ns = ns\<close> by (simp add: replay_blocks_def blocks_with_def)
  next
    case range
    then obtain "from" to where ends: "bs_from args = Some from" "bs_to args = Some to"
      and ok: "\<not> bs_endless args" "from \<le> to" "to < - 1"
      and ns: "ns = filter (wanted args) (range_incl from to)"
      using assms by (auto simp: planned_def split: option.splits if_splits)
    have "unat to < unat (- 1 :: u64)" using ok(3) by (simp only: word_less_nat_alt)
    moreover have "unat (- 1 :: u64) = 2 ^ 64 - 1" by (simp add: unsigned_minus_1_eq_mask mask_eq_exp_minus_1)
    ultimately have le: "unat to + 1 < 2 ^ 64" "unat from \<le> unat to + 1" using ok(2) by (simp_all add: word_le_nat_alt)
    have "listed_blocks env args w = (Inr [], w)"
      using range(1) ends by (simp add: listed_blocks_def Let_def)
    then show ?thesis
      using ends ok(2) replay_range [OF ok(1) le]
      by (simp add: replay_blocks_def blocks_with_def or_latest_def range_incl_def ns not_less [symmetric] del: upt_Suc)
  qed
qed

section \<open>Following the chain\<close>

text \<open>The number that is waited for is a multiple of 100, whenever there is one.\<close>

lemma proceed_Inr:
  assumes "proceed r f = Some (Inr y, t)"
  obtains x s where "r = Some (Inr x, s)" "f x s = Some (Inr y, t)"
proof -
  obtain x s where r: "r = Some (x, s)" using assms by (auto simp: bind_eq_Some_conv)
  then show ?thesis using assms that by (cases x) simp_all
qed

lemma proceed_Some:
  assumes "proceed r f = Some (v, t)"
  obtains (failed) e where "r = Some (Inl e, t)" "v = Inl e"
    | (went_on) x s where "r = Some (Inr x, s)" "f x s = Some (v, t)"
proof -
  obtain x s where r: "r = Some (x, s)" using assms by (auto simp: bind_eq_Some_conv)
  then show ?thesis using assms that by (cases x) auto
qed

lemma wait_for_multiple_result:
  fixes env :: "('n, 'b, 'e, 'c) env" and w :: "('n, 'c) world"
  assumes "wait_for_multiple env client only latest w = Some (r, w')"
  shows "only \<Longrightarrow> r = Inr n \<Longrightarrow> n mod 100 = 0"
proof -
  have "\<forall>n. only \<longrightarrow> fst rw = Inr n \<longrightarrow> n mod 100 = 0"
    if "wait_for_multiple env client only latest w = Some rw" for rw
  proof (rule wait_for_multiple.raw_induct
      [where P = "\<lambda>env client only latest w rw. \<forall>n. only \<longrightarrow> fst rw = Inr n \<longrightarrow> n mod 100 = 0", OF _ that])
    fix f and env :: "('n, 'b, 'e, 'c) env" and client only and latest :: u64 and w :: "('n, 'c) world"
      and rw :: "u64 res \<times> ('n, 'c) world"
    assume IH: "\<And>env client only latest w rw. f env client only latest w = Some rw \<Longrightarrow>
        \<forall>n. only \<longrightarrow> fst rw = Inr n \<longrightarrow> n mod 100 = 0"
      and eq: "(if only \<and> latest mod 100 \<noteq> 0 then
          proceed (Some (wait_once env client latest w)) (\<lambda>latest' w'. f env client only latest' w')
        else Some (Inr latest, w)) = Some rw"
    show "\<forall>n. only \<longrightarrow> fst rw = Inr n \<longrightarrow> n mod 100 = 0"
    proof (cases "only \<and> latest mod 100 \<noteq> 0")
      case False
      then have "rw = (Inr latest, w)" using eq unfolding if_not_P [OF False] by simp
      then show ?thesis using False by auto
    next
      case True
      then have "proceed (Some (wait_once env client latest w)) (\<lambda>latest' w'. f env client only latest' w') = Some (fst rw, snd rw)"
        using eq unfolding if_P [OF True] by simp
      then show ?thesis
        by (rule proceed_Some) (use IH in fastforce)+
    qed
  qed
  then show "only \<Longrightarrow> r = Inr n \<Longrightarrow> n mod 100 = 0" using assms by fastforce
qed

lemma latest_from_result:
  assumes "latest_from env args w = Some (Inr n, w')" "bs_only_eth_proofs_blocks args"
  shows "n mod 100 = 0"
proof -
  from assms(1) obtain url v where "fetch_latest_block_number env url (bs_only_eth_proofs_blocks args) v = Some (Inr n, w')"
    unfolding latest_from_def by (rule proceed_Inr)
  then obtain client where
    "proceed (Some (latest_number env client v)) (\<lambda>l v'. wait_for_multiple env client (bs_only_eth_proofs_blocks args) l v')
      = Some (Inr n, w')"
    by (auto simp: fetch_latest_block_number_def split: sum.splits)
  then obtain l v' where "wait_for_multiple env client (bs_only_eth_proofs_blocks args) l v' = Some (Inr n, w')"
    by (rule proceed_Inr)
  then show ?thesis using wait_for_multiple_result assms(2) by blast
qed

lemma await_block_result:
  fixes env :: "('n, 'b, 'e, 'c) env" and w :: "('n, 'c) world"
  assumes "await_block env args b m w = Some (Inr m', w')" "bs_endless args"
  shows "b \<le> m' \<and> (m' = m \<or> (bs_only_eth_proofs_blocks args \<longrightarrow> m' mod 100 = 0))"
proof -
  let ?P = "\<lambda>args b m rw. \<forall>m'. bs_endless args \<longrightarrow> fst rw = Inr m' \<longrightarrow>
      b \<le> m' \<and> (m' = m \<or> (bs_only_eth_proofs_blocks args \<longrightarrow> m' mod 100 = 0))"
  have "?P args b m rw" if "await_block env args b m w = Some rw" for rw
  proof (rule await_block.raw_induct [where P = "\<lambda>env args b m w rw. ?P args b m rw", OF _ that])
    fix f and env :: "('n, 'b, 'e, 'c) env" and args and b m :: u64 and w :: "('n, 'c) world" and rw :: "u64 res \<times> ('n, 'c) world"
    assume IH: "\<And>env args b m w rw. f env args b m w = Some rw \<Longrightarrow> ?P args b m rw"
      and eq: "(if bs_endless args \<and> m < b then
          proceed (latest_from env args w) (\<lambda>m' w'. f env args b m' (second_later env w'))
        else Some (Inr m, w)) = Some rw"
    show "?P args b m rw"
    proof (cases "bs_endless args \<and> m < b")
      case False
      then show ?thesis using eq by auto
    next
      case True
      then have "proceed (latest_from env args w) (\<lambda>m' w'. f env args b m' (second_later env w')) = Some (fst rw, snd rw)"
        using eq unfolding if_P [OF True] by simp
      then show ?thesis
      proof (cases rule: proceed_Some)
        case failed
        then show ?thesis by simp
      next
        case (went_on x s)
        then have "f env args b x (second_later env s) = Some rw" by simp
        note ih = IH [OF this]
        have "bs_only_eth_proofs_blocks args \<longrightarrow> x mod 100 = 0" using latest_from_result [OF went_on(1)] by blast
        then show ?thesis using ih by metis
      qed
    qed
  qed
  from this [OF assms(1)] show ?thesis using assms(2) by simp
qed

text \<open>
  The invariant of the endless loop: there is a block to replay, and with \<open>--only-eth-proofs-blocks\<close> the last block
  is a multiple of 100. So a block that is skipped is never the last one, and the check after skipping is never true.
\<close>

definition following :: "blocks_options \<Rightarrow> u64 \<Rightarrow> u64 \<Rightarrow> bool" where
  "following args n m \<longleftrightarrow> bs_endless args \<and> n \<le> m \<and> (bs_only_eth_proofs_blocks args \<longrightarrow> m mod 100 = 0)"

lemma following_skip:
  assumes "following args n m" "\<not> wanted args n"
  shows "following args (n + 1) m \<and> add_ovf chk n 1 = Inr (n + 1) \<and> \<not> m < n + 1"
proof -
  have "n \<noteq> m" using assms unfolding following_def wanted_def by metis
  then have less: "unat n < unat m" using assms(1) by (simp add: following_def word_le_nat_alt order_less_le)
  have "unat m < 2 ^ 64" using unsigned_less [of m] by simp
  then have "add_ovf chk n 1 = Inr (n + 1) \<and> unat (n + 1) = unat n + 1" using add_one_exact [of n] less by simp
  then show ?thesis using assms(1) less by (simp add: following_def word_le_nat_alt word_less_nat_alt)
qed

lemma replay_loop_endless:
  fixes env :: "('n, 'b, 'e, 'c) env" and w :: "('n, 'c) world"
  assumes "replay_loop env args replay n m w = Some (r, w')" "following args n m"
  shows "r \<noteq> Inr ()"
proof -
  let ?P = "\<lambda>args n m rw. following args n m \<longrightarrow> fst rw \<noteq> Inr ()"
  have "?P args n m rw" if "replay_loop env args replay n m w = Some rw" for rw
  proof (rule replay_loop.raw_induct [where P = "\<lambda>env args replay n m w rw. ?P args n m rw", OF _ that])
    fix f and env :: "('n, 'b, 'e, 'c) env" and args and replay :: "u64 \<Rightarrow> (('n, 'c) world, unit) act" and n m :: u64
      and w :: "('n, 'c) world" and rw :: "unit res \<times> ('n, 'c) world"
    assume IH: "\<And>env args replay n m w rw. f env args replay n m w = Some rw \<Longrightarrow> ?P args n m rw"
      and eq: "(if n \<le> m then
          if bs_only_eth_proofs_blocks args \<and> n mod 100 \<noteq> 0 then
            proceed (Some (add_ovf (en_chk env) n 1, w)) (\<lambda>n' w'.
              if bs_endless args \<and> m < n' then
                proceed (latest_from env args w') (\<lambda>m' w''. f env args replay n' m' (second_later env w''))
              else f env args replay n' m w')
          else
            proceed (Some (replay n w)) (\<lambda>_ w'.
            proceed (Some (add_ovf (en_chk env) n 1, w')) (\<lambda>n' w''.
            proceed (await_block env args n' m w'') (\<lambda>m' w3. f env args replay n' m' w3)))
        else Some (Inr (), w)) = Some rw"
    have skipped: "(bs_only_eth_proofs_blocks args \<and> n mod 100 \<noteq> 0) = (\<not> wanted args n)" by (simp add: wanted_def)
    show "?P args n m rw"
    proof
      assume inv: "following args n m"
      then have le: "n \<le> m" by (simp add: following_def)
      show "fst rw \<noteq> Inr ()"
      proof (cases "wanted args n")
        case False
        note next_block = following_skip [OF inv False, of "en_chk env"]
        have "f env args replay (n + 1) m w = Some rw"
          using eq next_block unfolding skipped by (simp add: le False)
        then show ?thesis using IH next_block by blast
      next
        case True
        then have "proceed (Some (replay n w)) (\<lambda>_ w'.
            proceed (Some (add_ovf (en_chk env) n 1, w')) (\<lambda>n' w''.
            proceed (await_block env args n' m w'') (\<lambda>m' w3. f env args replay n' m' w3))) = Some (fst rw, snd rw)"
          using eq unfolding skipped by (simp only: le if_True if_False not_True_eq_False prod.collapse)
        then show ?thesis
        proof (cases rule: proceed_Some)
          case failed
          then show ?thesis by simp
        next
          case (went_on u w1)
          from went_on(2) show ?thesis
          proof (cases rule: proceed_Some)
            case failed
            then show ?thesis by simp
          next
            case n': (went_on n' w2)
            from n'(2) show ?thesis
            proof (cases rule: proceed_Some)
              case failed
              then show ?thesis by simp
            next
              case m': (went_on m' w3)
              have "following args n' m'"
                using await_block_result [OF m'(1)] inv unfolding following_def by blast
              moreover have "f env args replay n' m' w3 = Some rw" using m'(2) by simp
              ultimately show ?thesis using IH by blast
            qed
          qed
        qed
      qed
    qed
  qed
  from this [OF assms(1)] show ?thesis using assms(2) by simp
qed

lemma or_latest_None: "or_latest env args None = latest_from env args"
  by (simp add: or_latest_def fun_eq_iff)


section \<open>The wait ends\<close>

text \<open>
  A node that keeps up: it answers with the number of its latest block, and in \<open>k\<close> slots of 12 seconds there is at
  least one new block and at most \<open>k\<close> of them.
\<close>

definition paced :: "('n, 'b, 'e, 'c) env \<Rightarrow> eth_client \<Rightarrow> ('n \<Rightarrow> nat) \<Rightarrow> bool" where
  "paced env client height \<longleftrightarrow>
     (\<forall>n. \<exists>latency n'. en_block_number env client n = (Inr (of_nat (height n)), latency, n') \<and> height n' = height n) \<and>
     (\<forall>n k. 0 < k \<longrightarrow> k \<le> 100 \<longrightarrow>
        height n < height (en_sleep env (k * 12) n) \<and> height (en_sleep env (k * 12) n) \<le> height n + k)"

abbreviation wd_height :: "('n \<Rightarrow> nat) \<Rightarrow> ('n, 'c) world \<Rightarrow> nat" where
  "wd_height height w \<equiv> height (rs_node (wd_remote w))"

lemma as_u64_of_nat: "h < 2 ^ 64 \<Longrightarrow> as_u64 (of_nat h) = Inr (of_nat h)"
proof -
  assume h: "h < 2 ^ 64"
  then have "unat (of_nat h :: u256) = h" by (simp add: unat_of_nat take_bit_nat_eq_self_iff)
  moreover have "ucast (of_nat h :: u256) = (of_nat h :: u64)"
    by (rule bit_word_eqI) (simp add: bit_simps)
  ultimately show ?thesis using h by (simp add: as_u64_def)
qed

lemma poll_paced:
  assumes "paced env client height" "wd_height height w < 2 ^ 64"
  shows "\<exists>w'. latest_number env client w = (Inr (of_nat (wd_height height w)), w') \<and>
    wd_height height w' = wd_height height w \<and> wd_fs w' = wd_fs w"
proof -
  obtain latency n' where "en_block_number env client (rs_node (wd_remote w))
      = (Inr (of_nat (wd_height height w)), latency, n')" "height n' = wd_height height w"
    using assms(1) unfolding paced_def by blast
  then show ?thesis
    using as_u64_of_nat [OF assms(2)]
    by (simp add: latest_number_def call_def outside_def zoom_def andthen_def)
qed

lemma wait_once_paced:
  assumes "paced env client height" "h < 2 ^ 64" "h mod 100 \<noteq> 0" "wd_height height w = h"
    and "h + (100 - h mod 100) < 2 ^ 64"
  shows "\<exists>w'. wait_once env client (of_nat h) w = (Inr (of_nat (wd_height height w')), w') \<and>
    h < wd_height height w' \<and> wd_height height w' \<le> h + (100 - h mod 100) \<and> wd_fs w' = wd_fs w"
proof -
  define k where "k = 100 - h mod 100"
  have k: "0 < k" "k \<le> 100" using assms(3) by (simp_all add: k_def)
  have h: "unat (of_nat h :: u64) = h" using assms(2) by (simp add: unat_of_nat take_bit_nat_eq_self_iff)
  have left: "unat (100 - (of_nat h :: u64) mod 100) = k"
  proof -
    have m: "unat ((of_nat h :: u64) mod 100) = h mod 100" by (simp add: unat_mod_distrib h)
    then have "(of_nat h :: u64) mod 100 \<le> 100" by (simp add: word_le_nat_alt)
    then show ?thesis by (simp add: unat_sub m k_def)
  qed
  have twelve: "unat (x * 12) = unat x * 12" if "unat x \<le> 100" for x :: u64
    using that by (simp add: unat_word_ariths)
  have secs: "unat ((100 - (of_nat h :: u64) mod 100) * 12) = k * 12"
    using twelve [of "100 - (of_nat h :: u64) mod 100"] k(2) unfolding left by simp
  have ovf: "add_ovf (en_chk env) (of_nat h) (100 - (of_nat h :: u64) mod 100) = Inr (of_nat h + (100 - of_nat h mod 100))"
    by (rule add_ovf_exact) (use assms(5) in \<open>simp add: left h k_def\<close>)
  obtain v where v: "sleep env (k * 12) w = (Inr (), v)" "rs_node (wd_remote v) = en_sleep env (k * 12) (rs_node (wd_remote w))"
    "wd_fs v = wd_fs w"
    by (simp add: sleep_def andthen_def zoom_def)
  have hv: "h < wd_height height v" "wd_height height v \<le> h + k"
    using assms(1,4) k unfolding paced_def v(2) by auto
  then have "wd_height height v < 2 ^ 64" using assms(5) by (simp add: k_def)
  from poll_paced [OF assms(1) this] obtain w' where
    "latest_number env client v = (Inr (of_nat (wd_height height v)), w')"
    "wd_height height w' = wd_height height v" "wd_fs w' = wd_fs v" by blast
  then show ?thesis
    using hv v(1,3) unfolding wait_once_def Let_def ovf secs k_def [symmetric] by (simp add: andthen_def)
qed

lemma next_multiple:
  fixes h target :: nat
  assumes "target mod 100 = 0" "h \<le> target" "target < h + 100"
  shows "h mod 100 = 0 \<Longrightarrow> h = target" and "h mod 100 \<noteq> 0 \<Longrightarrow> h + (100 - h mod 100) = target"
proof -
  define q r s where "q = h div 100" and "r = h mod 100" and "s = target div 100"
  have h: "h = 100 * q + r" "r < 100" by (simp_all add: q_def r_def)
  have target: "target = 100 * s" using assms(1) div_mult_mod_eq [of target 100] by (simp add: s_def)
  have "r = 0 \<Longrightarrow> q = s" "r \<noteq> 0 \<Longrightarrow> s = q + 1" using assms(2,3) h target by linarith+
  then show "h mod 100 = 0 \<Longrightarrow> h = target" "h mod 100 \<noteq> 0 \<Longrightarrow> h + (100 - h mod 100) = target"
    using h target by (simp_all add: r_def [symmetric])
qed

lemma wait_paced:
  assumes "paced env client height" "target mod 100 = 0" "target < 2 ^ 64"
    and "wd_height height w = h" "h \<le> target" "target < h + 100"
  shows "\<exists>w'. wait_for_multiple env client True (of_nat h) w = Some (Inr (of_nat target), w') \<and>
    wd_height height w' = target \<and> wd_fs w' = wd_fs w"
  using assms(4-6)
proof (induction "target - h" arbitrary: h w rule: less_induct)
  case less
  have h: "unat ((of_nat h :: u64) mod 100) = h mod 100"
    using less.prems assms(3) by (simp add: unat_mod_distrib unat_of_nat take_bit_nat_eq_self_iff)
  have zero: "(of_nat h :: u64) mod 100 = 0 \<longleftrightarrow> h mod 100 = 0"
    unfolding h [symmetric] by (rule unat_eq_zero [symmetric])
  show ?case
  proof (cases "h mod 100 = 0")
    case True
    then have "h = target" by (rule next_multiple(1) [OF assms(2) less.prems(2,3)])
    then show ?thesis
      using True zero less.prems(1) by (subst wait_for_multiple.simps) simp
  next
    case False
    then have next_one: "h + (100 - h mod 100) = target" by (rule next_multiple(2) [OF assms(2) less.prems(2,3)])
    then obtain w' where w': "wait_once env client (of_nat h) w = (Inr (of_nat (wd_height height w')), w')"
      "h < wd_height height w'" "wd_height height w' \<le> target" "wd_fs w' = wd_fs w"
      using wait_once_paced [OF assms(1) _ False less.prems(1)] less.prems(2) assms(3) by auto
    have "\<exists>w''. wait_for_multiple env client True (of_nat (wd_height height w')) w' = Some (Inr (of_nat target), w'') \<and>
        wd_height height w'' = target \<and> wd_fs w'' = wd_fs w'"
      by (rule less.hyps) (use w' less.prems in simp_all)
    moreover have "wait_for_multiple env client True (of_nat h) w
        = wait_for_multiple env client True (of_nat (wd_height height w')) w'"
      using False zero w'(1) by (subst wait_for_multiple.simps) simp
    ultimately show ?thesis using w'(4) by simp
  qed
qed

text \<open>
  C11. With a node that keeps up, waiting for a block of \<open>--only-eth-proofs-blocks\<close> always ends, and with the next
  multiple of 100: the latest block itself if it is one, else the first one after it. No multiple is missed.
\<close>

theorem waiting_ends:
  assumes "en_client_new env url = Inr client" and "paced env client height" and "wd_height height w + 100 < 2 ^ 64"
  shows "\<exists>w'. fetch_latest_block_number env url True w
      = Some (Inr (of_nat (100 * ((wd_height height w + 99) div 100))), w') \<and>
    wd_height height w' = 100 * ((wd_height height w + 99) div 100) \<and> wd_fs w' = wd_fs w"
proof -
  let ?h = "wd_height height w"
  let ?target = "100 * ((?h + 99) div 100)"
  have target: "?target mod 100 = 0" "?h \<le> ?target" "?target < ?h + 100"
    using div_mult_mod_eq [of "?h + 99" 100] mod_less_divisor [of 100 "?h + 99"] by (simp, linarith, linarith)
  obtain v where v: "latest_number env client w = (Inr (of_nat ?h), v)" "wd_height height v = ?h" "wd_fs v = wd_fs w"
    using poll_paced [OF assms(2), of w] assms(3) by auto
  have "?target < 2 ^ 64" using target(3) assms(3) by linarith
  from wait_paced [OF assms(2) target(1) this v(2) target(2,3)] obtain w' where
    "wait_for_multiple env client True (of_nat ?h) v = Some (Inr (of_nat ?target), w')"
    "wd_height height w' = ?target" "wd_fs w' = wd_fs v" by blast
  then show ?thesis using v assms(1) by (simp add: fetch_latest_block_number_def)
qed


section \<open>Instances\<close>

lemma example_paced: "paced example_env client (\<lambda>n. n)"
  by (simp add: paced_def)

theorem waiting_ends_witness:
  "\<exists>w'. fetch_latest_block_number example_env ''http://node'' True (example_world 22870007) = Some (Inr 22870100, w')"
  using waiting_ends [OF _ example_paced, of "''http://node''" "\<lparr>ec_urls = [''http://node'']\<rparr>" "example_world 22870007"]
  by (auto simp: example_world_def)

definition range_args :: blocks_options where
  "range_args = \<lparr>bs_blocks = [], bs_from = Some 99, bs_to = Some 201, bs_endless = False, bs_only_eth_proofs_blocks = True,
     bs_opts = online_opts\<rparr>"

theorem blocks_follow_plan_witness:
  "blocks_options_ok range_args \<and>
   replay_blocks example_env nat_fallback example_store range_args (example_world 300)
     = Some (for_each (\<lambda>n. replay_block example_env nat_fallback example_store \<lparr>bo_block = Some n, bo_opts = online_opts\<rparr>)
         [100, 200] (example_world 300))"
proof
  show "blocks_options_ok range_args"
    by (simp add: blocks_options_ok_def range_args_def online_opts_def replay_options_ok_def common_default_def)
  have "filter (wanted range_args) (range_incl 99 201) = [100, 200]"
    by (simp add: range_incl_def wanted_def range_args_def upt_rec)
  then have "planned example_env range_args (example_world 300) = Some [100, 200]"
    by (simp add: planned_def range_args_def online_opts_def)
  from blocks_follow_plan [OF this, of nat_fallback example_store]
  show "replay_blocks example_env nat_fallback example_store range_args (example_world 300)
     = Some (for_each (\<lambda>n. replay_block example_env nat_fallback example_store \<lparr>bo_block = Some n, bo_opts = online_opts\<rparr>)
         [100, 200] (example_world 300))"
    by (simp add: range_args_def)
qed

definition cached_args :: blocks_options where
  "cached_args = range_args\<lparr>bs_from := None, bs_to := None, bs_only_eth_proofs_blocks := False, bs_opts := offline_opts\<rparr>"

definition empty_cache_world :: "(nat, content) world" where
  "empty_cache_world = (example_world 7)\<lparr>wd_fs := empty_fs\<lparr>fs_dirs := [[''replay_cache'']]\<rparr>\<rparr>"


text \<open>An endless run from block 5 at a node whose webhook does not answer, with a message for every block.\<close>

definition endless_args :: blocks_options where
  "endless_args = range_args\<lparr>bs_from := Some 5, bs_to := None, bs_endless := True, bs_only_eth_proofs_blocks := False,
     bs_opts := slack_opts\<rparr>"

lemma endless_args_simps [simp]:
  "bs_blocks endless_args = []" "bs_from endless_args = Some 5" "bs_to endless_args = None" "bs_endless endless_args"
  "\<not> bs_only_eth_proofs_blocks endless_args" "bs_opts endless_args = slack_opts"
  "\<not> o_cached slack_opts" "o_rpc_url slack_opts = Some ''http://node''"
  by (simp_all add: endless_args_def range_args_def slack_opts_def online_opts_def)


end
