(* ===== verification/Composition.thy ===== *)
theory Composition
  imports Rust_Fs Chain_Types Durations
begin

text \<open>
  \<open>src/plot_composition.rs\<close>: statistics on the transactions of a range of blocks. \<open>chk\<close> is the
  overflow check of the build profile, \<open>hexs\<close> and \<open>addr_hex\<close> the hexadecimal forms of a selector
  (\<open>hex::encode\<close>) and of an address (\<open>LowerHex\<close> of \<open>H160\<close>, without prefix).

  What is printed is a list of lines: the padding of the columns is left out, and the percentages are
  reals.
\<close>

section \<open>Names\<close>

definition selector_names :: "(string \<times> string) list" where
  "selector_names =
     [(''a9059cbb'', ''transfer''), (''095ea7b3'', ''approve''), (''3593564c'', ''swap''), (''5f575529'', ''swap''),
      (''2213bc0b'', ''swap''), (''b6f9de95'', ''swap''), (''1f6a1eb9'', ''exec''), (''791ac947'', ''swap''),
      (''23b872dd'', ''transfer''), (''c46b30bc'', ''swap''), (''0162e2d0'', ''swap''), (''12aa3caf'', ''swap''),
      (''78e111f6'', ''mevbot''), (''088890dc'', ''swap''), (''3d0e3ec5'', ''swap''), (''9871efa4'', ''swap''),
      (''c14c9204'', ''oracle''), (''7ff36ab5'', ''swap''), (''deff4b24'', ''relay''), (''0d5f0e3b'', ''swap''),
      (''b143044b'', ''exec''), (''d9caed12'', ''withdraw''), (''6a761202'', ''exec''), (''e63d38ed'', ''mass transfer''),
      (''fb3bdb41'', ''swap''), (''049639fb'', ''exec''), (''d0e30db0'', ''deposit''), (''18cbafe5'', ''swap''),
      (''7b939232'', ''deposit''), (''0894edf1'', ''relay''), (''28832cbd'', ''swap&bridge''), (''07ed2379'', ''swap''),
      (''e9ae5c53'', ''exec''), (''0cf79e0a'', ''swap''), (''c7a76969'', ''swap''), (''4782f779'', ''withdraw''),
      (''2c65169e'', ''swap''), (''3ce33bff'', ''bridge''), (''0dcd7a6c'', ''transfer''), (''2c57e884'', ''swap''),
      (''38ed1739'', ''swap''), (''b6b55f25'', ''deposit''), (''3ccfd60b'', ''withdraw''), (''30c48952'', ''swap&bridge''),
      (''13d79a0b'', ''swap'')]"

definition categorize_selector :: "(bytes \<Rightarrow> string) \<Rightarrow> bytes \<Rightarrow> string" where
  "categorize_selector hexs sel =
     (case map_of selector_names (hexs sel) of Some name \<Rightarrow> name | None \<Rightarrow> hexs sel)"

definition contract_names :: "(string \<times> string) list" where
  "contract_names =
     [(''0xdac17f958d2ee523a2206206994597c13d831ec7'', ''USDT''),
      (''0xa0b86991c6218b36c1d19d4a2e9eb0ce3606eb48'', ''USDC''),
      (''0xc02aaa39b223fe8d0a0e5c4f27ead9083c756cc2'', ''WETH''),
      (''0x6b175474e89094c44da98b954eedeac495271d0f'', ''DAI''),
      (''0x2260fac5e5542a773aa44fbcfedf7c193bc2c599'', ''WBTC''),
      (''0x514910771af9ca656af840dff83e8264ecf986ca'', ''LINK''),
      (''0x1f9840a85d5af5bf1d1762f925bdaddc4201f984'', ''UNI''),
      (''0x7d1afa7b718fb893db30a3abc0cfc608aacfebb0'', ''MATIC''),
      (''0x95ad61b0a150d79219dcf64e1e6cc01f0b64c4ce'', ''SHIB''),
      (''0xae7ab96520de3a18e5e111b5eaab095312d7fe84'', ''stETH (Lido)''),
      (''0x7fc66500c84a76ad7e9c93437bfc5ac33e2ddae9'', ''AAVE''),
      (''0xe592427a0aece92de3edee1f18e0157c05861564'', ''Uniswap V3 Router''),
      (''0x7a250d5630b4cf539739df2c5dacb4c659f2488d'', ''Uniswap V2 Router''),
      (''0x68b3465833fb72a70ecdf485e0e4c7bd8665fc45'', ''Uniswap Universal Router''),
      (''0x3fc91a3afd70395cd496c647d5a6cc9d4b2b7fad'', ''Uniswap Universal Router 2''),
      (''0xef1c6e67703c7bd7107eed8303fbe6ec2554bf6b'', ''Uniswap Universal Router (old)''),
      (''0x1111111254eeb25477b68fb85ed929f73a960582'', ''1inch V5 Router''),
      (''0x1111111254fb6c44bac0bed2854e76f90643097d'', ''1inch V4 Router''),
      (''0x881d40237659c251811cec9c364ef91dc08d300c'', ''Metamask Swap Router''),
      (''0xdef1c0ded9bec7f1a1670819833240f027b25eff'', ''0x Exchange Proxy''),
      (''0x00000000006c3852cbef3e08e8df289169ede581'', ''OpenSea Seaport''),
      (''0x00000000000000adc04c56bf30ac9d3c0aaf14dc'', ''OpenSea Seaport 1.5''),
      (''0xd9e1ce17f2641f24ae83637ab66a2cca9c378b9f'', ''SushiSwap Router''),
      (''0x87870bca3f3fd6335c3f4ce8392d69350b4fa4e2'', ''Aave V3 Pool''),
      (''0x7d2768de32b0b80b7a3454c06bdac94a69ddc7a9'', ''Aave V2 Pool''),
      (''0xae78736cd615f374d3085123a210448e74fc6393'', ''rETH (Rocket Pool)''),
      (''0xbe9895146f7af43049ca1c1ae358b0541ea49704'', ''cbETH (Coinbase)''),
      (''0xa2e3356610840701bdf5611a53974510ae27e2e1'', ''wBETH (Binance)''),
      (''0x32400084c286cf3e17e7b677ea9583e60a000324'', ''zkSync Bridge''),
      (''0x3154cf16ccdb4c6d922629664174b904d80f2c35'', ''Base Bridge'')]"

definition known_contract_name :: "string \<Rightarrow> string option" where
  "known_contract_name addr = map_of contract_names addr"

fun tx_type_label :: "tx_type \<Rightarrow> string" where
  "tx_type_label Legacy = ''Legacy (Type 0)''"
| "tx_type_label EIP2930 = ''EIP-2930 (Type 1)''"
| "tx_type_label EIP1559 = ''EIP-1559 (Type 2)''"
| "tx_type_label EIP4844 = ''EIP-4844 (Type 3)''"
| "tx_type_label EIP7702 = ''EIP-7702 (Type 4)''"
| "tx_type_label FeeToken = ''FeeToken (Type 0x7d)''"
| "tx_type_label Privileged = ''Privileged (Type 0x7e)''"

text \<open>Every third digit from the right is followed by a comma.\<close>

definition group_digit :: "nat \<times> char \<Rightarrow> string" where
  "group_digit = (\<lambda>(i, c). if i > 0 \<and> i mod 3 = 0 then [CHR '','', c] else [c])"

definition format_number :: "u64 \<Rightarrow> string" where
  "format_number n =
     (let s = show_u64 n in rev (concat (map group_digit (zip [0..<length s] (rev s)))))"

definition shorten_address :: "string \<Rightarrow> string" where
  "shorten_address addr =
     (if length addr > 12 then take 6 addr @ ''...'' @ drop (length addr - 4) addr else addr)"

definition format_destination :: "string \<Rightarrow> string" where
  "format_destination addr =
     (let short = shorten_address addr
      in case known_contract_name addr of Some name \<Rightarrow> name @ '' ('' @ short @ '')'' | None \<Rightarrow> short)"

section \<open>The statistics\<close>

record composition =
  destinations :: "(string, u64) hmap"
  selector_count :: "(string, u64) hmap"
  selector_by_gas :: "(string, u64) hmap"
  tx_type_count :: "(string, u64) hmap"
  call_category_count :: "(string, u64) hmap"
  total_gas_used :: u64
  total_gas_limit :: u64
  total_tx_count :: u64
  block_count :: u64

definition composition_default :: composition where
  "composition_default =
     \<lparr>destinations = [], selector_count = [], selector_by_gas = [], tx_type_count = [],
      call_category_count = [], total_gas_used = 0, total_gas_limit = 0, total_tx_count = 0, block_count = 0\<rparr>"

definition call_category :: "transaction \<Rightarrow> string" where
  "call_category tx =
     (case tx_to tx of
        Create \<Rightarrow> ''Contract Creation''
      | Call _ \<Rightarrow>
          (if length (tx_data tx) \<ge> 4 then ''Contract Call''
           else if tx_value tx > 0 then ''ETH Transfer'' else ''Zero-value Transfer''))"

definition process_call ::
    "bool \<Rightarrow> (bytes \<Rightarrow> string) \<Rightarrow> (address \<Rightarrow> string) \<Rightarrow> transaction \<Rightarrow> address \<Rightarrow> composition \<Rightarrow> composition res" where
  "process_call chk hexs addr_hex tx addr s =
     bind_res (hm_bump chk (format_destination (''0x'' @ addr_hex addr)) 1 (destinations s)) (\<lambda>ds.
     (if length (tx_data tx) \<ge> 4 then
        (let sel_name = categorize_selector hexs (take 4 (tx_data tx)) in
         bind_res (hm_bump chk sel_name 1 (selector_count s)) (\<lambda>sc.
         bind_res (hm_bump chk sel_name (tx_gas_limit tx) (selector_by_gas s)) (\<lambda>sg.
           Inr (s\<lparr>destinations := ds, selector_count := sc, selector_by_gas := sg\<rparr>))))
      else Inr (s\<lparr>destinations := ds\<rparr>)))"

definition process_tx ::
    "bool \<Rightarrow> (bytes \<Rightarrow> string) \<Rightarrow> (address \<Rightarrow> string) \<Rightarrow> transaction \<Rightarrow> composition \<Rightarrow> composition res" where
  "process_tx chk hexs addr_hex tx s =
     bind_res (hm_bump chk (tx_type_label (tx_type tx)) 1 (tx_type_count s)) (\<lambda>tc.
     bind_res (hm_bump chk (call_category tx) 1 (call_category_count s)) (\<lambda>cc.
       let s' = s\<lparr>tx_type_count := tc, call_category_count := cc\<rparr> in
       case tx_to tx of Create \<Rightarrow> Inr s' | Call addr \<Rightarrow> process_call chk hexs addr_hex tx addr s'))"

primrec process_txs ::
    "bool \<Rightarrow> (bytes \<Rightarrow> string) \<Rightarrow> (address \<Rightarrow> string) \<Rightarrow> transaction list \<Rightarrow> composition \<Rightarrow> composition res" where
  "process_txs chk hexs addr_hex [] s = Inr s"
| "process_txs chk hexs addr_hex (tx # txs) s =
     bind_res (process_tx chk hexs addr_hex tx s) (process_txs chk hexs addr_hex txs)"

definition process_block ::
    "bool \<Rightarrow> (bytes \<Rightarrow> string) \<Rightarrow> (address \<Rightarrow> string) \<Rightarrow> block \<Rightarrow> composition \<Rightarrow> composition res" where
  "process_block chk hexs addr_hex blk s =
     bind_res (add_ovf chk (total_gas_used s) (bh_gas_used (b_header blk))) (\<lambda>used.
     bind_res (add_ovf chk (total_gas_limit s) (bh_gas_limit (b_header blk))) (\<lambda>limit.
     bind_res (add_ovf chk (total_tx_count s) (of_nat (length (b_transactions blk)))) (\<lambda>n.
     bind_res (add_ovf chk (block_count s) 1) (\<lambda>bc.
       process_txs chk hexs addr_hex (b_transactions blk)
         (s\<lparr>total_gas_used := used, total_gas_limit := limit, total_tx_count := n, block_count := bc\<rparr>)))))"

primrec process_blocks ::
    "bool \<Rightarrow> (bytes \<Rightarrow> string) \<Rightarrow> (address \<Rightarrow> string) \<Rightarrow> block list \<Rightarrow> composition \<Rightarrow> composition res" where
  "process_blocks chk hexs addr_hex [] s = Inr s"
| "process_blocks chk hexs addr_hex (b # bs) s =
     bind_res (process_block chk hexs addr_hex b s) (process_blocks chk hexs addr_hex bs)"

section \<open>Ranked lists and charts\<close>

definition top_n_destinations :: nat where "top_n_destinations = 10"
definition top_n_selectors :: nat where "top_n_selectors = 10"

text \<open>\<open>sort_by\<close> is stable; the key is compared the other way round.\<close>

definition sorted_desc :: "(string, u64) hmap \<Rightarrow> (string \<times> u64) list" where
  "sorted_desc m = sort_key (\<lambda>(_, c). - int (unat c)) m"

primrec sum_ovf :: "bool \<Rightarrow> u64 \<Rightarrow> u64 list \<Rightarrow> u64 res" where
  "sum_ovf chk acc [] = Inr acc"
| "sum_ovf chk acc (c # cs) = bind_res (add_ovf chk acc c) (\<lambda>acc'. sum_ovf chk acc' cs)"

definition saturating_sub :: "u64 \<Rightarrow> u64 \<Rightarrow> u64" where
  "saturating_sub a b = (if a < b then 0 else a - b)"

definition truncate_to :: "bool \<Rightarrow> (string \<times> u64) list \<Rightarrow> nat \<Rightarrow> (string \<times> u64) list res" where
  "truncate_to chk vec n =
     bind_res (sum_ovf chk 0 (map snd (take n vec))) (\<lambda>included.
     bind_res (sum_ovf chk 0 (map snd vec)) (\<lambda>total.
       let other = saturating_sub total included in
       Inr (take n vec @ (if other > 0 then [(''other'', other)] else []))))"

datatype out_line =
    Heading string
  | RankedRow string string real
  | Figure string string
  | Utilization real
  | Blank

definition percent :: "u64 \<Rightarrow> u64 \<Rightarrow> real" where
  "percent n whole = (if whole > 0 then real (unat n) / real (unat whole) * 100 else 0)"

definition print_ranked_section ::
    "bool \<Rightarrow> string \<Rightarrow> (string, u64) hmap \<Rightarrow> u64 \<Rightarrow> nat option \<Rightarrow> out_line list res" where
  "print_ranked_section chk title data all_of top_n =
     (let entries = sorted_desc data;
          limit = (case top_n of Some n \<Rightarrow> n | None \<Rightarrow> length entries);
          rows = map (\<lambda>(name, count). RankedRow name (format_number count) (percent count all_of)) (take limit entries)
      in bind_res (if length entries > limit then
             bind_res (sum_ovf chk 0 (map snd (take limit entries))) (\<lambda>shown.
               let rest = saturating_sub all_of shown in
               Inr (if rest > 0
                    then [RankedRow ''... (other)'' (format_number rest) (real (unat rest) / real (unat all_of) * 100)]
                    else []))
           else Inr [])
         (\<lambda>others. Inr (Heading title # rows @ others @ [Blank])))"

text \<open>The dash of the heading, in UTF-8.\<close>

definition em_dash :: string where "em_dash = [CHR 0xE2, CHR 0x80, CHR 0x94]"

definition summary_heading :: "composition \<Rightarrow> u64 \<Rightarrow> u64 \<Rightarrow> string" where
  "summary_heading s first_block last_block =
     (if first_block = last_block then
        ''Block Composition: #'' @ format_number first_block @ '' '' @ em_dash @ '' '' @ format_number (total_tx_count s) @ '' transactions''
      else
        ''Block Composition: #'' @ format_number first_block @ '' - #'' @ format_number last_block @ '' (''
          @ format_number (block_count s) @ '' blocks) '' @ em_dash @ '' '' @ format_number (total_tx_count s) @ '' transactions'')"

definition print_summary :: "bool \<Rightarrow> composition \<Rightarrow> u64 \<Rightarrow> u64 \<Rightarrow> out_line list res" where
  "print_summary chk s first_block last_block =
     bind_res (print_ranked_section chk ''Transaction Types'' (tx_type_count s) (total_tx_count s) None) (\<lambda>p1.
     bind_res (print_ranked_section chk ''Call Categories'' (call_category_count s) (total_tx_count s) None) (\<lambda>p2.
     bind_res (print_ranked_section chk ''Top Method Selectors (by count)'' (selector_count s) (total_tx_count s)
         (Some top_n_selectors)) (\<lambda>p3.
     bind_res (print_ranked_section chk ''Top Method Selectors (by gas)'' (selector_by_gas s) (total_gas_used s)
         (Some top_n_selectors)) (\<lambda>p4.
     bind_res (print_ranked_section chk ''Top Destinations'' (destinations s) (total_tx_count s)
         (Some top_n_destinations)) (\<lambda>p5.
       Inr ([Heading (summary_heading s first_block last_block), Heading ''Gas Summary'',
             Figure ''Total Gas Used'' (format_number (total_gas_used s)),
             Figure ''Total Gas Limit'' (format_number (total_gas_limit s))] @
            (if total_gas_limit s > 0
             then [Utilization (real (unat (total_gas_used s)) / real (unat (total_gas_limit s)) * 100)] else []) @
            [Blank] @ p1 @ p2 @ p3 @ p4 @ p5))))))"

record chart =
  ch_title :: string
  ch_data :: "(real \<times> string) list"

definition make_pie_chart :: "string \<Rightarrow> (string \<times> u64) list \<Rightarrow> chart" where
  "make_pie_chart name data = \<lparr>ch_title = name, ch_data = map (\<lambda>(label, count). (real (unat count), label)) data\<rparr>"

definition charts :: "bool \<Rightarrow> composition \<Rightarrow> (string \<times> chart) list res" where
  "charts chk s =
     (let selectors = sorted_desc (selector_count s); by_gas = sorted_desc (selector_by_gas s);
          dests = sorted_desc (destinations s); types = sorted_desc (tx_type_count s);
          cats = sorted_desc (call_category_count s)
      in bind_res (truncate_to chk selectors top_n_selectors) (\<lambda>d1.
         bind_res (truncate_to chk by_gas top_n_selectors) (\<lambda>d2.
         bind_res (truncate_to chk dests top_n_destinations) (\<lambda>d3.
         bind_res (truncate_to chk types (length types)) (\<lambda>d4.
         bind_res (truncate_to chk cats (length cats)) (\<lambda>d5.
           Inr [(''selectors'', make_pie_chart (''Top'' @ show_nat top_n_selectors @ '' selectors'') d1),
                (''selectors_by_gas'',
                  make_pie_chart (''Top'' @ show_nat top_n_selectors @ '' selectors by gas limit'') d2),
                (''destinations'', make_pie_chart (''Top'' @ show_nat top_n_destinations @ '' destinations'') d3),
                (''tx_types'', make_pie_chart ''Transaction Types'' d4),
                (''call_categories'', make_pie_chart ''Call Categories'' d5)]))))))"

definition chart_file :: "string \<Rightarrow> u64 \<Rightarrow> u64 \<Rightarrow> string" where
  "chart_file name first last_block =
     (if first = last_block then ''chart_'' @ name @ ''_'' @ show_u64 first @ ''.svg''
      else ''chart_'' @ name @ ''_'' @ show_u64 first @ ''-'' @ show_u64 last_block @ ''.svg'')"

text \<open>
  The world of the command: the lines printed so far and the file system. \<open>render\<close> is the image of a
  chart, or the error of the renderer.
\<close>

record 'c console =
  co_lines :: "out_line list"
  co_fs :: "'c fs"

abbreviation on_fs :: "('c fs, 'a) act \<Rightarrow> ('c console, 'a) act" where
  "on_fs m \<equiv> zoom co_fs (\<lambda>f w. w\<lparr>co_fs := f\<rparr>) m"

definition print_lines :: "out_line list \<Rightarrow> ('c console, unit) act" where
  "print_lines ls = (\<lambda>w. (Inr (), w\<lparr>co_lines := co_lines w @ ls\<rparr>))"

definition save_chart ::
    "(chart \<Rightarrow> string + 'c) \<Rightarrow> path \<Rightarrow> u64 \<Rightarrow> u64 \<Rightarrow> string \<times> chart \<Rightarrow> ('c console, unit) act" where
  "save_chart render output_dir first last_block = (\<lambda>(name, ch).
     andthen (lift_res (of_result (render ch))) (\<lambda>svg.
       on_fs (fs_write (join output_dir (chart_file name first last_block)) svg)))"

definition analyze_and_display ::
    "bool \<Rightarrow> (bytes \<Rightarrow> string) \<Rightarrow> (address \<Rightarrow> string) \<Rightarrow> (chart \<Rightarrow> string + 'c) \<Rightarrow> block list \<Rightarrow> path \<Rightarrow>
     ('c console, unit) act" where
  "analyze_and_display chk hexs addr_hex render blocks output_dir =
     andthen (lift_res (process_blocks chk hexs addr_hex blocks composition_default)) (\<lambda>s.
     let first = (case blocks of [] \<Rightarrow> 0 | b # _ \<Rightarrow> blk_number b);
         last_block = (if blocks = [] then 0 else blk_number (last blocks)) in
     andthen (lift_res (print_summary chk s first last_block)) (\<lambda>ls.
     andthen (print_lines ls) (\<lambda>_.
     andthen (\<lambda>w. if fs_exists (co_fs w) output_dir then (Inr (), w)
                  else on_fs (fs_create_dir_all output_dir) w) (\<lambda>_.
     andthen (lift_res (charts chk s)) (\<lambda>cs.
     for_each (save_chart render output_dir first last_block) cs)))))"

section \<open>Lemmas on the counters\<close>

text \<open>What a counter says about a name: 0 when it is not there.\<close>

definition tally :: "(string, u64) hmap \<Rightarrow> string \<Rightarrow> u64" where
  "tally m k = (case map_of m k of None \<Rightarrow> 0 | Some c \<Rightarrow> c)"

lemma tally_Nil [simp]: "tally [] k = 0"
  by (simp add: tally_def)

lemma tally_bump: "hm_bump chk k d m = Inr m' \<Longrightarrow> tally m' k' = tally m k' + (if k' = k then d else 0)"
  by (auto simp: hm_bump_def res_simps tally_def update_conv' dest: add_ovf_Inr)

text \<open>What one transaction adds to each counter.\<close>

definition has_selector :: "transaction \<Rightarrow> bool" where
  "has_selector tx \<longleftrightarrow> tx_to tx \<noteq> Create \<and> 4 \<le> length (tx_data tx)"

definition destination_of :: "(address \<Rightarrow> string) \<Rightarrow> transaction \<Rightarrow> string option" where
  "destination_of addr_hex tx =
     (case tx_to tx of Create \<Rightarrow> None | Call a \<Rightarrow> Some (format_destination (''0x'' @ addr_hex a)))"

definition selector_of :: "(bytes \<Rightarrow> string) \<Rightarrow> transaction \<Rightarrow> string option" where
  "selector_of hexs tx =
     (if has_selector tx then Some (categorize_selector hexs (take 4 (tx_data tx))) else None)"

definition times :: "('a \<Rightarrow> bool) \<Rightarrow> 'a list \<Rightarrow> u64" where
  "times P xs = of_nat (length (filter P xs))"

lemma times_simps [simp]:
  "times P [] = 0" "times P (x # xs) = (if P x then 1 else 0) + times P xs" "times P (xs @ ys) = times P xs + times P ys"
  by (simp_all add: times_def)

lemma process_tx_fields:
  assumes "process_tx chk hexs addr_hex tx s = Inr s'"
  shows "tally (tx_type_count s') k = tally (tx_type_count s) k + (if tx_type_label (tx_type tx) = k then 1 else 0) \<and>
    tally (call_category_count s') k = tally (call_category_count s) k + (if call_category tx = k then 1 else 0) \<and>
    tally (destinations s') k = tally (destinations s) k + (if destination_of addr_hex tx = Some k then 1 else 0) \<and>
    tally (selector_count s') k = tally (selector_count s) k + (if selector_of hexs tx = Some k then 1 else 0) \<and>
    tally (selector_by_gas s') k =
      tally (selector_by_gas s) k + (if selector_of hexs tx = Some k then tx_gas_limit tx else 0) \<and>
    hm_total (tx_type_count s') = hm_total (tx_type_count s) + 1 \<and>
    hm_total (call_category_count s') = hm_total (call_category_count s) + 1 \<and>
    total_gas_used s' = total_gas_used s \<and> total_gas_limit s' = total_gas_limit s \<and>
    total_tx_count s' = total_tx_count s \<and> block_count s' = block_count s"
proof (cases "tx_to tx")
  case Create
  then show ?thesis using assms
    by (auto simp: process_tx_def destination_of_def selector_of_def has_selector_def res_simps tally_bump hm_total_bump)
next
  case (Call a)
  from assms obtain tc cc where
    bumps: "hm_bump chk (tx_type_label (tx_type tx)) 1 (tx_type_count s) = Inr tc"
      "hm_bump chk (call_category tx) 1 (call_category_count s) = Inr cc"
    and call: "process_call chk hexs addr_hex tx a (s\<lparr>tx_type_count := tc, call_category_count := cc\<rparr>) = Inr s'"
    by (auto simp: process_tx_def Call res_simps)
  show ?thesis
  proof (cases "4 \<le> length (tx_data tx)")
    case True
    then show ?thesis using call bumps
      by (auto simp: process_call_def Call destination_of_def selector_of_def has_selector_def Let_def res_simps
          tally_bump hm_total_bump)
  next
    case False
    then show ?thesis using call bumps
      by (auto simp: process_call_def Call destination_of_def selector_of_def has_selector_def res_simps
          tally_bump hm_total_bump)
  qed
qed

lemma process_txs_fields:
  assumes "process_txs chk hexs addr_hex txs s = Inr s'"
  shows "tally (tx_type_count s') k = tally (tx_type_count s) k + times (\<lambda>tx. tx_type_label (tx_type tx) = k) txs \<and>
    tally (call_category_count s') k = tally (call_category_count s) k + times (\<lambda>tx. call_category tx = k) txs \<and>
    tally (destinations s') k = tally (destinations s) k + times (\<lambda>tx. destination_of addr_hex tx = Some k) txs \<and>
    tally (selector_count s') k = tally (selector_count s) k + times (\<lambda>tx. selector_of hexs tx = Some k) txs \<and>
    tally (selector_by_gas s') k = tally (selector_by_gas s) k +
      sum_list (map tx_gas_limit (filter (\<lambda>tx. selector_of hexs tx = Some k) txs)) \<and>
    hm_total (tx_type_count s') = hm_total (tx_type_count s) + of_nat (length txs) \<and>
    hm_total (call_category_count s') = hm_total (call_category_count s) + of_nat (length txs) \<and>
    total_gas_used s' = total_gas_used s \<and> total_gas_limit s' = total_gas_limit s \<and>
    total_tx_count s' = total_tx_count s \<and> block_count s' = block_count s"
  using assms
proof (induction txs arbitrary: s)
  case Nil
  then show ?case by simp
next
  case (Cons tx txs)
  from Cons.prems obtain s1 where step: "process_tx chk hexs addr_hex tx s = Inr s1"
    and rest: "process_txs chk hexs addr_hex txs s1 = Inr s'"
    by (auto simp: res_simps)
  show ?case
    using Cons.IH [OF rest] process_tx_fields [OF step, of k] by (simp add: algebra_simps)
qed

text \<open>All transactions of the blocks, in order.\<close>

abbreviation all_txs :: "block list \<Rightarrow> transaction list" where
  "all_txs blocks \<equiv> concat (map b_transactions blocks)"

lemma process_block_fields:
  assumes "process_block chk hexs addr_hex b s = Inr s'"
  shows "\<exists>s0. process_txs chk hexs addr_hex (b_transactions b) s0 = Inr s' \<and>
    s0 = s\<lparr>total_gas_used := total_gas_used s + bh_gas_used (b_header b),
           total_gas_limit := total_gas_limit s + bh_gas_limit (b_header b),
           total_tx_count := total_tx_count s + of_nat (length (b_transactions b)), block_count := block_count s + 1\<rparr>"
  using assms by (auto simp: process_block_def res_simps dest!: add_ovf_Inr)

lemma process_blocks_fields:
  assumes "process_blocks chk hexs addr_hex blocks s = Inr s'"
  shows "tally (tx_type_count s') k = tally (tx_type_count s) k + times (\<lambda>tx. tx_type_label (tx_type tx) = k) (all_txs blocks) \<and>
    tally (call_category_count s') k = tally (call_category_count s) k + times (\<lambda>tx. call_category tx = k) (all_txs blocks) \<and>
    tally (destinations s') k =
      tally (destinations s) k + times (\<lambda>tx. destination_of addr_hex tx = Some k) (all_txs blocks) \<and>
    tally (selector_count s') k = tally (selector_count s) k + times (\<lambda>tx. selector_of hexs tx = Some k) (all_txs blocks) \<and>
    tally (selector_by_gas s') k = tally (selector_by_gas s) k +
      sum_list (map tx_gas_limit (filter (\<lambda>tx. selector_of hexs tx = Some k) (all_txs blocks))) \<and>
    hm_total (tx_type_count s') - total_tx_count s' = hm_total (tx_type_count s) - total_tx_count s \<and>
    hm_total (call_category_count s') - total_tx_count s' = hm_total (call_category_count s) - total_tx_count s \<and>
    total_gas_used s' = total_gas_used s + sum_list (map (\<lambda>b. bh_gas_used (b_header b)) blocks) \<and>
    total_gas_limit s' = total_gas_limit s + sum_list (map (\<lambda>b. bh_gas_limit (b_header b)) blocks) \<and>
    total_tx_count s' = total_tx_count s + of_nat (length (all_txs blocks)) \<and>
    block_count s' = block_count s + of_nat (length blocks)"
  using assms
proof (induction blocks arbitrary: s)
  case Nil
  then show ?case by simp
next
  case (Cons b blocks)
  from Cons.prems obtain s1 where step: "process_block chk hexs addr_hex b s = Inr s1"
    and rest: "process_blocks chk hexs addr_hex blocks s1 = Inr s'"
    by (auto simp: res_simps)
  from process_block_fields [OF step] obtain s0 where
    txs: "process_txs chk hexs addr_hex (b_transactions b) s0 = Inr s1" and
    s0: "s0 = s\<lparr>total_gas_used := total_gas_used s + bh_gas_used (b_header b),
           total_gas_limit := total_gas_limit s + bh_gas_limit (b_header b),
           total_tx_count := total_tx_count s + of_nat (length (b_transactions b)), block_count := block_count s + 1\<rparr>"
    by blast
  show ?case
    using Cons.IH [OF rest] process_txs_fields [OF txs, of k] by (simp add: s0 algebra_simps)
qed

text \<open>
  C37. The composition counts what it says: after all blocks are processed, each name in each of the
  five maps has exactly the number of transactions of that kind (or the sum of their gas limits),
  modulo \<open>2 ^ 64\<close> in a build without overflow checks; the two maps that classify every transaction
  sum up to the total; and the totals are those of the blocks.
\<close>

theorem composition_counts:
  assumes "process_blocks chk hexs addr_hex blocks composition_default = Inr s"
  shows "tally (tx_type_count s) k = times (\<lambda>tx. tx_type_label (tx_type tx) = k) (all_txs blocks) \<and>
    tally (call_category_count s) k = times (\<lambda>tx. call_category tx = k) (all_txs blocks) \<and>
    tally (destinations s) k = times (\<lambda>tx. destination_of addr_hex tx = Some k) (all_txs blocks) \<and>
    tally (selector_count s) k = times (\<lambda>tx. selector_of hexs tx = Some k) (all_txs blocks) \<and>
    tally (selector_by_gas s) k =
      sum_list (map tx_gas_limit (filter (\<lambda>tx. selector_of hexs tx = Some k) (all_txs blocks))) \<and>
    hm_total (tx_type_count s) = total_tx_count s \<and> hm_total (call_category_count s) = total_tx_count s \<and>
    total_tx_count s = of_nat (length (all_txs blocks)) \<and> block_count s = of_nat (length blocks) \<and>
    total_gas_used s = sum_list (map (\<lambda>b. bh_gas_used (b_header b)) blocks) \<and>
    total_gas_limit s = sum_list (map (\<lambda>b. bh_gas_limit (b_header b)) blocks)"
  using process_blocks_fields [OF assms, of k] by (simp add: composition_default_def)

definition example_hex4 :: "bytes \<Rightarrow> string" where
  "example_hex4 bs = (if bs = [169, 5, 156, 187] then ''a9059cbb'' else ''00000000'')"

definition example_addr40 :: "address \<Rightarrow> string" where
  "example_addr40 a = (if a = 1 then ''dac17f958d2ee523a2206206994597c13d831ec7'' else ''0000000000000000000000000000000000000000'')"

definition example_transfer :: transaction where
  "example_transfer = \<lparr>tx_type = EIP1559, tx_to = Call 1, tx_data = [169, 5, 156, 187, 0], tx_value = 0,
     tx_gas_limit = 60000, tx_hash = 1, tx_sender = Inr 2, tx_access_list = []\<rparr>"

definition example_creation :: transaction where
  "example_creation = \<lparr>tx_type = Legacy, tx_to = Create, tx_data = [1], tx_value = 0,
     tx_gas_limit = 90000, tx_hash = 2, tx_sender = Inr 2, tx_access_list = []\<rparr>"

definition example_blocks :: "block list" where
  "example_blocks = [\<lparr>b_header = \<lparr>bh_number = 3, bh_gas_limit = 30000000, bh_gas_used = 50000\<rparr>,
     b_transactions = [example_transfer, example_creation]\<rparr>]"

definition example_composition :: composition where
  "example_composition =
     \<lparr>destinations = [(''USDT (0xdac1...1ec7)'', 1)], selector_count = [(''transfer'', 1)],
      selector_by_gas = [(''transfer'', 60000)],
      tx_type_count = [(''EIP-1559 (Type 2)'', 1), (''Legacy (Type 0)'', 1)],
      call_category_count = [(''Contract Call'', 1), (''Contract Creation'', 1)],
      total_gas_used = 50000, total_gas_limit = 30000000, total_tx_count = 2, block_count = 1\<rparr>"

lemma example_composition_run:
  "process_blocks True example_hex4 example_addr40 example_blocks composition_default = Inr example_composition"
  by (simp add: example_blocks_def process_block_def add_ovf_def composition_default_def process_tx_def process_call_def
      example_transfer_def example_creation_def hm_bump_def call_category_def Let_def example_hex4_def
      example_addr40_def categorize_selector_def selector_names_def format_destination_def known_contract_name_def
      contract_names_def shorten_address_def example_composition_def)

theorem composition_counts_witness:
  "tally (selector_by_gas example_composition) ''transfer'' = 60000 \<and> hm_total (tx_type_count example_composition) = 2"
  using composition_counts [OF example_composition_run, of "''transfer''"]
  by (simp add: example_composition_def tally_def)

section \<open>Numbers with separators\<close>

text \<open>The grouping from a position on, by recursion over the digits.\<close>

primrec group_from :: "nat \<Rightarrow> string \<Rightarrow> string" where
  "group_from i [] = []"
| "group_from i (c # cs) = group_digit (i, c) @ group_from (Suc i) cs"

lemma group_from_zip: "concat (map group_digit (zip [i..<i + length cs] cs)) = group_from i cs"
proof (induction cs arbitrary: i)
  case Nil
  then show ?case by simp
next
  case (Cons c cs)
  have "[i..<i + length (c # cs)] = i # [Suc i..<Suc i + length cs]" by (subst upt_conv_Cons) simp_all
  then show ?case using Cons.IH [of "Suc i"] by simp
qed

lemma format_number_rev: "rev (format_number n) = group_from 0 (rev (show_u64 n))"
  using group_from_zip [of 0 "rev (show_u64 n)"] by (simp add: format_number_def Let_def)

lemma group_from_filter:
  "\<forall>c \<in> set cs. c \<noteq> CHR '','' \<Longrightarrow> filter (\<lambda>c. c \<noteq> CHR '','') (group_from i cs) = cs"
  by (induction cs arbitrary: i) (auto simp: group_digit_def)

lemma show_nat_no_comma: "c \<in> set (show_nat n) \<Longrightarrow> c \<noteq> CHR '',''"
  using show_nat_digits [of c n] by (auto simp: is_digit_def to_digit_def)

lemma format_number_filter: "filter (\<lambda>c. c \<noteq> CHR '','') (format_number n) = show_u64 n"
proof -
  have "\<forall>c \<in> set (rev (show_u64 n)). c \<noteq> CHR '',''" using show_nat_no_comma by auto
  then have "filter (\<lambda>c. c \<noteq> CHR '','') (rev (format_number n)) = rev (show_u64 n)"
    unfolding format_number_rev by (rule group_from_filter)
  then show ?thesis by (simp add: rev_filter [symmetric] rev_swap)
qed

text \<open>From the right, every fourth character is a comma and no other one.\<close>

lemma group_from_nth:
  assumes "\<forall>c \<in> set cs. c \<noteq> CHR '',''" "j < length (group_from i cs)"
    and "i mod 3 = 0"
  shows "group_from i cs ! j = CHR '','' \<longleftrightarrow>
    (if i = 0 then j mod 4 = 3 else j mod 4 = 0)"
  using assms
proof (induction "length cs" arbitrary: cs i j rule: less_induct)
  case less
  have mods: "Suc i mod 3 = 1" "Suc (Suc i) mod 3 = 2" "Suc (Suc (Suc i)) mod 3 = 0"
    using less.prems(3) by (simp_all add: mod_Suc)
  consider "cs = []" | a where "cs = [a]" | a b where "cs = [a, b]" | a b c ds where "cs = a # b # c # ds"
    by (metis list.exhaust)
  then show ?case
  proof cases
    case 1
    then show ?thesis using less.prems by simp
  next
    case (2 a)
    then show ?thesis using less.prems mods
      by (auto simp: group_digit_def nth_Cons' split: if_splits)
  next
    case (3 a b)
    then show ?thesis using less.prems mods
      by (auto simp: group_digit_def nth_Cons' split: if_splits)
  next
    case (4 a b c ds)
    let ?r = "group_from (Suc (Suc (Suc i))) ds"
    have g: "group_from i cs = (if i = 0 then [a, b, c] else [CHR '','', a, b, c]) @ ?r"
      using mods less.prems(3) by (simp add: 4 group_digit_def)
    have nc: "a \<noteq> CHR '',''" "b \<noteq> CHR '',''" "c \<noteq> CHR '',''" "\<forall>c \<in> set ds. c \<noteq> CHR '',''"
      using less.prems(1) 4 by auto
    have ih: "k < length ?r \<Longrightarrow> ?r ! k = CHR '','' \<longleftrightarrow> k mod 4 = 0" for k
      using less.hyps [of ds k "Suc (Suc (Suc i))"] nc mods 4 by simp
    show ?thesis
    proof (cases "i = 0")
      case True
      have "j < 3 \<or> (\<exists>k. j = k + 3)" by presburger
      then show ?thesis
      proof
        assume "j < 3"
        then have "j = 0 \<or> j = 1 \<or> j = 2" by auto
        then show ?thesis using nc g True by (elim disjE) simp_all
      next
        assume "\<exists>k. j = k + 3"
        then obtain k where k: "j = k + 3" by blast
        have "k < length ?r" using less.prems(2) unfolding g by (simp add: k True)
        moreover have "group_from i cs ! j = ?r ! k" unfolding g by (simp add: k True nth_append)
        moreover have "j mod 4 = 3 \<longleftrightarrow> k mod 4 = 0" unfolding k by presburger
        ultimately show ?thesis using ih True by simp
      qed
    next
      case False
      have "j < 4 \<or> (\<exists>k. j = k + 4)" by presburger
      then show ?thesis
      proof
        assume "j < 4"
        then have "j = 0 \<or> j = 1 \<or> j = 2 \<or> j = 3" by auto
        then show ?thesis using nc g False by (elim disjE) simp_all
      next
        assume "\<exists>k. j = k + 4"
        then obtain k where k: "j = k + 4" by blast
        have "k < length ?r" using less.prems(2) unfolding g by (simp add: k False)
        moreover have "group_from i cs ! j = ?r ! k" unfolding g by (simp add: k False nth_append)
        moreover have "j mod 4 = 0 \<longleftrightarrow> k mod 4 = 0" unfolding k by presburger
        ultimately show ?thesis using ih False by simp
      qed
    qed
  qed
qed

text \<open>
  \<open>format_number\<close> puts a comma exactly before every third digit from the right, and leaves
  the digits as they are: without the commas the text parses back to the number.
\<close>

theorem format_number_grouped:
  "parse_u64 (filter (\<lambda>c. c \<noteq> CHR '','') (format_number n)) = Some n \<and>
   (\<forall>j < length (format_number n). rev (format_number n) ! j = CHR '','' \<longleftrightarrow> j mod 4 = 3)"
proof -
  have "\<forall>c \<in> set (rev (show_u64 n)). c \<noteq> CHR '',''" using show_nat_no_comma by auto
  then show ?thesis
    using group_from_nth [of "rev (show_u64 n)" _ 0] format_number_filter [of n]
    by (simp add: format_number_rev [symmetric])
qed

theorem format_number_grouped_witness:
  "parse_u64 (filter (\<lambda>c. c \<noteq> CHR '','') (format_number 1234567)) = Some 1234567"
  by (simp add: format_number_grouped)

section \<open>Ranking and truncation\<close>

lemma sum_ovf_exact:
  "unat acc + sum_list (map unat cs) < 2 ^ 64 \<Longrightarrow>
     \<exists>r. sum_ovf chk acc cs = Inr r \<and> unat r = unat acc + sum_list (map unat cs)"
proof (induction cs arbitrary: acc)
  case Nil
  then show ?case by simp
next
  case (Cons c cs)
  have fits: "unat acc + unat c < 2 ^ LENGTH(64)" using Cons.prems by simp
  then have add: "add_ovf chk acc c = Inr (acc + c)" by (rule add_ovf_exact)
  have "unat (acc + c) = unat acc + unat c" using fits by (simp only: unat_add_lem)
  then show ?case using Cons.IH [of "acc + c"] Cons.prems add by (simp add: algebra_simps)
qed

lemma sum_list_take_le: "sum_list (map f (take n xs)) \<le> sum_list (map (f :: _ \<Rightarrow> nat) xs)"
  by (metis append_take_drop_id le_add1 map_append sum_list_append)

lemma truncate_to_ok:
  assumes "sum_list (map (\<lambda>e. unat (snd e)) vec) < 2 ^ 64"
  shows "\<exists>r. truncate_to chk vec n = Inr r"
  using assms sum_ovf_exact [of 0 "map snd vec" chk] sum_ovf_exact [of 0 "map snd (take n vec)" chk]
    sum_list_take_le [of "\<lambda>e. unat (snd e)" n vec]
  by (auto simp: truncate_to_def Let_def o_def)

text \<open>
  \<open>truncate_to\<close> keeps the first entries, folds all others into one entry \<open>other\<close>, left out when
  it would be zero, and loses nothing: the counts still sum up to the same total. It cannot fail when
  the total fits into 64 bits.
\<close>

theorem truncate_to_keeps_total:
  assumes "sum_list (map (\<lambda>e. unat (snd e)) vec) < 2 ^ 64"
  shows "\<exists>r. truncate_to chk vec n = Inr r \<and> take (min n (length vec)) r = take n vec \<and>
    sum_list (map (\<lambda>e. unat (snd e)) r) = sum_list (map (\<lambda>e. unat (snd e)) vec) \<and>
    length r \<le> Suc (min n (length vec)) \<and> (\<forall>e \<in> set (drop n r). fst e = ''other'' \<and> 0 < snd e)"
proof -
  let ?tot = "sum_list (map (\<lambda>e. unat (snd e)) vec)"
  let ?inc = "sum_list (map (\<lambda>e. unat (snd e)) (take n vec))"
  have le: "?inc \<le> ?tot" by (rule sum_list_take_le)
  obtain included where inc: "sum_ovf chk 0 (map snd (take n vec)) = Inr included" "unat included = ?inc"
    using sum_ovf_exact [of 0 "map snd (take n vec)" chk] le assms by (auto simp: o_def)
  obtain whole where tot: "sum_ovf chk 0 (map snd vec) = Inr whole" "unat whole = ?tot"
    using sum_ovf_exact [of 0 "map snd vec" chk] assms by (auto simp: o_def)
  let ?other = "saturating_sub whole included"
  have "included \<le> whole" using le inc(2) tot(2) by (simp add: word_le_nat_alt)
  then have other: "?other = whole - included" "unat ?other = ?tot - ?inc"
    using inc(2) tot(2) by (auto simp: saturating_sub_def unat_sub dest: leD)
  have run: "truncate_to chk vec n = Inr (take n vec @ (if ?other > 0 then [(''other'', ?other)] else []))"
    by (simp add: truncate_to_def inc(1) tot(1) Let_def)
  have sum: "sum_list (map (\<lambda>e. unat (snd e)) (take n vec @ (if ?other > 0 then [(''other'', ?other)] else []))) = ?tot"
  proof (cases "?other > 0")
    case True
    then show ?thesis using other le by simp
  next
    case False
    then have "?other = 0" by (simp add: word_neq_0_conv [symmetric])
    then have "?tot - ?inc = 0" using other(2) by simp
    then show ?thesis using False le by simp
  qed
  have none: "length vec \<le> n \<Longrightarrow> \<not> ?other > 0"
    using other(2) by (simp add: word_neq_0_conv [symmetric] unat_eq_zero [symmetric])
  show ?thesis
    by (rule exI [of _ "take n vec @ (if ?other > 0 then [(''other'', ?other)] else [])"])
      (use run sum none in \<open>auto simp: min_def not_le\<close>)
qed

theorem truncate_to_keeps_total_witness:
  "\<exists>r. truncate_to True [(''a'', 7), (''b'', 5), (''c'', 2)] 2 = Inr r \<and> sum_list (map (\<lambda>e. unat (snd e)) r) = 14"
  using truncate_to_keeps_total [of "[(''a'', 7), (''b'', 5), (''c'', 2)]" True 2] by auto

text \<open>
  \<open>sorted_desc\<close> lists every entry of the map exactly once, the largest counts first, and keeps
  the order of entries with equal counts.
\<close>

theorem sorted_desc_ranks:
  "mset (sorted_desc m) = mset m \<and> sorted_wrt (\<lambda>a b. snd b \<le> snd a) (sorted_desc m) \<and>
   filter (\<lambda>e. snd e = c) (sorted_desc m) = filter (\<lambda>e. snd e = c) m"
proof -
  let ?f = "\<lambda>(_ :: string, c :: u64). - int (unat c)"
  have "sorted (map ?f (sorted_desc m))" by (simp add: sorted_desc_def)
  then have "sorted_wrt (\<lambda>a b. ?f a \<le> ?f b) (sorted_desc m)" by (simp add: sorted_map)
  then have order: "sorted_wrt (\<lambda>a b. snd b \<le> snd a) (sorted_desc m)"
    by (rule sorted_wrt_mono_rel [rotated]) (auto simp: word_le_def)
  have key: "snd e = c \<longleftrightarrow> ?f e = - int (unat c)" for e
    by (cases e) (simp add: word_uint_eq_iff)
  have "filter (\<lambda>e. snd e = c) (sorted_desc m) = filter (\<lambda>e. snd e = c) m"
    unfolding key sorted_desc_def by (rule sort_key_stable)
  then show ?thesis using order by (simp add: sorted_desc_def)
qed

text \<open>The percentage of a printed row.\<close>

fun row_percent :: "out_line \<Rightarrow> real" where
  "row_percent (RankedRow _ _ p) = p"
| "row_percent _ = 0"

lemma sorted_desc_sum:
  "sum_list (map (\<lambda>e. f (snd e)) (sorted_desc m)) = sum_list (map (\<lambda>e. (f (snd e) :: nat)) m)"
proof -
  have "mset (map (\<lambda>e. f (snd e)) (sorted_desc m)) = mset (map (\<lambda>e. f (snd e)) m)"
    by (simp add: sorted_desc_def)
  then show ?thesis by (metis sum_mset_sum_list)
qed

lemma rows_percent:
  assumes "0 < whole"
  shows "sum_list (map row_percent (map (\<lambda>(name, c). RankedRow name (format_number c) (percent c whole)) es))
    = real (sum_list (map (\<lambda>e. unat (snd e)) es)) / real (unat whole) * 100"
proof (induction es)
  case Nil
  then show ?case by simp
next
  case (Cons e es)
  then show ?case using assms by (cases e) (simp add: percent_def add_divide_distrib distrib_right)
qed

lemma parts_100: "0 < (a :: nat) \<Longrightarrow> b \<le> a \<Longrightarrow> real b / real a * 100 + real (a - b) / real a * 100 = 100"
  by (simp add: of_nat_diff field_simps)

lemma all_100: "0 < (a :: nat) \<Longrightarrow> real a / real a * 100 = 100"
  by simp

lemma unat_pos: "0 < (w :: u64) \<Longrightarrow> 0 < unat w"
  by (simp add: word_less_nat_alt)

text \<open>
  The percentages of a ranked section sum up to 100 when the counts sum up to the total the
  section is given: what the first entries leave out is the row \<open>... (other)\<close>.
\<close>

theorem ranked_section_sums_to_100:
  assumes "sum_list (map (\<lambda>e. unat (snd e)) data) = unat whole" and "0 < whole"
  shows "\<exists>ls. print_ranked_section chk title data whole top_n = Inr ls \<and> sum_list (map row_percent ls) = 100"
proof -
  let ?es = "sorted_desc data"
  let ?n = "case top_n of Some n \<Rightarrow> n | None \<Rightarrow> length ?es"
  let ?shown = "sum_list (map (\<lambda>e. unat (snd e)) (take ?n ?es))"
  let ?row = "\<lambda>(name, c). RankedRow name (format_number c) (percent c whole)"
  have tot: "sum_list (map (\<lambda>e. unat (snd e)) ?es) = unat whole"
    using sorted_desc_sum [of unat data] assms(1) by simp
  have bound: "unat whole < 2 ^ LENGTH(64)" by (rule unsigned_less)
  have le: "?shown \<le> unat whole" using sum_list_take_le [of "\<lambda>e. unat (snd e)" ?n ?es] tot by simp
  have pos: "0 < unat whole" by (rule unat_pos [OF assms(2)])
  obtain shown where shown: "sum_ovf chk 0 (map snd (take ?n ?es)) = Inr shown" "unat shown = ?shown"
    using sum_ovf_exact [of 0 "map snd (take ?n ?es)" chk] le bound by (auto simp: o_def)
  let ?rest = "saturating_sub whole shown"
  have "shown \<le> whole" using le shown(2) by (simp add: word_le_nat_alt)
  then have rest: "unat ?rest = unat whole - ?shown"
    using shown(2) by (auto simp: saturating_sub_def unat_sub dest: leD)
  have rows: "sum_list (map row_percent (map ?row (take ?n ?es))) = real ?shown / real (unat whole) * 100"
    by (rule rows_percent [OF assms(2)])
  show ?thesis
  proof (cases "?n < length ?es")
    case True
    let ?others = "if ?rest > 0 then [RankedRow ''... (other)'' (format_number ?rest)
        (real (unat ?rest) / real (unat whole) * 100)] else []"
    have run: "print_ranked_section chk title data whole top_n
        = Inr (Heading title # map ?row (take ?n ?es) @ ?others @ [Blank])"
      using True shown(1) by (simp add: print_ranked_section_def Let_def)
    have "sum_list (map row_percent ?others) = real (unat ?rest) / real (unat whole) * 100"
      by (simp add: word_neq_0_conv [symmetric])
    then have "sum_list (map row_percent (Heading title # map ?row (take ?n ?es) @ ?others @ [Blank]))
        = real ?shown / real (unat whole) * 100 + real (unat ?rest) / real (unat whole) * 100"
      using rows by (simp only: map_append sum_list_append list.map sum_list.Cons sum_list.Nil row_percent.simps)
    also have "\<dots> = 100" unfolding rest by (rule parts_100 [OF pos le])
    finally show ?thesis using run by blast
  next
    case False
    then have "print_ranked_section chk title data whole top_n = Inr (Heading title # map ?row (take ?n ?es) @ [Blank])"
      by (simp add: print_ranked_section_def Let_def)
    moreover have "?shown = unat whole" using tot False by simp
    then have "real ?shown / real (unat whole) * 100 = 100" by (simp only: all_100 [OF pos])
    then have "sum_list (map row_percent (Heading title # map ?row (take ?n ?es) @ [Blank])) = 100"
      using rows by (simp only: map_append sum_list_append list.map sum_list.Cons sum_list.Nil row_percent.simps)
    ultimately show ?thesis by blast
  qed
qed

theorem ranked_section_sums_to_100_witness:
  "\<exists>ls. print_ranked_section True ''Transaction Types'' (tx_type_count example_composition)
     (total_tx_count example_composition) None = Inr ls \<and> sum_list (map row_percent ls) = 100"
  by (rule ranked_section_sums_to_100) (simp_all add: example_composition_def)

lemma over_100: "0 < (a :: nat) \<Longrightarrow> a < b \<Longrightarrow> 100 < real b / real a * 100"
  by (simp add: field_simps)



section \<open>The charts\<close>

lemma save_charts_ok:
  assumes "for_each (save_chart render dir first last_block) cs w = (Inr (), w')" "distinct (map fst cs)"
  shows "\<forall>(name, ch) \<in> set cs. \<exists>svg. render ch = Inr svg \<and>
    fs_read (co_fs w') (join dir (chart_file name first last_block)) = Some svg"
    and "p \<notin> (\<lambda>c. join dir (chart_file (fst c) first last_block)) ` set cs \<Longrightarrow> fs_read (co_fs w') p = fs_read (co_fs w) p"
  using assms
proof (induction cs arbitrary: w p)
  case Nil
  { case 1 then show ?case by simp }
  { case 2 then show ?case by simp }
next
  case (Cons c cs)
  obtain name ch where c: "c = (name, ch)" by (cases c)
  have file_inj: "chart_file a first last_block = chart_file b first last_block \<Longrightarrow> a = b" for a b
    by (auto simp: chart_file_def split: if_splits)
  have step: "\<exists>svg w1. render ch = Inr svg \<and>
      fs_write (join dir (chart_file name first last_block)) svg (co_fs w) = (Inr (), co_fs w1) \<and>
      for_each (save_chart render dir first last_block) cs w1 = (Inr (), w')"
    if "for_each (save_chart render dir first last_block) (c # cs) w = (Inr (), w')" for w
  proof -
    from that obtain w1 where one: "save_chart render dir first last_block (name, ch) w = (Inr (), w1)"
      and rest: "for_each (save_chart render dir first last_block) cs w1 = (Inr (), w')"
      by (auto simp: c elim!: andthen_Inr_E)
    from one obtain svg where "render ch = Inr svg"
      "fs_write (join dir (chart_file name first last_block)) svg (co_fs w) = (Inr (), co_fs w1)"
      by (auto simp: save_chart_def zoom_def res_simps elim!: andthen_Inr_E split: prod.splits)
    then show ?thesis using rest by blast
  qed
  {
    case 1
    from step [OF 1(1)] obtain svg w1 where s: "render ch = Inr svg"
      "fs_write (join dir (chart_file name first last_block)) svg (co_fs w) = (Inr (), co_fs w1)"
      "for_each (save_chart render dir first last_block) cs w1 = (Inr (), w')" by blast
    have "join dir (chart_file name first last_block) \<notin> (\<lambda>c. join dir (chart_file (fst c) first last_block)) ` set cs"
      using 1(2) file_inj by (force simp: c)
    then have "fs_read (co_fs w') (join dir (chart_file name first last_block)) = Some svg"
      using Cons.IH(2) [OF _ s(3)] 1(2) disk.put_Inr [OF s(2)] by simp
    then show ?case using Cons.IH(1) [OF s(3)] 1(2) s(1) c by auto
  }
  {
    case 2
    from step [OF 2(2)] obtain svg w1 where s:
      "fs_write (join dir (chart_file name first last_block)) svg (co_fs w) = (Inr (), co_fs w1)"
      "for_each (save_chart render dir first last_block) cs w1 = (Inr (), w')" by blast
    have "fs_read (co_fs w') p = fs_read (co_fs w1) p"
      using Cons.IH(2) [OF _ s(2)] 2 by simp
    moreover have "fs_read (co_fs w1) p = fs_read (co_fs w) p"
      using 2(1) disk.put_frame [OF s(1)] by (simp add: c)
    ultimately show ?case by simp
  }
qed

lemma charts_names: "charts chk s = Inr cs \<Longrightarrow> map fst cs =
    [''selectors'', ''selectors_by_gas'', ''destinations'', ''tx_types'', ''call_categories'']"
  by (auto simp: charts_def Let_def res_simps)

text \<open>
  When \<open>analyze_and_display\<close> succeeds, each of the five charts is in its own file of the output
  directory, named after the chart and the range of blocks, with the rendered content, and no
  other file has changed.
\<close>

theorem analyze_saves_charts:
  assumes "analyze_and_display chk hexs addr_hex render blocks dir w = (Inr (), w')"
  shows "\<exists>s cs. process_blocks chk hexs addr_hex blocks composition_default = Inr s \<and> charts chk s = Inr cs \<and>
    length cs = 5 \<and>
    (\<forall>(name, ch) \<in> set cs. \<exists>svg. render ch = Inr svg \<and>
       fs_read (co_fs w') (join dir (chart_file name
         (case blocks of [] \<Rightarrow> 0 | b # _ \<Rightarrow> blk_number b) (if blocks = [] then 0 else blk_number (last blocks)))) = Some svg) \<and>
    (\<forall>p. butlast p \<noteq> dir \<longrightarrow> fs_read (co_fs w') p = fs_read (co_fs w) p)"
proof -
  let ?first = "case blocks of [] \<Rightarrow> 0 | b # _ \<Rightarrow> blk_number b"
  let ?last = "if blocks = [] then 0 else blk_number (last blocks)"
  from assms obtain s ls w2 cs where s: "process_blocks chk hexs addr_hex blocks composition_default = Inr s"
    and w2: "(if fs_exists (co_fs w) dir then (Inr (), w\<lparr>co_lines := co_lines w @ ls\<rparr>)
      else on_fs (fs_create_dir_all dir) (w\<lparr>co_lines := co_lines w @ ls\<rparr>)) = (Inr (), w2)"
    and cs: "charts chk s = Inr cs"
    and save: "for_each (save_chart render dir ?first ?last) cs w2 = (Inr (), w')"
    by (auto simp: analyze_and_display_def Let_def print_lines_def elim!: andthen_Inr_E)
  have files: "fs_read (co_fs w2) = fs_read (co_fs w)"
    using w2 by (auto simp: zoom_def dest: fs_create_dir_all_frame split: if_splits prod.splits)
  have names: "distinct (map fst cs)" "length cs = 5"
    using charts_names [OF cs] by (simp_all flip: length_map [of fst cs])
  have frame: "fs_read (co_fs w') p = fs_read (co_fs w) p" if "butlast p \<noteq> dir" for p
  proof -
    have "p \<noteq> join dir n" for n using that by auto
    then show ?thesis using save_charts_ok(2) [OF save names(1), of p] files by (auto simp: image_iff)
  qed
  show ?thesis
    using s cs names(2) save_charts_ok(1) [OF save names(1)] frame by blast
qed

lemma short_section_ok:
  "(case top_n of Some n \<Rightarrow> length data \<le> n | None \<Rightarrow> True) \<Longrightarrow>
     \<exists>ls. print_ranked_section chk title data whole top_n = Inr ls"
  by (cases top_n) (simp_all add: print_ranked_section_def Let_def sorted_desc_def)

lemma save_charts_run:
  assumes "\<And>op p. fs_denied (co_fs w) op p = None" "fs_is_dir (co_fs w) dir"
    and "\<And>name. \<not> fs_is_dir (co_fs w) (join dir name)" "\<And>ch. \<exists>svg. render ch = Inr svg"
  shows "\<exists>w'. for_each (save_chart render dir first last_block) cs w = (Inr (), w')"
  using assms
proof (induction cs arbitrary: w)
  case Nil
  then show ?case by simp
next
  case (Cons c cs)
  obtain name ch where c: "c = (name, ch)" by (cases c)
  obtain svg where svg: "render ch = Inr svg" using Cons.prems(4) by blast
  let ?f = "co_fs w\<lparr>fs_files := AList.update (join dir (chart_file name first last_block)) svg (fs_files (co_fs w))\<rparr>"
  have one: "save_chart render dir first last_block c w = (Inr (), w\<lparr>co_fs := ?f\<rparr>)"
    using Cons.prems(1-3) by (simp add: c save_chart_def svg zoom_def fs_write_def andthen_def)
  have "\<exists>w'. for_each (save_chart render dir first last_block) cs (w\<lparr>co_fs := ?f\<rparr>) = (Inr (), w')"
    by (rule Cons.IH) (use Cons.prems in \<open>simp_all add: fs_is_dir_def\<close>)
  then show ?case using one by (simp add: andthen_Inr)
qed

definition example_console :: "string console" where
  "example_console = \<lparr>co_lines = [], co_fs = empty_fs\<rparr>"

definition example_render :: "chart \<Rightarrow> string + string" where
  "example_render ch = Inr (ch_title ch)"

lemma example_analyze_run:
  "\<exists>w'. analyze_and_display True example_hex4 example_addr40 example_render example_blocks [''charts''] example_console
     = (Inr (), w')"
proof -
  let ?s = example_composition
  let ?small = "\<lambda>m. sum_list (map (\<lambda>e. unat (snd e)) (sorted_desc m)) < 2 ^ 64"
  have fields: "length (selector_count ?s) \<le> top_n_selectors" "length (selector_by_gas ?s) \<le> top_n_selectors"
    "length (destinations ?s) \<le> top_n_destinations"
    by (simp_all add: example_composition_def top_n_selectors_def top_n_destinations_def)
  have all_rows: "\<exists>ls. print_ranked_section True title data whole None = Inr ls" for title data whole
    by (rule short_section_ok) simp
  have few_rows: "length data \<le> n \<Longrightarrow> \<exists>ls. print_ranked_section True title data whole (Some n) = Inr ls"
    for title data whole n
    by (rule short_section_ok) simp
  have "\<exists>ls. print_summary True ?s a b = Inr ls" for a b
    using all_rows [of "''Transaction Types''" "tx_type_count ?s" "total_tx_count ?s"]
      all_rows [of "''Call Categories''" "call_category_count ?s" "total_tx_count ?s"]
      few_rows [OF fields(1), of "''Top Method Selectors (by count)''" "total_tx_count ?s"]
      few_rows [OF fields(2), of "''Top Method Selectors (by gas)''" "total_gas_used ?s"]
      few_rows [OF fields(3), of "''Top Destinations''" "total_tx_count ?s"]
    by (auto simp: print_summary_def)
  then obtain ls where ls: "print_summary True ?s 3 3 = Inr ls" by blast
  have small: "?small (selector_count ?s)" "?small (selector_by_gas ?s)" "?small (destinations ?s)"
    "?small (tx_type_count ?s)" "?small (call_category_count ?s)"
    by (simp_all add: sorted_desc_sum [of unat] example_composition_def)
  have trunc: "?small m \<Longrightarrow> \<exists>r. truncate_to True (sorted_desc m) n = Inr r" for m n
    by (rule truncate_to_ok)
  obtain d1 d2 d3 d4 d5 where
    "truncate_to True (sorted_desc (selector_count ?s)) top_n_selectors = Inr d1"
    "truncate_to True (sorted_desc (selector_by_gas ?s)) top_n_selectors = Inr d2"
    "truncate_to True (sorted_desc (destinations ?s)) top_n_destinations = Inr d3"
    "truncate_to True (sorted_desc (tx_type_count ?s)) (length (sorted_desc (tx_type_count ?s))) = Inr d4"
    "truncate_to True (sorted_desc (call_category_count ?s)) (length (sorted_desc (call_category_count ?s))) = Inr d5"
    using trunc [OF small(1)] trunc [OF small(2)] trunc [OF small(3)] trunc [OF small(4)] trunc [OF small(5)] by blast
  then have "\<exists>cs. charts True ?s = Inr cs" by (simp add: charts_def Let_def)
  then obtain cs where cs: "charts True ?s = Inr cs" by blast
  let ?w = "\<lparr>co_lines = ls, co_fs = empty_fs\<lparr>fs_dirs := [[''charts'']]\<rparr>\<rparr> :: string console"
  have "\<exists>w'. for_each (save_chart example_render [''charts''] 3 3) cs ?w = (Inr (), w')"
    by (rule save_charts_run) (simp_all add: empty_fs_def fs_is_dir_def example_render_def join_def)
  moreover have "on_fs (fs_create_dir_all [''charts'']) (\<lparr>co_lines = ls, co_fs = empty_fs\<rparr> :: string console) = (Inr (), ?w)"
    by (simp add: zoom_def fs_create_dir_all_def empty_fs_def ancestors_def)
  ultimately show ?thesis
    using example_composition_run ls cs
    by (simp add: analyze_and_display_def Let_def andthen_Inr print_lines_def example_console_def fs_exists_def
        fs_is_dir_def example_blocks_def)
      (simp add: empty_fs_def andthen_Inr)
qed

theorem analyze_saves_charts_witness:
  "\<exists>w' cs. analyze_and_display True example_hex4 example_addr40 example_render example_blocks [''charts''] example_console
     = (Inr (), w') \<and> charts True example_composition = Inr cs \<and> length cs = 5"
  using example_analyze_run analyze_saves_charts [of True example_hex4 example_addr40 example_render example_blocks
      "[''charts'']" example_console] example_composition_run by fastforce

end
