(* ===== verification/Commands.thy ===== *)
theory Commands
  imports Blocks_Loop Composition
begin

text \<open>
  The other commands of \<open>src/cli.rs\<close> that work on blocks of a chain: \<open>generate-input\<close>, \<open>block-composition\<close> and, in a
  build for L2, \<open>l2 batch\<close>. \<open>display_ext\<close> is how texts are made of what is displayed.
\<close>

section \<open>Writing an input\<close>

definition input_context :: "features \<Rightarrow> 'e program_input \<Rightarrow> string" where
  "input_context feats inp =
     ''failed to serialize ProgramInput (blocks_len='' @ show_nat (length (pi_blocks inp)) @
     (case pi_l2 inp of
        Some l2 \<Rightarrow> if feat_l2 feats then '', fee_configs_len='' @ show_nat (length (li_fee_configs l2)) else []
      | None \<Rightarrow> []) @ '')''"

definition write_program_input ::
    "('n, 'b, 'e, 'c) env \<Rightarrow> path \<Rightarrow> 'e program_input \<Rightarrow> (('n, 'c) world, unit) act" where
  "write_program_input env output_path inp = (\<lambda>w.
     if fs_exists (wd_fs w) output_path \<and> fs_is_dir (wd_fs w) output_path then
       (Inl (Error (''program input path is a directory: '' @ path_display output_path)), w)
     else
       andthen (if output_path = [] then ret () else on_disk (fs_create_dir_all (butlast output_path))) (\<lambda>_.
       andthen (lift_res (in_context (input_context (en_feats env) inp) (en_rkyv env inp))) (\<lambda>serialized.
         wrap_err (''failed to write ProgramInput to '' @ path_display output_path)
           (on_disk (fs_write output_path serialized)))) w)"

section \<open>The command generate-input\<close>

definition default_cache_dir :: path where "default_cache_dir = [''.'', ''replay_cache'']"

definition generate_opts :: "string \<Rightarrow> replay_options" where
  "generate_opts rpc_url =
     \<lparr>o_common = common_default, o_rpc_url = Some rpc_url, o_cached = False, o_network = None,
      o_cache_dir = default_cache_dir, o_cache_level = CacheOff, o_slack_url = None, o_no_zkvm = False, o_repeat = 1,
      o_bench = False, o_notification_level = NotifyOff\<rparr>"

definition blocks_to_process ::
    "('n, 'b, 'e, 'c) env \<Rightarrow> generate_input_options \<Rightarrow> (('n, 'c) world, u64 list) run" where
  "blocks_to_process env args w =
     (if gi_blocks args \<noteq> [] then Some (Inr (gi_blocks args), w)
      else case gi_block args of
        Some n \<Rightarrow> Some (Inr [n], w)
      | None \<Rightarrow>
          (case gi_from args of
             None \<Rightarrow> Some (Inl (Error ''Either block, blocks, or from must be specified''), w)
           | Some from \<Rightarrow>
               proceed (case gi_to args of
                   Some to \<Rightarrow> Some (Inr to, w)
                 | None \<Rightarrow> fetch_latest_block_number env (gi_rpc_url args) False w) (\<lambda>to w'.
                 Some (Inr (range_incl from to), w'))))"

definition input_file_name :: "(network \<Rightarrow> string) \<Rightarrow> network \<Rightarrow> u64 \<Rightarrow> string" where
  "input_file_name show_net net n = ''ethrex_'' @ show_net net @ ''_'' @ show_u64 n @ ''_input.bin''"

definition generate_one ::
    "('n, 'b, 'e, 'c) env \<Rightarrow> ('n, 'j, 'd, 't, 'p) fallback_ext \<Rightarrow> generate_input_options \<Rightarrow> u64 \<Rightarrow>
     (('n, 'c) world, unit) act" where
  "generate_one env fb args n =
     andthen (get_blockdata env fb (generate_opts (gi_rpc_url args)) (Some n)) (\<lambda>(c, net).
     andthen (lift_res (get_l1_input env c)) (\<lambda>inp.
       wrap_err (''failed to write ProgramInput for block '' @ show_u64 n @ '' on '' @ en_show_net env net)
         (write_program_input env (join (gi_output_dir args) (input_file_name (en_show_net env) net n)) inp)))"

definition generate_input ::
    "('n, 'b, 'e, 'c) env \<Rightarrow> ('n, 'j, 'd, 't, 'p) fallback_ext \<Rightarrow> generate_input_options \<Rightarrow> (('n, 'c) world, unit) run" where
  "generate_input env fb args w =
     proceed (Some (if fs_exists (wd_fs w) (gi_output_dir args) then (Inr (), w)
         else on_disk (fs_create_dir_all (gi_output_dir args)) w)) (\<lambda>_ w1.
     proceed (blocks_to_process env args w1) (\<lambda>blocks w2.
       Some (for_each (generate_one env fb args) blocks w2)))"

section \<open>The command block-composition\<close>

record 'c display_ext =
  dx_hex :: "bytes \<Rightarrow> string"
  dx_address :: "address \<Rightarrow> string"
  dx_render :: "chart \<Rightarrow> string + 'c"
  dx_line :: "out_line \<Rightarrow> string"
  dx_result :: "outcome \<Rightarrow> string"
  dx_data :: "bytes \<Rightarrow> string"

text \<open>\<open>analyze_and_display\<close>, whose console is the file system and the lines it prints.\<close>

definition on_console :: "'c display_ext \<Rightarrow> ('c console, 'a) act \<Rightarrow> (('n, 'c) world, 'a) act" where
  "on_console dx m =
     zoom (\<lambda>w. \<lparr>co_lines = [], co_fs = wd_fs w\<rparr>)
       (\<lambda>c w. w\<lparr>wd_fs := co_fs c,
          wd_events := wd_events w @ (if co_lines c = [] then [] else [Printed (map (dx_line dx) (co_lines c))])\<rparr>) m"

primrec load_blocks ::
    "('n, 'b, 'e, 'c) env \<Rightarrow> path \<Rightarrow> network \<Rightarrow> u64 list \<Rightarrow> (('n, 'c) world, block list) act" where
  "load_blocks env dir net [] = ret []"
| "load_blocks env dir net (n # ns) =
     andthen (on_disk (cache_load (en_from_json env) dir (get_block_cache_file_name (en_show_net env) net n None))) (\<lambda>c.
     andthen (load_blocks env dir net ns) (\<lambda>rest. ret (c_blocks c @ rest)))"

text \<open>The loop over a range at a node: an error of the request is handed upwards as it is.\<close>

primrec composition_blocks ::
    "('n, 'b, 'e, 'c) env \<Rightarrow> eth_client \<Rightarrow> u64 list \<Rightarrow> (('n, 'c) world, block list) act" where
  "composition_blocks env client [] = ret []"
| "composition_blocks env client (n # ns) =
     andthen (call (en_block_by_number env client n)) (\<lambda>rb.
     andthen (lift_res (case en_to_block env rb of
         Inl e \<Rightarrow> Inl (Error (''Failed to convert rpc block to block: '' @ e)) | Inr blk \<Rightarrow> Inr blk)) (\<lambda>blk.
     andthen (composition_blocks env client ns) (\<lambda>rest. ret (blk # rest))))"

definition composition_range :: "block_composition_options \<Rightarrow> (u64 \<times> u64) res" where
  "composition_range args =
     (case (bc_block args, bc_from args) of
        (Some n, _) \<Rightarrow> Inr (n, n)
      | (None, Some from) \<Rightarrow> Inr (from, case bc_to args of Some to \<Rightarrow> to | None \<Rightarrow> from)
      | (None, None) \<Rightarrow> Inl (Error ''Either a block number or --from must be specified.''))"

definition block_composition ::
    "('n, 'b, 'e, 'c) env \<Rightarrow> 'c display_ext \<Rightarrow> block_composition_options \<Rightarrow> (('n, 'c) world, unit) act" where
  "block_composition env dx args =
     andthen (lift_res (composition_range args)) (\<lambda>(start_block, end_block).
     if end_block < start_block then throw (Error ''starting block can't be greater than ending block'')
     else
       andthen (if bc_cached args then
           andthen (lift_res (unwrap (bc_network args))) (\<lambda>net.
             load_blocks env (bc_cache_dir args) net (range_incl start_block end_block))
         else
           andthen (lift_res (unwrap (bc_rpc_url args))) (\<lambda>rpc_url.
           andthen (lift_res (of_result (en_client_new env rpc_url))) (\<lambda>client.
           andthen (lift_res (bind_res (sub_ovf (en_chk env) end_block start_block) (\<lambda>d. add_ovf (en_chk env) d 1))) (\<lambda>_.
             composition_blocks env client (range_incl start_block end_block))))) (\<lambda>blocks.
       on_console dx (analyze_and_display (en_chk env) (dx_hex dx) (dx_address dx) (dx_render dx) blocks (bc_output_dir args))))"

section \<open>The command l2 batch\<close>

definition replay_batch ::
    "('n, 'b, 'e, 'c) env \<Rightarrow> 'c display_ext \<Rightarrow> batch_options \<Rightarrow> (('n, 'c) world, unit) act" where
  "replay_batch env dx args =
     (let opts = bt_opts args; common = o_common opts;
          result_line = (\<lambda>what r. ''Batch '' @ show_u64 (bt_batch args) @ what @ dx_result dx r) in
      if o_cached opts then throw (Panic ''not implemented: cached mode is not implemented yet'')
      else
        andthen (setup_rpc env opts) (\<lambda>(client, net).
        andthen (get_batchdata env client net (bt_batch args) (o_cache_dir opts)) (\<lambda>c.
        andthen (lift_res (backend (en_feats env) (o_zkvm common))) (\<lambda>be.
        case o_action common of
          Execute \<Rightarrow>
            andthen (attempt (exec env be c)) (\<lambda>execution_result.
              observe (Printed [result_line '' execution result: '' execution_result]))
        | Prove \<Rightarrow>
            andthen (if feat_zisk (en_feats env) then ret ()
                     else andthen (attempt (exec env be c)) (\<lambda>execution_result.
                       observe (Printed [result_line '' execution result: '' execution_result]))) (\<lambda>_.
            andthen (attempt (prove env be (o_proof_type common) c)) (\<lambda>proving_result.
              observe (Printed [result_line '' proving result: '' proving_result])))))))"

section \<open>What generate-input leaves\<close>

lemma input_file_name_inj:
  assumes "inj show_net" "input_file_name show_net net n = input_file_name show_net net' n'"
  shows "net = net' \<and> n = n'"
proof -
  have "show_net net @ CHR ''_'' # show_u64 n = show_net net' @ CHR ''_'' # show_u64 n'"
    using assms(2) by (simp add: input_file_name_def)
  then have "show_net net = show_net net' \<and> show_u64 n = show_u64 n'" by (rule last_sep_inj) simp_all
  then show ?thesis using assms(1) by (auto dest: injD)
qed

lemma input_name_not_cache_name:
  "input_file_name show_net net n \<noteq> get_block_cache_file_name show_net net' from to"
  by (simp add: input_file_name_def get_block_cache_file_name_def split: option.split)

lemma well_named_other:
  assumes "well_named env dir files" "\<And>net n. p \<noteq> join dir (get_block_cache_file_name (en_show_net env) net n None)"
  shows "well_named env dir (files(p \<mapsto> x))"
proof -
  have "(files(p \<mapsto> x)) (join dir (get_block_cache_file_name (en_show_net env) net n None))
      = files (join dir (get_block_cache_file_name (en_show_net env) net n None))" for net n
    by (rule fun_upd_other) (rule assms(2) [symmetric])
  then show ?thesis using assms(1) by (simp only: well_named_def)
qed

lemma write_program_input_Inr:
  assumes "write_program_input env p inp w = (Inr (), w')"
  shows "\<exists>serialized. en_rkyv env inp = Inr serialized \<and> wd_read w' = (wd_read w)(p \<mapsto> serialized)"
proof -
  have "\<not> (fs_exists (wd_fs w) p \<and> fs_is_dir (wd_fs w) p)" using assms by (auto simp: write_program_input_def)
  then obtain w1 serialized where
    dirs: "(if p = [] then ret () else on_disk (fs_create_dir_all (butlast p))) w = (Inr (), w1)"
    and ser: "in_context (input_context (en_feats env) inp) (en_rkyv env inp) = Inr serialized"
    and wr: "on_disk (fs_write p serialized) w1 = (Inr (), w')"
    using assms by (auto simp: write_program_input_def elim!: andthen_Inr_E)
  have "wd_read w1 = wd_read w"
    using dirs by (auto dest!: on_disk_frame fs_create_dir_all_frame split: if_splits)
  moreover have "wd_read w' = (wd_read w1)(p \<mapsto> serialized)"
    by (rule disk.put_Inr [OF conjunct2 [OF conjunct2 [OF on_disk_frame [OF wr]]]])
  ultimately show ?thesis using ser by (auto simp: res_simps)
qed

lemma keeps_latest_number [keeps_intros]: "keeps wd_fs (latest_number env client)"
  unfolding latest_number_def by (intro keeps_intros)

lemma fetch_latest_files:
  assumes "fetch_latest_block_number env url False w = Some (Inr n, w')"
  shows "wd_fs w' = wd_fs w"
proof -
  obtain client where "proceed (Some (latest_number env client w)) (\<lambda>l v. wait_for_multiple env client False l v) = Some (Inr n, w')"
    using assms by (auto simp: fetch_latest_block_number_def split: sum.splits)
  then obtain l v where "latest_number env client w = (Inr l, v)" "wait_for_multiple env client False l v = Some (Inr n, w')"
    by (auto elim!: proceed_Inr simp del: bind.bind_lunit)
  then show ?thesis using keepsD [OF keeps_latest_number] by (auto simp: wait_for_multiple.simps)
qed

lemma blocks_to_process_files:
  assumes "blocks_to_process env args w = Some (Inr ns, w')"
  shows "wd_fs w' = wd_fs w"
proof (cases "gi_blocks args \<noteq> [] \<or> gi_block args \<noteq> None \<or> gi_from args = None \<or> gi_to args \<noteq> None")
  case True
  then show ?thesis using assms by (auto simp: blocks_to_process_def split: if_splits option.splits)
next
  case False
  then obtain "from" where "proceed (fetch_latest_block_number env (gi_rpc_url args) False w)
      (\<lambda>to w'. Some (Inr (range_incl from to), w')) = Some (Inr ns, w')"
    using assms by (auto simp: blocks_to_process_def)
  then obtain to v where "fetch_latest_block_number env (gi_rpc_url args) False w = Some (Inr to, v)" "v = w'"
    by (rule proceed_Inr) simp
  then show ?thesis using fetch_latest_files by blast
qed

text \<open>The input of a block that was generated, in the files.\<close>

definition generated ::
    "('n, 'b, 'e, 'c) env \<Rightarrow> path \<Rightarrow> u64 \<Rightarrow> (path \<Rightarrow> 'c option) \<Rightarrow> bool" where
  "generated env output_dir n files \<longleftrightarrow>
     (\<exists>c net inp serialized. asked_for c net (Some n) default_cache_dir \<and> get_l1_input env c = Inr inp \<and>
        en_rkyv env inp = Inr serialized \<and>
        files (join output_dir (input_file_name (en_show_net env) net n)) = Some serialized \<and>
        files (join default_cache_dir (get_block_cache_file_name (en_show_net env) net n None)) \<noteq> None)"

lemma generate_one_step:
  assumes env: "env_ok env" and named: "well_named env default_cache_dir (wd_read w)"
    and run: "generate_one env fb args n w = (Inr (), w')"
  shows "\<exists>c net inp serialized. asked_for c net (Some n) default_cache_dir \<and> get_l1_input env c = Inr inp \<and>
    en_rkyv env inp = Inr serialized \<and> well_named env default_cache_dir (wd_read w') \<and>
    wd_read w' = (wd_read w)
      (join default_cache_dir (get_block_cache_file_name (en_show_net env) net n None) \<mapsto> fst (en_to_json env c),
       join (gi_output_dir args) (input_file_name (en_show_net env) net n) \<mapsto> serialized)"
proof -
  let ?opts = "generate_opts (gi_rpc_url args)"
  have opts: "o_cache_dir ?opts = default_cache_dir" "\<not> o_cached ?opts" by (simp_all add: generate_opts_def)
  from run obtain c net w1 inp where data: "get_blockdata env fb ?opts (Some n) w = (Inr (c, net), w1)"
    and inp: "get_l1_input env c = Inr inp"
    and out: "write_program_input env (join (gi_output_dir args) (input_file_name (en_show_net env) net n)) inp w1 = (Inr (), w')"
    by (auto simp: generate_one_def elim!: andthen_Inr_E split: prod.splits)
  note online = get_blockdata_online [OF env named [folded opts(1)] opts(2) data]
  have asked: "asked_for c net (Some n) default_cache_dir" using online(1) unfolding opts(1) .
  then have one: "map blk_number (c_blocks c) = [n]" and net: "c_network c = net" "c_dir c = default_cache_dir"
    by (auto simp: asked_for_def)
  let ?cache = "join default_cache_dir (get_block_cache_file_name (en_show_net env) net n None)"
  have "wd_read w1 = (wd_read w)(?cache \<mapsto> fst (en_to_json env c))"
    using cache_write_InrD(3) [OF online(2)] cache_path_single [OF one, of "en_show_net env"] by (simp only: net)
  moreover obtain serialized where ser: "en_rkyv env inp = Inr serialized"
    "wd_read w' = (wd_read w1)(join (gi_output_dir args) (input_file_name (en_show_net env) net n) \<mapsto> serialized)"
    using write_program_input_Inr [OF out] by blast
  moreover have "well_named env default_cache_dir (wd_read w')"
  proof -
    have "well_named env default_cache_dir (wd_read w1)"
      using cache_write_well_named [OF env _ one online(2)] named net(2) by simp
    then show ?thesis
      unfolding ser(2) by (rule well_named_other) (simp add: input_name_not_cache_name)
  qed
  ultimately show ?thesis using asked inp by auto
qed

lemma generated_kept:
  assumes env: "env_ok env" and before: "generated env output_dir m files"
    and now: "asked_for c net (Some n) default_cache_dir" "get_l1_input env c = Inr inp" "en_rkyv env inp = Inr serialized"
  shows "generated env output_dir m (files
      (join default_cache_dir (get_block_cache_file_name (en_show_net env) net n None) \<mapsto> json,
       join output_dir (input_file_name (en_show_net env) net n) \<mapsto> serialized))" (is "generated env output_dir m ?files")
proof -
  obtain c0 net0 inp0 ser0 where old: "asked_for c0 net0 (Some m) default_cache_dir" "get_l1_input env c0 = Inr inp0"
    "en_rkyv env inp0 = Inr ser0" "files (join output_dir (input_file_name (en_show_net env) net0 m)) = Some ser0"
    "files (join default_cache_dir (get_block_cache_file_name (en_show_net env) net0 m None)) \<noteq> None"
    using before unfolding generated_def by blast
  show ?thesis
  proof (cases "net0 = net \<and> m = n")
    case True
    then show ?thesis using now input_name_not_cache_name by (auto simp: generated_def intro!: exI [of _ c] exI [of _ net])
  next
    case False
    then have "input_file_name (en_show_net env) net0 m \<noteq> input_file_name (en_show_net env) net n"
      using input_file_name_inj [OF env_okD(1) [OF env]] by blast
    then have "?files (join output_dir (input_file_name (en_show_net env) net0 m)) = Some ser0"
      using old(4) input_name_not_cache_name by auto
    moreover have "?files (join default_cache_dir (get_block_cache_file_name (en_show_net env) net0 m None)) \<noteq> None"
      using old(5) by auto
    ultimately show ?thesis using old(1-3) unfolding generated_def by blast
  qed
qed

lemma generate_all:
  assumes "env_ok env" "well_named env default_cache_dir (wd_read w)"
    and "for_each (generate_one env fb args) ns w = (Inr (), w')"
    and "\<forall>n \<in> done. generated env (gi_output_dir args) n (wd_read w)"
  shows "\<forall>n \<in> done \<union> set ns. generated env (gi_output_dir args) n (wd_read w')"
  using assms(2-4)
proof (induction ns arbitrary: w "done")
  case Nil
  then show ?case by simp
next
  case (Cons n ns)
  then obtain w1 where one: "generate_one env fb args n w = (Inr (), w1)"
    and rest: "for_each (generate_one env fb args) ns w1 = (Inr (), w')"
    by (auto elim!: andthen_Inr_E)
  from generate_one_step [OF assms(1) Cons.prems(1) one] obtain c net inp serialized where
    now: "asked_for c net (Some n) default_cache_dir" "get_l1_input env c = Inr inp" "en_rkyv env inp = Inr serialized"
    and named: "well_named env default_cache_dir (wd_read w1)"
    and files: "wd_read w1 = (wd_read w)
      (join default_cache_dir (get_block_cache_file_name (en_show_net env) net n None) \<mapsto> fst (en_to_json env c),
       join (gi_output_dir args) (input_file_name (en_show_net env) net n) \<mapsto> serialized)" by blast
  have "generated env (gi_output_dir args) n (wd_read w1)"
    using now input_name_not_cache_name unfolding files generated_def
    by (auto intro!: exI [of _ c] exI [of _ net])
  moreover have "generated env (gi_output_dir args) m (wd_read w1)" if "m \<in> done" for m
    unfolding files by (rule generated_kept [OF assms(1) _ now]) (use that Cons.prems(3) in blast)
  ultimately have "\<forall>m \<in> insert n done. generated env (gi_output_dir args) m (wd_read w1)" by blast
  from Cons.IH [OF named rest this] show ?case by auto
qed


section \<open>Instances\<close>

text \<open>The input of block 5 of mainnet, generated when block 7 is the latest.\<close>

definition gen5_args :: generate_input_options where
  "gen5_args = \<lparr>gi_block = Some 5, gi_blocks = [], gi_from = None, gi_to = None, gi_output_dir = [''inputs''],
     gi_rpc_url = ''http://node''\<rparr>"

definition gen5_cache :: cache where
  "gen5_cache = cache_new example_ids no_features [example_block 5] empty_witness \<lparr>cc_chain_id = 1\<rparr> default_cache_dir"

definition gen5_start :: "(nat, content) world" where
  "gen5_start = (example_world 7)\<lparr>wd_fs := empty_fs\<lparr>fs_dirs := [[''inputs'']]\<rparr>\<rparr>"

definition gen5_fetched :: "(nat, content) world" where
  "gen5_fetched = (example_world 7)\<lparr>wd_fs := empty_fs\<lparr>
     fs_files := [(default_cache_dir @ [''cache_mainnet_5.json''], CacheFile (gen5_cache\<lparr>c_dir := []\<rparr>))],
     fs_dirs := [[''.''], default_cache_dir, [''inputs'']]\<rparr>\<rparr>"

lemma gen5_data:
  "get_blockdata example_env nat_fallback (generate_opts ''http://node'') (Some 5) gen5_start
     = (Inr (gen5_cache, PublicNetwork Mainnet), gen5_fetched)"
proof -
  have name: "get_block_cache_file_name injective_net (PublicNetwork Mainnet) 5 None = ''cache_mainnet_5.json''"
    using show_five by (simp add: get_block_cache_file_name_def injective_net_def)
  have net: "network_from_chain_id example_ids no_features 1 = PublicNetwork Mainnet"
    by (simp add: network_from_chain_id_def example_ids_def)
  have one: "as_u64 1 = Inr 1" "as_u64 7 = Inr 7" by (simp_all add: as_u64_def)
  have wr: "cache_write injective_net (en_to_json example_env) gen5_cache (wd_fs gen5_start) = (Inr (), wd_fs gen5_fetched)"
    by (simp add: gen5_cache_def cache_new_def cache_write_def cache_file_name_def net name join_def default_cache_dir_def
        fs_create_dir_all_def fs_write_def ancestors_def andthen_def fs_is_dir_def gen5_start_def gen5_fetched_def empty_fs_def)
  have fetch: "get_blockdata_rpc example_env nat_fallback \<lparr>ec_urls = [''http://node'']\<rparr> (PublicNetwork Mainnet)
      (BlockNumber 5) default_cache_dir gen5_start = (Inr gen5_cache, gen5_start)"
    by (simp add: get_blockdata_rpc_def call_def outside_def zoom_def andthen_def gen5_start_def example_world_def one sub_ovf_def
        cache_load_def attempt_def map_err_def fetch_from_node_def wrap_err_def chain_id_of_def block_from_rpc_def
        witness_from_rpc_def gen5_cache_def fs_open_def empty_fs_def)
  have "setup_rpc example_env (generate_opts ''http://node'') gen5_start
      = (Inr (\<lparr>ec_urls = [''http://node'']\<rparr>, PublicNetwork Mainnet), gen5_start)"
    by (simp add: setup_rpc_def generate_opts_def call_def outside_def zoom_def andthen_def gen5_start_def example_world_def one net)
  then show ?thesis
    using fetch wr
    by (simp add: get_blockdata_def generate_opts_def andthen_def zoom_def)
      (simp add: gen5_start_def gen5_fetched_def)
qed

lemma gen5_run: "\<exists>w'. generate_input example_env nat_fallback gen5_args gen5_start = Some (Inr (), w')"
proof -
  obtain inp where inp: "get_l1_input example_env gen5_cache = Inr inp"
    by (simp add: get_l1_input_def gen5_cache_def cache_new_def no_features_def get_first_block_number_def
        genesis_config_def example_block_def)
  have path: "join [''inputs''] name \<noteq> []" for name by (simp add: join_def)
  have "\<exists>w'. write_program_input example_env (join [''inputs''] name) inp gen5_fetched = (Inr (), w')"
    if "name \<noteq> ''replay_cache''" for name and inp :: "u64 program_input"
    by (simp add: write_program_input_def gen5_fetched_def fs_exists_def fs_is_dir_def empty_fs_def join_def default_cache_dir_def
        andthen_def zoom_def fs_create_dir_all_def ancestors_def wrap_err_def map_err_def fs_write_def)
  moreover have "input_file_name injective_net (PublicNetwork Mainnet) 5 \<noteq> ''replay_cache''"
    by (simp add: input_file_name_def)
  ultimately obtain w' where "write_program_input example_env
      (join [''inputs''] (input_file_name injective_net (PublicNetwork Mainnet) 5)) inp gen5_fetched = (Inr (), w')"
    by blast
  then have "generate_one example_env nat_fallback gen5_args 5 gen5_start = (Inr (), w')"
    using inp by (simp add: generate_one_def gen5_args_def andthen_def gen5_data)
  moreover have "fs_exists (wd_fs gen5_start) [''inputs'']" by (simp add: gen5_start_def fs_exists_def fs_is_dir_def)
  ultimately show ?thesis
    by (auto simp: generate_input_def gen5_args_def blocks_to_process_def andthen_def)
qed


end
