(* ===== verification/Custom_Blocks.thy ===== *)
theory Custom_Blocks
  imports Commands
begin

text \<open>
  The commands \<open>custom\<close> and \<open>l2 custom\<close> of \<open>src/cli.rs\<close>, with \<open>src/tx_builder.rs\<close>: blocks that are
  produced on a local chain in memory, and then executed or proved.

  The chain (the store, the mempool, the payloads, for L2 the rollup store) belongs to other crates: its state is \<open>'s\<close>,
  and the record \<open>builder_ext\<close> holds the operations that are used. One that fails leaves the state as it was.
\<close>

section \<open>Transactions\<close>

text \<open>\<open>EIP1559Transaction\<close>; what is not listed has its default value.\<close>

record eip1559_transaction =
  et_nonce :: u64
  et_value :: u256
  et_gas_limit :: u64
  et_max_fee_per_gas :: u64
  et_max_priority_fee_per_gas :: u64
  et_chain_id :: u64
  et_data :: bytes
  et_to :: tx_kind

datatype tx_builder = BuildERC20Transfer address | BuildETHTransfer

text \<open>\<open>BuildPayloadArgs\<close>; there are no withdrawals, and no slot number.\<close>

record payload_args =
  pa_parent :: h256
  pa_timestamp :: u64
  pa_fee_recipient :: address
  pa_random :: h256
  pa_beacon_root :: "h256 option"
  pa_version :: u8
  pa_elasticity_multiplier :: u64
  pa_gas_ceil :: u64

datatype payload_error = UnknownPayload | OtherPayloadError string

datatype rpc_err = RpcUnknownPayload string | RpcInternal string

text \<open>\<open>PayloadBuildResult\<close> of L2, and the nonces of privileged transactions by chain.\<close>

record ('u, 'r) build_result =
  br_payload :: block
  br_account_updates :: 'u
  br_receipts :: 'r

type_synonym privilege_nonces = "(u64, u64 option) hmap"

record ('n, 's, 'pl, 'w, 'u, 'r, 'ul) builder_ext =
  bx_signer :: address
  bx_gas_ceil :: u64
  bx_random :: "('n, address) outside"
  bx_calldata :: "string \<Rightarrow> address \<Rightarrow> u256 \<Rightarrow> string + bytes"
  bx_sign :: "eip1559_transaction \<Rightarrow> string + transaction"
  bx_new :: "genesis \<Rightarrow> string + 's"
  bx_genesis_hash :: "genesis \<Rightarrow> h256"
  bx_config :: "'s \<Rightarrow> chain_config"
  bx_hash :: "block \<Rightarrow> h256"
  bx_parent_hash :: "block \<Rightarrow> h256"
  bx_payload_id :: "payload_args \<Rightarrow> string + u64"
  bx_create_payload :: "payload_args \<Rightarrow> 's \<Rightarrow> string + 'pl"
  bx_add_tx :: "transaction \<Rightarrow> 's \<Rightarrow> string + 's"
  bx_initiate :: "'pl \<Rightarrow> u64 \<Rightarrow> 's \<Rightarrow> 's"
  bx_get_payload :: "u64 \<Rightarrow> 's \<Rightarrow> (payload_error + block) \<times> 's"
  bx_show_rpc_err :: "rpc_err \<Rightarrow> string"
  bx_add_block :: "block \<Rightarrow> 's \<Rightarrow> string + 's"
  bx_fork_choice :: "h256 \<Rightarrow> 's \<Rightarrow> string + 's"
  bx_witness :: "block list \<Rightarrow> fee_config list option \<Rightarrow> 's \<Rightarrow> string + 'w"
  bx_witness_config :: "'w \<Rightarrow> chain_config"
  bx_rpc_witness :: "'w \<Rightarrow> string + rpc_execution_witness"
  bx_rollup_new :: "string + unit"
  bx_latest :: "'s \<Rightarrow> string + u64"
  bx_nonce :: "u64 \<Rightarrow> address \<Rightarrow> 's \<Rightarrow> string + u64 option"
  bx_build_payload :: "'pl \<Rightarrow> privilege_nonces \<Rightarrow> 's \<Rightarrow> string + (('u, 'r) build_result \<times> privilege_nonces \<times> 's)"
  bx_header :: "h256 \<Rightarrow> 's \<Rightarrow> string + block_header option"
  bx_validate :: "block \<Rightarrow> block_header \<Rightarrow> chain_config \<Rightarrow> u64 \<Rightarrow> string + unit"
  bx_apply_updates :: "h256 \<Rightarrow> 'u \<Rightarrow> 's \<Rightarrow> string + 'ul option"
  bx_store_block :: "block \<Rightarrow> 'ul \<Rightarrow> 'r \<Rightarrow> u64 \<Rightarrow> 's \<Rightarrow> string + 's"
  bx_store_rollup :: "u64 \<Rightarrow> 'u \<Rightarrow> 's \<Rightarrow> string + 's"

section \<open>The laboratory: the world and the local chain\<close>

record ('n, 'c, 's) lab =
  lb_world :: "('n, 'c) world"
  lb_chain :: 's

abbreviation on_world :: "(('n, 'c) world, 'a) act \<Rightarrow> (('n, 'c, 's) lab, 'a) act" where
  "on_world m \<equiv> zoom lb_world (\<lambda>w l. l\<lparr>lb_world := w\<rparr>) m"

definition chain_ask :: "('s \<Rightarrow> string + 'a) \<Rightarrow> (('n, 'c, 's) lab, 'a) act" where
  "chain_ask f = (\<lambda>l. (of_result (f (lb_chain l)), l))"

definition chain_do :: "('s \<Rightarrow> string + 's) \<Rightarrow> (('n, 'c, 's) lab, unit) act" where
  "chain_do f = (\<lambda>l. case f (lb_chain l) of Inl e \<Rightarrow> (Inl (Error e), l) | Inr s \<Rightarrow> (Inr (), l\<lparr>lb_chain := s\<rparr>))"

text \<open>\<open>expect\<close> on the value of a pure function.\<close>

definition expected :: "string \<Rightarrow> string + 'a \<Rightarrow> 'a res" where
  "expected msg r = (case r of Inl e \<Rightarrow> Inl (Panic (msg @ '': '' @ e)) | Inr x \<Rightarrow> Inr x)"

section \<open>The transaction builder\<close>

definition build_signed_transaction ::
    "('n, 's, 'pl, 'w, 'u, 'r, 'ul) builder_ext \<Rightarrow> u64 \<Rightarrow> u64 \<Rightarrow> bytes \<Rightarrow> address \<Rightarrow> u64 \<Rightarrow> transaction res" where
  "build_signed_transaction bx nonce val calldata to chain_id =
     expected ''failed to sign transaction'' (bx_sign bx
       \<lparr>et_nonce = nonce, et_value = ucast val, et_gas_limit = 250000, et_max_fee_per_gas = - 1,
        et_max_priority_fee_per_gas = 10, et_chain_id = chain_id, et_data = calldata, et_to = Call to\<rparr>)"

definition build_tx ::
    "('n, 's, 'pl, 'w, 'u, 'r, 'ul) builder_ext \<Rightarrow> tx_builder \<Rightarrow> u64 \<Rightarrow> u64 \<Rightarrow> (('n, 'c, 's) lab, transaction) act" where
  "build_tx bx builder nonce chain_id =
     (case builder of
        BuildERC20Transfer token \<Rightarrow>
          andthen (on_world (outside (bx_random bx))) (\<lambda>recipient.
          andthen (lift_res (expected ''failed to encode ERC20 transfer calldata''
              (bx_calldata bx ''transfer(address,uint256)'' recipient 1))) (\<lambda>calldata.
            lift_res (build_signed_transaction bx nonce 0 calldata token chain_id)))
      | BuildETHTransfer \<Rightarrow>
          andthen (on_world (outside (bx_random bx))) (\<lambda>recipient.
            lift_res (build_signed_transaction bx nonce 1 [] recipient chain_id)))"

definition builder_for :: "tx_variant option \<Rightarrow> tx_builder res" where
  "builder_for variant =
     (case variant of
        None \<Rightarrow> Inl (Error ''--tx needs to be passed'')
      | Some ETHTransfer \<Rightarrow> Inr BuildETHTransfer
      | Some ERC20Transfer \<Rightarrow> Inl (Panic ''not implemented''))"

definition args_for ::
    "('n, 'b, 'e, 'c) env \<Rightarrow> ('n, 's, 'pl, 'w, 'u, 'r, 'ul) builder_ext \<Rightarrow> h256 \<Rightarrow> u64 \<Rightarrow> payload_args" where
  "args_for env bx parent timestamp =
     \<lparr>pa_parent = parent, pa_timestamp = timestamp, pa_fee_recipient = 0, pa_random = 0, pa_beacon_root = Some 0,
      pa_version = 3, pa_elasticity_multiplier = en_elasticity_multiplier env, pa_gas_ceil = bx_gas_ceil bx\<rparr>"

abbreviation n_txs :: "custom_block_options \<Rightarrow> u64" where
  "n_txs opts \<equiv> (case cb_n_txs opts of None \<Rightarrow> 0 | Some n \<Rightarrow> n)"

section \<open>Blocks of L1\<close>

definition submit_l1_tx ::
    "('n, 's, 'pl, 'w, 'u, 'r, 'ul) builder_ext \<Rightarrow> custom_block_options \<Rightarrow> u64 \<Rightarrow> u64 \<Rightarrow> (('n, 'c, 's) lab, unit) act" where
  "submit_l1_tx bx opts chain_id n =
     andthen (lift_res (builder_for (cb_tx opts))) (\<lambda>builder.
     andthen (build_tx bx builder n chain_id) (\<lambda>tx.
       chain_do (bx_add_tx bx tx)))"

definition get_payload ::
    "('n, 's, 'pl, 'w, 'u, 'r, 'ul) builder_ext \<Rightarrow> u64 \<Rightarrow> (('n, 'c, 's) lab, block) act" where
  "get_payload bx payload_id = (\<lambda>l.
     case bx_get_payload bx payload_id (lb_chain l) of
       (Inr blk, s) \<Rightarrow> (Inr blk, l\<lparr>lb_chain := s\<rparr>)
     | (Inl UnknownPayload, s) \<Rightarrow>
         (Inl (Error (bx_show_rpc_err bx (RpcUnknownPayload
            (''Payload with id 0x'' @ pad0 16 (show_hex (unat payload_id)) @ '' not found'')))), l\<lparr>lb_chain := s\<rparr>)
     | (Inl (OtherPayloadError e), s) \<Rightarrow> (Inl (Error (bx_show_rpc_err bx (RpcInternal e))), l\<lparr>lb_chain := s\<rparr>))"

definition produce_l1_block ::
    "('n, 'b, 'e, 'c) env \<Rightarrow> ('n, 's, 'pl, 'w, 'u, 'r, 'ul) builder_ext \<Rightarrow> custom_block_options \<Rightarrow> h256 \<Rightarrow> u64 \<Rightarrow>
     (('n, 'c, 's) lab, block \<times> h256) act" where
  "produce_l1_block env bx opts head_block_hash timestamp =
     andthen (chain_ask (\<lambda>s. Inr (cc_chain_id (bx_config bx s)))) (\<lambda>chain_id.
     let build_payload_args = args_for env bx head_block_hash timestamp in
     andthen (lift_res (of_result (bx_payload_id bx build_payload_args))) (\<lambda>payload_id.
     andthen (chain_ask (bx_create_payload bx build_payload_args)) (\<lambda>payload.
     andthen (for_each (submit_l1_tx bx opts chain_id) (map of_nat [0..<unat (n_txs opts)])) (\<lambda>_.
     andthen (chain_do (\<lambda>s. Inr (bx_initiate bx payload payload_id s))) (\<lambda>_.
     andthen (get_payload bx payload_id) (\<lambda>blk.
     andthen (chain_do (bx_add_block bx blk)) (\<lambda>_.
     andthen (chain_do (bx_fork_choice bx (bx_hash bx blk))) (\<lambda>_.
       ret (blk, bx_hash bx blk)))))))))"

primrec produce_l1_blocks ::
    "('n, 'b, 'e, 'c) env \<Rightarrow> ('n, 's, 'pl, 'w, 'u, 'r, 'ul) builder_ext \<Rightarrow> custom_block_options \<Rightarrow> nat \<Rightarrow> h256 \<Rightarrow> u64 \<Rightarrow>
     (('n, 'c, 's) lab, block list) act" where
  "produce_l1_blocks env bx opts 0 parent timestamp = ret []"
| "produce_l1_blocks env bx opts (Suc n) parent timestamp =
     andthen (produce_l1_block env bx opts parent timestamp) (\<lambda>(blk, block_hash).
     andthen (lift_res (add_ovf (en_chk env) timestamp 12)) (\<lambda>next_timestamp.
     andthen (produce_l1_blocks env bx opts n block_hash next_timestamp) (\<lambda>blks.
       ret (blk # blks))))"

text \<open>What both commands do with the blocks: run them, and show a report about one of them.\<close>

definition run_and_report ::
    "('n, 'b, 'e, 'c) env \<Rightarrow> replay_options \<Rightarrow> network \<Rightarrow> block res \<Rightarrow> cache \<Rightarrow> (('n, 'c) world, unit) act" where
  "run_and_report env opts net report_block c =
     andthen (lift_res (backend (en_feats env) (o_zkvm (o_common opts)))) (\<lambda>be.
     andthen (exec_and_prove env be (o_common opts) c) (\<lambda>(execution_result, proving_result).
     andthen (lift_res report_block) (\<lambda>blk.
       show_report env (o_verbose (o_common opts))
         (report_for (o_common opts) blk net execution_result proving_result))))"

definition save_input ::
    "('n, 'b, 'e, 'c) env \<Rightarrow> path option \<Rightarrow> 'e program_input res \<Rightarrow> (('n, 'c) world, unit) act" where
  "save_input env save_program_input inp =
     (case save_program_input of
        None \<Rightarrow> ret ()
      | Some output_path \<Rightarrow> andthen (lift_res inp) (\<lambda>program_input. write_program_input env output_path program_input))"

text \<open>A chain is made for the command; it is dropped at its end.\<close>

definition with_chain :: "string + 's \<Rightarrow> (('n, 'c, 's) lab, 'a) act \<Rightarrow> (('n, 'c) world, 'a) act" where
  "with_chain chain m = (\<lambda>w.
     case chain of
       Inl e \<Rightarrow> (Inl (Error e), w)
     | Inr s \<Rightarrow> (case m \<lparr>lb_world = w, lb_chain = s\<rparr> of (r, l) \<Rightarrow> (r, lb_world l)))"

definition replay_custom_l1_blocks ::
    "('n, 'b, 'e, 'c) env \<Rightarrow> ('n, 's, 'pl, 'w, 'u, 'r, 'ul) builder_ext \<Rightarrow> u64 \<Rightarrow> custom_block_options \<Rightarrow> replay_options \<Rightarrow>
     (('n, 'c) world, unit) act" where
  "replay_custom_l1_blocks env bx n_blocks block_opts opts =
     andthen (lift_res (of_result (en_get_genesis env LocalDevnet))) (\<lambda>genesis.
     with_chain (bx_new bx genesis)
       (andthen (lift_res (add_ovf (en_chk env) (gen_timestamp genesis) 12)) (\<lambda>timestamp.
        andthen (produce_l1_blocks env bx block_opts (unat n_blocks) (bx_genesis_hash bx genesis) timestamp) (\<lambda>blocks.
        andthen (chain_ask (bx_witness bx blocks None)) (\<lambda>execution_witness.
        andthen (lift_res (of_result (bx_rpc_witness bx execution_witness))) (\<lambda>w.
        let c = cache_new (en_ids env) (en_feats env) blocks w (bx_witness_config bx execution_witness) (o_cache_dir opts) in
        on_world (andthen (save_input env (cb_save_program_input block_opts) (get_l1_input env c)) (\<lambda>_.
          run_and_report env opts LocalDevnet (first_block c) c))))))))"

section \<open>Blocks of L2\<close>

text \<open>The loop over the transactions: it returns \<open>next_nonce\<close>, which lives on in the loop over the blocks.\<close>

primrec submit_l2_txs ::
    "('n, 'b, 'e, 'c) env \<Rightarrow> ('n, 's, 'pl, 'w, 'u, 'r, 'ul) builder_ext \<Rightarrow> tx_builder \<Rightarrow> u64 \<Rightarrow> nat \<Rightarrow> u64 \<Rightarrow>
     (('n, 'c, 's) lab, u64) act" where
  "submit_l2_txs env bx builder chain_id 0 next_nonce = ret next_nonce"
| "submit_l2_txs env bx builder chain_id (Suc n) next_nonce =
     andthen (build_tx bx builder next_nonce chain_id) (\<lambda>tx.
     andthen (chain_do (bx_add_tx bx tx)) (\<lambda>_.
     andthen (lift_res (add_ovf (en_chk env) next_nonce 1)) (\<lambda>next_nonce'.
       submit_l2_txs env bx builder chain_id n next_nonce')))"

definition build_l2_payload ::
    "('n, 's, 'pl, 'w, 'u, 'r, 'ul) builder_ext \<Rightarrow> 'pl \<Rightarrow> privilege_nonces \<Rightarrow>
     (('n, 'c, 's) lab, ('u, 'r) build_result \<times> privilege_nonces) act" where
  "build_l2_payload bx payload privileged = (\<lambda>l.
     case bx_build_payload bx payload privileged (lb_chain l) of
       Inl e \<Rightarrow> (Inl (Error e), l)
     | Inr (result, privileged', s) \<Rightarrow> (Inr (result, privileged'), l\<lparr>lb_chain := s\<rparr>))"

definition produce_custom_l2_block ::
    "('n, 'b, 'e, 'c) env \<Rightarrow> ('n, 's, 'pl, 'w, 'u, 'r, 'ul) builder_ext \<Rightarrow> custom_block_options \<Rightarrow> h256 \<Rightarrow> u64 \<Rightarrow>
     u64 \<Rightarrow> privilege_nonces \<Rightarrow> (('n, 'c, 's) lab, block \<times> u64 \<times> privilege_nonces) act" where
  "produce_custom_l2_block env bx opts head_block_hash timestamp next_nonce last_privilege_nonce =
     (let build_payload_args = args_for env bx head_block_hash timestamp in
     andthen (chain_ask (bx_create_payload bx build_payload_args)) (\<lambda>payload.
     andthen (if n_txs opts > 0 then
         andthen (lift_res (builder_for (cb_tx opts))) (\<lambda>builder.
         andthen (chain_ask (\<lambda>s. Inr (cc_chain_id (bx_config bx s)))) (\<lambda>chain_id.
           submit_l2_txs env bx builder chain_id (unat (n_txs opts)) next_nonce))
       else ret next_nonce) (\<lambda>next_nonce'.
     andthen (build_l2_payload bx payload last_privilege_nonce) (\<lambda>(result, last_privilege_nonce').
     let new_block = br_payload result in
     andthen (chain_ask (\<lambda>s. Inr (bx_config bx s))) (\<lambda>cfg.
     andthen (chain_ask (bx_header bx (bx_parent_hash bx new_block))) (\<lambda>parent.
     andthen (lift_res (ok_or parent ''Parent block header not found'')) (\<lambda>parent_header.
     andthen (lift_res (of_result (bx_validate bx new_block parent_header cfg (pa_elasticity_multiplier build_payload_args)))) (\<lambda>_.
     andthen (chain_ask (bx_apply_updates bx (bx_parent_hash bx new_block) (br_account_updates result))) (\<lambda>applied.
     andthen (lift_res (ok_or applied ''Failed to apply account updates: parent block not found'')) (\<lambda>account_updates_list.
     andthen (chain_do (bx_store_block bx new_block account_updates_list (br_receipts result) (bh_gas_used (b_header new_block)))) (\<lambda>_.
     andthen (chain_do (bx_store_rollup bx (blk_number new_block) (br_account_updates result))) (\<lambda>_.
     andthen (chain_do (bx_fork_choice bx (bx_hash bx new_block))) (\<lambda>_.
       ret (new_block, next_nonce', last_privilege_nonce'))))))))))))))"

primrec produce_l2_loop ::
    "('n, 'b, 'e, 'c) env \<Rightarrow> ('n, 's, 'pl, 'w, 'u, 'r, 'ul) builder_ext \<Rightarrow> custom_block_options \<Rightarrow> nat \<Rightarrow> h256 \<Rightarrow> u64 \<Rightarrow>
     u64 \<Rightarrow> privilege_nonces \<Rightarrow> (('n, 'c, 's) lab, block list) act" where
  "produce_l2_loop env bx opts 0 parent timestamp next_nonce privileged = ret []"
| "produce_l2_loop env bx opts (Suc n) parent timestamp next_nonce privileged =
     andthen (produce_custom_l2_block env bx opts parent timestamp next_nonce privileged) (\<lambda>(blk, next_nonce', privileged').
     andthen (lift_res (add_ovf (en_chk env) timestamp 12)) (\<lambda>next_timestamp.
     andthen (produce_l2_loop env bx opts n (bx_hash bx blk) next_timestamp next_nonce' privileged') (\<lambda>blks.
       ret (blk # blks))))"

definition produce_custom_l2_blocks ::
    "('n, 'b, 'e, 'c) env \<Rightarrow> ('n, 's, 'pl, 'w, 'u, 'r, 'ul) builder_ext \<Rightarrow> custom_block_options \<Rightarrow> nat \<Rightarrow> h256 \<Rightarrow> u64 \<Rightarrow>
     (('n, 'c, 's) lab, block list) act" where
  "produce_custom_l2_blocks env bx opts n_blocks head_block_hash initial_timestamp =
     andthen (if n_txs opts > 0 then
         andthen (chain_ask (bx_latest bx)) (\<lambda>latest_block_number.
         andthen (chain_ask (bx_nonce bx latest_block_number (bx_signer bx))) (\<lambda>nonce.
           ret (case nonce of None \<Rightarrow> 0 | Some k \<Rightarrow> k)))
       else ret 0) (\<lambda>next_nonce.
       produce_l2_loop env bx opts n_blocks head_block_hash initial_timestamp next_nonce [])"

text \<open>The signer is funded, unless the genesis has an account for it.\<close>

definition fund_signer :: "address \<Rightarrow> genesis \<Rightarrow> genesis" where
  "fund_signer signer g =
     g\<lparr>gen_alloc := hm_or_insert signer
         \<lparr>ga_code = [], ga_storage = [], ga_balance = of_nat (10 ^ 30), ga_nonce = 0\<rparr> (gen_alloc g)\<rparr>"

definition last_block_of :: "cache \<Rightarrow> block res" where
  "last_block_of c = (if c_blocks c = [] then Inl (Error no_block) else Inr (last (c_blocks c)))"

definition replay_custom_l2_blocks ::
    "('n, 'b, 'e, 'c) env \<Rightarrow> ('n, 's, 'pl, 'w, 'u, 'r, 'ul) builder_ext \<Rightarrow> u64 \<Rightarrow> custom_block_options \<Rightarrow> replay_options \<Rightarrow>
     (('n, 'c) world, unit) act" where
  "replay_custom_l2_blocks env bx n_blocks block_opts opts =
     andthen (lift_res (of_result (en_get_genesis env LocalDevnetL2))) (\<lambda>g.
     let genesis = (if n_txs block_opts > 0 then fund_signer (bx_signer bx) g else g) in
     with_chain (bx_new bx genesis)
       (andthen (lift_res (expected ''Failed to create StoreRollup'' (bx_rollup_new bx))) (\<lambda>_.
        andthen (lift_res (add_ovf (en_chk env) (gen_timestamp genesis) 1)) (\<lambda>timestamp.
        andthen (produce_custom_l2_blocks env bx block_opts (unat n_blocks) (bx_genesis_hash bx genesis) timestamp) (\<lambda>blocks.
        andthen (chain_ask (bx_witness bx blocks (Some (replicate (length blocks) FeeConfigDefault)))) (\<lambda>execution_witness.
        andthen (lift_res (of_result (bx_rpc_witness bx execution_witness))) (\<lambda>w.
        let c = cache_new (en_ids env) (en_feats env) blocks w (gen_config genesis) (o_cache_dir opts) in
        on_world (andthen (save_input env (cb_save_program_input block_opts) (get_l2_input env c)) (\<lambda>_.
          run_and_report env opts LocalDevnetL2 (last_block_of c) c)))))))))"

section \<open>The commands\<close>

definition custom_opts :: "custom_block_options \<Rightarrow> replay_options" where
  "custom_opts block_opts =
     \<lparr>o_common = cb_common block_opts, o_rpc_url = Some ''http://localhost:8545/'', o_cached = False, o_network = None,
      o_cache_dir = default_cache_dir, o_cache_level = CacheOn, o_slack_url = None, o_no_zkvm = False, o_repeat = 1,
      o_bench = False, o_notification_level = NotifyFailed\<rparr>"

fun as_batch :: "custom_subcommand \<Rightarrow> custom_batch_options" where
  "as_batch (CustomBlock block_opts) = \<lparr>cu_n_blocks = 1, cu_block_opts = block_opts\<rparr>"
| "as_batch (CustomBatch args) = args"

definition replay_custom ::
    "('n, 'b, 'e, 'c) env \<Rightarrow> ('n, 's, 'pl, 'w, 'u, 'r, 'ul) builder_ext \<Rightarrow> custom_subcommand \<Rightarrow> (('n, 'c) world, unit) act" where
  "replay_custom env bx cmd =
     (let args = as_batch cmd; block_opts = cu_block_opts args; opts = custom_opts block_opts;
          n_blocks = max 1 (cu_n_blocks args) in
      if feat_l2 (en_feats env) then replay_custom_l2_blocks env bx n_blocks block_opts opts
      else replay_custom_l1_blocks env bx n_blocks block_opts opts)"

end
