(* ===== verification/Custom_Facts.thy ===== *)
theory Custom_Facts
  imports Custom_Blocks
begin

text \<open>
  Properties of the produced blocks: how they hang together, and which nonces their transactions have.
  What the local chain does is stated as laws about the operations of \<open>builder_ext\<close>, with observations of its state.
\<close>

section \<open>Steps\<close>

lemma chain_ask_Inr: "chain_ask f l = (Inr x, l') \<longleftrightarrow> f (lb_chain l) = Inr x \<and> l' = l"
  by (auto simp: chain_ask_def res_simps)

lemma chain_do_Inr: "chain_do f l = (Inr u, l') \<longleftrightarrow> (\<exists>s. f (lb_chain l) = Inr s \<and> l' = l\<lparr>lb_chain := s\<rparr>)"
  by (auto simp: chain_do_def split: sum.splits)

lemma on_world_Inr: "on_world m l = (Inr x, l') \<Longrightarrow> lb_chain l' = lb_chain l"
  by (auto simp: zoom_def split: prod.splits)

lemma get_payload_Inr:
  "get_payload bx payload_id l = (Inr blk, l') \<Longrightarrow> bx_get_payload bx payload_id (lb_chain l) = (Inr blk, lb_chain l')"
  by (auto simp: get_payload_def split: prod.splits sum.splits payload_error.splits)

lemma expected_Inr: "expected msg r = Inr x \<longleftrightarrow> r = Inr x"
  by (auto simp: expected_def split: sum.splits)

lemma build_signed_Inr:
  "build_signed_transaction bx nonce val calldata to chain_id = Inr tx \<Longrightarrow> \<exists>u. bx_sign bx u = Inr tx \<and> et_nonce u = nonce"
  unfolding build_signed_transaction_def expected_Inr by (rule exI, rule conjI, assumption) simp

lemma build_tx_Inr:
  assumes "build_tx bx builder nonce chain_id l = (Inr tx, l')"
  shows "lb_chain l' = lb_chain l" and "\<exists>u. bx_sign bx u = Inr tx \<and> et_nonce u = nonce"
proof -
  show "lb_chain l' = lb_chain l"
    using assms by (auto simp: build_tx_def split: tx_builder.splits elim!: andthen_Inr_E dest!: on_world_Inr)
  show "\<exists>u. bx_sign bx u = Inr tx \<and> et_nonce u = nonce"
    using assms
    by (auto simp: build_tx_def split: tx_builder.splits elim!: andthen_Inr_E dest: build_signed_Inr)
qed

lemma submit_l1_tx_Inr:
  assumes "submit_l1_tx bx opts chain_id n l = (Inr (), l')"
  shows "\<exists>u tx. bx_sign bx u = Inr tx \<and> et_nonce u = n \<and> bx_add_tx bx tx (lb_chain l) = Inr (lb_chain l')"
proof -
  from assms obtain builder tx l1 where tx: "build_tx bx builder n chain_id l = (Inr tx, l1)"
    and add: "chain_do (bx_add_tx bx tx) l1 = (Inr (), l')"
    by (auto simp: submit_l1_tx_def elim!: andthen_Inr_E)
  then have "bx_add_tx bx tx (lb_chain l) = Inr (lb_chain l')"
    using build_tx_Inr(1) [OF tx] by (auto simp: chain_do_Inr)
  then show ?thesis using build_tx_Inr(2) [OF tx] by blast
qed

lemma produce_l1_block_steps:
  assumes "produce_l1_block env bx opts parent timestamp l = (Inr (blk, h), l')"
  obtains chain_id payload_id payload l1 s2 s3 where
    "bx_create_payload bx (args_for env bx parent timestamp) (lb_chain l) = Inr payload"
    "for_each (submit_l1_tx bx opts chain_id) (map of_nat [0..<unat (n_txs opts)]) l = (Inr (), l1)"
    "bx_get_payload bx payload_id (bx_initiate bx payload payload_id (lb_chain l1)) = (Inr blk, s2)"
    "bx_add_block bx blk s2 = Inr s3" "bx_fork_choice bx (bx_hash bx blk) s3 = Inr (lb_chain l')" "h = bx_hash bx blk"
proof -
  have "\<exists>chain_id payload_id payload l1 s2 s3.
    bx_create_payload bx (args_for env bx parent timestamp) (lb_chain l) = Inr payload \<and>
    for_each (submit_l1_tx bx opts chain_id) (map of_nat [0..<unat (n_txs opts)]) l = (Inr (), l1) \<and>
    bx_get_payload bx payload_id (bx_initiate bx payload payload_id (lb_chain l1)) = (Inr blk, s2) \<and>
    bx_add_block bx blk s2 = Inr s3 \<and> bx_fork_choice bx (bx_hash bx blk) s3 = Inr (lb_chain l') \<and> h = bx_hash bx blk"
    using assms unfolding produce_l1_block_def Let_def
    apply (elim andthen_Inr_E)
    apply (clarsimp simp only: chain_ask_Inr chain_do_Inr act_simps sum.inject Pair_inject old.unit.exhaust)
    apply (drule get_payload_Inr)
    apply (intro exI conjI)
    apply (assumption | simp)+
    done
  then show ?thesis using that by blast
qed

lemma produce_l1_blocks_Suc:
  assumes "produce_l1_blocks env bx opts (Suc n) parent t l = (Inr blks, l')"
  obtains blk h l1 rest where "produce_l1_block env bx opts parent t l = (Inr (blk, h), l1)"
    "produce_l1_blocks env bx opts n h (t + 12) l1 = (Inr rest, l')" "blks = blk # rest"
  using assms by (auto elim!: andthen_Inr_E split: prod.splits dest!: add_ovf_Inr)

section \<open>The chain of blocks\<close>

text \<open>A payload that is built on request has the parent and the time that were asked for.\<close>

definition builds_as_asked ::
    "('n, 's, 'pl, 'w, 'u, 'r, 'ul) builder_ext \<Rightarrow> (block \<Rightarrow> h256) \<Rightarrow> (block \<Rightarrow> u64) \<Rightarrow> bool" where
  "builds_as_asked bx parent_of time_of \<longleftrightarrow>
     (\<forall>args s payload payload_id s' blk. bx_create_payload bx args s = Inr payload \<longrightarrow>
        fst (bx_get_payload bx payload_id (bx_initiate bx payload payload_id s')) = Inr blk \<longrightarrow>
        parent_of blk = pa_parent args \<and> time_of blk = pa_timestamp args)"


section \<open>Nonces\<close>

text \<open>
  The mempool and the account of the signer: a signed transaction has the nonce it was made with; the pool refuses a
  nonce below that of the account; a block takes a transaction of a pool that has any; and a block
  with a transaction of the signer raises the nonce of its account. Only \<open>add_transaction_to_pool\<close> adds to the pool.
\<close>

definition pool_laws ::
    "('n, 's, 'pl, 'w, 'u, 'r, 'ul) builder_ext \<Rightarrow> ('s \<Rightarrow> u64) \<Rightarrow> ('s \<Rightarrow> transaction list) \<Rightarrow> (transaction \<Rightarrow> u64) \<Rightarrow> bool" where
  "pool_laws bx nonce pool tx_nonce \<longleftrightarrow>
     (\<forall>u tx. bx_sign bx u = Inr tx \<longrightarrow> tx_nonce tx = et_nonce u \<and> tx_sender tx = Inr (bx_signer bx)) \<and>
     (\<forall>tx s s'. bx_add_tx bx tx s = Inr s' \<longrightarrow> nonce s \<le> tx_nonce tx \<and> nonce s' = nonce s \<and> pool s' = pool s @ [tx]) \<and>
     (\<forall>payload payload_id s. nonce (bx_initiate bx payload payload_id s) = nonce s \<and>
        pool (bx_initiate bx payload payload_id s) = pool s) \<and>
     (\<forall>payload_id s blk s'. bx_get_payload bx payload_id s = (Inr blk, s') \<longrightarrow> nonce s' = nonce s \<and> set (pool s') \<subseteq> set (pool s) \<and>
        (pool s \<noteq> [] \<longrightarrow> (\<exists>tx \<in> set (b_transactions blk). tx \<in> set (pool s)))) \<and>
     (\<forall>blk s s'. bx_add_block bx blk s = Inr s' \<longrightarrow> set (pool s') \<subseteq> set (pool s)) \<and>
     (\<forall>blk s s'. bx_add_block bx blk s = Inr s' \<longrightarrow>
        (\<exists>tx \<in> set (b_transactions blk). tx_sender tx = Inr (bx_signer bx)) \<longrightarrow> nonce s < nonce s') \<and>
     (\<forall>h s s'. bx_fork_choice bx h s = Inr s' \<longrightarrow> nonce s' = nonce s \<and> set (pool s') \<subseteq> set (pool s))"

lemma pool_lawsD:
  assumes "pool_laws bx nonce pool tx_nonce"
  shows "bx_sign bx u = Inr tx \<Longrightarrow> tx_nonce tx = et_nonce u" "bx_sign bx u = Inr tx \<Longrightarrow> tx_sender tx = Inr (bx_signer bx)"
    "bx_add_tx bx tx s = Inr s' \<Longrightarrow> nonce s \<le> tx_nonce tx" "bx_add_tx bx tx s = Inr s' \<Longrightarrow> nonce s' = nonce s"
    "bx_add_tx bx tx s = Inr s' \<Longrightarrow> pool s' = pool s @ [tx]"
    "nonce (bx_initiate bx payload payload_id s) = nonce s" "pool (bx_initiate bx payload payload_id s) = pool s"
    "bx_get_payload bx payload_id s = (Inr blk, s') \<Longrightarrow> nonce s' = nonce s"
    "bx_get_payload bx payload_id s = (Inr blk, s') \<Longrightarrow> pool s \<noteq> [] \<Longrightarrow> \<exists>tx \<in> set (b_transactions blk). tx \<in> set (pool s)"
    "bx_add_block bx blk s = Inr s' \<Longrightarrow> tx \<in> set (b_transactions blk) \<Longrightarrow> tx_sender tx = Inr (bx_signer bx) \<Longrightarrow> nonce s < nonce s'"
    "bx_fork_choice bx h s = Inr s' \<Longrightarrow> nonce s' = nonce s"
  using assms unfolding pool_laws_def by metis+

lemma pool_shrinks:
  assumes "pool_laws bx nonce pool tx_nonce"
  shows
    "bx_get_payload bx payload_id s = (Inr blk, s') \<Longrightarrow> set (pool s') \<subseteq> set (pool s)"
    "bx_add_block bx blk s = Inr s' \<Longrightarrow> set (pool s') \<subseteq> set (pool s)"
    "bx_fork_choice bx h s = Inr s' \<Longrightarrow> set (pool s') \<subseteq> set (pool s)"
  using assms unfolding pool_laws_def by (metis, metis, metis)

text \<open>All transactions of the pool are from the signer.\<close>

definition own_pool :: "('n, 's, 'pl, 'w, 'u, 'r, 'ul) builder_ext \<Rightarrow> ('s \<Rightarrow> transaction list) \<Rightarrow> 's \<Rightarrow> bool" where
  "own_pool bx pool s \<longleftrightarrow> (\<forall>tx \<in> set (pool s). tx_sender tx = Inr (bx_signer bx))"

lemma submit_all:
  assumes laws: "pool_laws bx nonce pool tx_nonce" and own: "own_pool bx pool (lb_chain l)"
    and run: "for_each (submit_l1_tx bx opts chain_id) ns l = (Inr (), l')"
  shows "nonce (lb_chain l') = nonce (lb_chain l) \<and> own_pool bx pool (lb_chain l') \<and>
    length (pool (lb_chain l')) = length (pool (lb_chain l)) + length ns \<and> (\<forall>n \<in> set ns. nonce (lb_chain l) \<le> n)"
  using own run
proof (induction ns arbitrary: l)
  case Nil
  then show ?case by simp
next
  case (Cons n ns)
  then obtain l1 where one: "submit_l1_tx bx opts chain_id n l = (Inr (), l1)"
    and rest: "for_each (submit_l1_tx bx opts chain_id) ns l1 = (Inr (), l')"
    by (auto elim!: andthen_Inr_E)
  obtain u tx where tx: "bx_sign bx u = Inr tx" "et_nonce u = n" "bx_add_tx bx tx (lb_chain l) = Inr (lb_chain l1)"
    using submit_l1_tx_Inr [OF one] by blast
  note laws = pool_lawsD [OF laws]
  have step: "nonce (lb_chain l) \<le> n" "nonce (lb_chain l1) = nonce (lb_chain l)" "pool (lb_chain l1) = pool (lb_chain l) @ [tx]"
    using laws(1) [OF tx(1)] laws(3-5) [OF tx(3)] tx(2) by simp_all
  have "own_pool bx pool (lb_chain l1)"
    using Cons.prems(1) step(3) laws(2) [OF tx(1)] by (auto simp: own_pool_def)
  from Cons.IH [OF this rest] show ?case using step by simp
qed

text \<open>What a block with transactions needs, and what it does to the account.\<close>

lemma l1_block_nonce:
  assumes laws: "pool_laws bx nonce pool tx_nonce" and own: "own_pool bx pool (lb_chain l)" and txs: "n_txs opts > 0"
    and run: "produce_l1_block env bx opts parent timestamp l = (Inr (blk, h), l')"
  shows "nonce (lb_chain l) = 0 \<and> 0 < nonce (lb_chain l') \<and> own_pool bx pool (lb_chain l')"
proof -
  from run obtain chain_id payload_id payload l1 s2 s3 where
    sub: "for_each (submit_l1_tx bx opts chain_id) (map of_nat [0..<unat (n_txs opts)]) l = (Inr (), l1)"
    and get: "bx_get_payload bx payload_id (bx_initiate bx payload payload_id (lb_chain l1)) = (Inr blk, s2)"
    and add: "bx_add_block bx blk s2 = Inr s3" and fork: "bx_fork_choice bx (bx_hash bx blk) s3 = Inr (lb_chain l')"
    by (rule produce_l1_block_steps) blast
  note laws' = pool_lawsD [OF laws]
  have pos: "0 < unat (n_txs opts)" using txs by (simp add: word_less_nat_alt)
  note all = submit_all [OF laws own sub]
  have "(0 :: u64) \<in> set (map of_nat [0..<unat (n_txs opts)])" using pos by (auto intro!: image_eqI [of _ _ 0])
  then have zero: "nonce (lb_chain l) = 0" using all by fastforce
  have "pool (bx_initiate bx payload payload_id (lb_chain l1)) \<noteq> []" using all pos laws'(7) by (auto simp: Suc_le_eq)
  then obtain tx where tx: "tx \<in> set (b_transactions blk)" "tx \<in> set (pool (bx_initiate bx payload payload_id (lb_chain l1)))"
    using laws'(9) [OF get] by blast
  then have "tx_sender tx = Inr (bx_signer bx)" using all laws'(7) by (auto simp: own_pool_def)
  then have "nonce s2 < nonce s3" using laws'(10) [OF add tx(1)] by blast
  then have "0 < nonce s3" by (rule le_less_trans [OF word_zero_le])
  moreover have "nonce (lb_chain l') = nonce s3" using laws'(11) [OF fork] .
  moreover have "set (pool (lb_chain l')) \<subseteq> set (pool (lb_chain l1))"
    using pool_shrinks(1) [OF laws get] pool_shrinks(2) [OF laws add] pool_shrinks(3) [OF laws fork] laws'(7) by simp
  ultimately show ?thesis using zero all by (auto simp: own_pool_def)
qed

lemma two_l1_blocks:
  assumes laws: "pool_laws bx nonce pool tx_nonce" and "pool (lb_chain l) = []" and txs: "n_txs opts > 0"
  shows "produce_l1_blocks env bx opts (Suc (Suc m)) parent timestamp l \<noteq> (Inr blks, l')"
proof
  assume "produce_l1_blocks env bx opts (Suc (Suc m)) parent timestamp l = (Inr blks, l')"
  then obtain blk h l1 rest where one: "produce_l1_block env bx opts parent timestamp l = (Inr (blk, h), l1)"
    and more: "produce_l1_blocks env bx opts (Suc m) h (timestamp + 12) l1 = (Inr rest, l')"
    by (rule produce_l1_blocks_Suc) (rule that)
  from more obtain blk2 h2 l2 where two: "produce_l1_block env bx opts h (timestamp + 12) l1 = (Inr (blk2, h2), l2)"
    by (rule produce_l1_blocks_Suc) (rule that)
  have "own_pool bx pool (lb_chain l)" using assms(2) by (simp add: own_pool_def)
  note first = l1_block_nonce [OF laws this txs one]
  then have "nonce (lb_chain l1) = 0" using l1_block_nonce [OF laws _ txs two] by blast
  then show False using first by simp
qed


section \<open>Nonces on L2\<close>

text \<open>The nonces that were submitted to the pool, in order; the other steps of a block submit none.\<close>

definition submission_laws ::
    "('n, 's, 'pl, 'w, 'u, 'r, 'ul) builder_ext \<Rightarrow> ('s \<Rightarrow> u64 list) \<Rightarrow> (transaction \<Rightarrow> u64) \<Rightarrow> bool" where
  "submission_laws bx submitted tx_nonce \<longleftrightarrow>
     (\<forall>u tx. bx_sign bx u = Inr tx \<longrightarrow> tx_nonce tx = et_nonce u) \<and>
     (\<forall>tx s s'. bx_add_tx bx tx s = Inr s' \<longrightarrow> submitted s' = submitted s @ [tx_nonce tx]) \<and>
     (\<forall>payload p s r p' s'. bx_build_payload bx payload p s = Inr (r, p', s') \<longrightarrow> submitted s' = submitted s) \<and>
     (\<forall>blk ul r g s s'. bx_store_block bx blk ul r g s = Inr s' \<longrightarrow> submitted s' = submitted s) \<and>
     (\<forall>k u s s'. bx_store_rollup bx k u s = Inr s' \<longrightarrow> submitted s' = submitted s) \<and>
     (\<forall>h s s'. bx_fork_choice bx h s = Inr s' \<longrightarrow> submitted s' = submitted s)"

lemma submission_lawsD:
  assumes "submission_laws bx submitted tx_nonce"
  shows "bx_sign bx u = Inr tx \<Longrightarrow> tx_nonce tx = et_nonce u"
    "bx_add_tx bx tx s = Inr s' \<Longrightarrow> submitted s' = submitted s @ [tx_nonce tx]"
    "bx_build_payload bx payload p s = Inr (r, p', s') \<Longrightarrow> submitted s' = submitted s"
    "bx_store_block bx blk ul rs g s = Inr s' \<Longrightarrow> submitted s' = submitted s"
    "bx_store_rollup bx k us s = Inr s' \<Longrightarrow> submitted s' = submitted s"
    "bx_fork_choice bx h s = Inr s' \<Longrightarrow> submitted s' = submitted s"
  using assms unfolding submission_laws_def by metis+

text \<open>The nonces of \<open>k\<close> transactions from \<open>n\<close> on.\<close>

abbreviation nonces_from :: "u64 \<Rightarrow> nat \<Rightarrow> u64 list" where
  "nonces_from n k \<equiv> map (\<lambda>i. n + of_nat i) [0..<k]"

lemma nonces_from_add: "nonces_from n (j + k) = nonces_from n j @ nonces_from (n + of_nat j) k"
  by (rule nth_equalityI) (auto simp: nth_append algebra_simps of_nat_diff)

lemma submit_l2_txs_nonces:
  assumes laws: "submission_laws bx submitted tx_nonce"
    and run: "submit_l2_txs env bx builder chain_id k n l = (Inr n', l')"
  shows "n' = n + of_nat k \<and> submitted (lb_chain l') = submitted (lb_chain l) @ nonces_from n k"
  using run
proof (induction k arbitrary: n l)
  case 0
  then show ?case by simp
next
  case (Suc k)
  then obtain tx l1 l2 where tx: "build_tx bx builder n chain_id l = (Inr tx, l1)"
    and add: "chain_do (bx_add_tx bx tx) l1 = (Inr (), l2)"
    and rest: "submit_l2_txs env bx builder chain_id k (n + 1) l2 = (Inr n', l')"
    by (auto elim!: andthen_Inr_E dest!: add_ovf_Inr)
  have "submitted (lb_chain l2) = submitted (lb_chain l) @ [n]"
    using build_tx_Inr [OF tx] add submission_lawsD(1,2) [OF laws] by (auto simp: chain_do_Inr)
  moreover have "nonces_from n (Suc k) = n # nonces_from (n + 1) k"
    using nonces_from_add [of n 1 k] by simp
  ultimately show ?case using Suc.IH [OF rest] by simp
qed

lemma build_l2_payload_Inr:
  "build_l2_payload bx payload p l = (Inr (result, p'), l') \<longleftrightarrow>
     (\<exists>s. bx_build_payload bx payload p (lb_chain l) = Inr (result, p', s) \<and> l' = l\<lparr>lb_chain := s\<rparr>)"
  by (auto simp: build_l2_payload_def split: sum.splits prod.splits)

lemma l2_block_nonces:
  assumes laws: "submission_laws bx submitted tx_nonce" and txs: "n_txs opts > 0"
    and run: "produce_custom_l2_block env bx opts parent t n p l = (Inr (blk, n', p'), l')"
  shows "n' = n + of_nat (unat (n_txs opts)) \<and>
    submitted (lb_chain l') = submitted (lb_chain l) @ nonces_from n (unat (n_txs opts))"
proof -
  have "\<exists>builder chain_id l1 payload result cl s1 s2 s3.
      submit_l2_txs env bx builder chain_id (unat (n_txs opts)) n l = (Inr n', l1) \<and>
      bx_build_payload bx payload p (lb_chain l1) = Inr (result, p', s1) \<and>
      bx_store_block bx (br_payload result) cl (br_receipts result) (bh_gas_used (b_header (br_payload result))) s1 = Inr s2 \<and>
      bx_store_rollup bx (blk_number (br_payload result)) (br_account_updates result) s2 = Inr s3 \<and>
      bx_fork_choice bx (bx_hash bx (br_payload result)) s3 = Inr (lb_chain l')"
    using run unfolding produce_custom_l2_block_def Let_def if_P [OF txs]
    apply (elim andthen_Inr_E)
    apply (clarsimp simp only: chain_ask_Inr chain_do_Inr act_simps sum.inject Pair_inject case_prod_conv split_paired_all)
    apply (elim andthen_Inr_E)
    apply (clarsimp simp only: chain_ask_Inr chain_do_Inr act_simps sum.inject Pair_inject case_prod_conv split_paired_all
        build_l2_payload_Inr lab.simps)
    apply (intro exI conjI)
    apply (assumption | simp)+
    done
  then obtain builder chain_id l1 payload result cl s1 s2 s3 where
    sub: "submit_l2_txs env bx builder chain_id (unat (n_txs opts)) n l = (Inr n', l1)"
    and rest: "bx_build_payload bx payload p (lb_chain l1) = Inr (result, p', s1)"
      "bx_store_block bx (br_payload result) cl (br_receipts result) (bh_gas_used (b_header (br_payload result))) s1 = Inr s2"
      "bx_store_rollup bx (blk_number (br_payload result)) (br_account_updates result) s2 = Inr s3"
      "bx_fork_choice bx (bx_hash bx (br_payload result)) s3 = Inr (lb_chain l')"
    by blast
  note laws' = submission_lawsD [OF laws]
  have "submitted (lb_chain l') = submitted (lb_chain l1)"
    using laws'(3) [OF rest(1)] laws'(4) [OF rest(2)] laws'(5) [OF rest(3)] laws'(6) [OF rest(4)] by simp
  then show ?thesis using submit_l2_txs_nonces [OF laws sub] by simp
qed

lemma l2_loop_nonces:
  assumes laws: "submission_laws bx submitted tx_nonce" and txs: "n_txs opts > 0"
    and run: "produce_l2_loop env bx opts k parent t n p l = (Inr blks, l')"
  shows "length blks = k \<and> submitted (lb_chain l') = submitted (lb_chain l) @ nonces_from n (k * unat (n_txs opts))"
  using run
proof (induction k arbitrary: parent t n p l blks)
  case 0
  then show ?case by simp
next
  case (Suc k)
  from Suc.prems obtain blk n' p' l1 rest where
    one: "produce_custom_l2_block env bx opts parent t n p l = (Inr (blk, n', p'), l1)"
    and more: "produce_l2_loop env bx opts k (bx_hash bx blk) (t + 12) n' p' l1 = (Inr rest, l')" and blks: "blks = blk # rest"
    by (auto elim!: andthen_Inr_E split: prod.splits dest!: add_ovf_Inr)
  note first = l2_block_nonces [OF laws txs one]
  show ?case
    using Suc.IH [OF more] first nonces_from_add [of n "unat (n_txs opts)" "k * unat (n_txs opts)"] by (simp add: blks)
qed

text \<open>
  C17. The transactions of \<open>l2 custom batch\<close> have consecutive nonces across all of its blocks, from the nonce that the signer has
  at the head of the chain: none is used twice and none is left out.
\<close>

theorem l2_nonces_consecutive:
  assumes "submission_laws bx submitted tx_nonce" and "n_txs opts > 0"
    and "produce_custom_l2_blocks env bx opts k head_block_hash t l = (Inr blks, l')"
  shows "length blks = k \<and>
    (\<exists>latest nonce. bx_latest bx (lb_chain l) = Inr latest \<and> bx_nonce bx latest (bx_signer bx) (lb_chain l) = Inr nonce \<and>
       submitted (lb_chain l') = submitted (lb_chain l) @
         map (\<lambda>i. (case nonce of None \<Rightarrow> 0 | Some n \<Rightarrow> n) + of_nat i) [0..<k * unat (n_txs opts)])"
proof -
  from assms(3) obtain latest nonce where "bx_latest bx (lb_chain l) = Inr latest"
    "bx_nonce bx latest (bx_signer bx) (lb_chain l) = Inr nonce"
    "produce_l2_loop env bx opts k head_block_hash t (case nonce of None \<Rightarrow> 0 | Some n \<Rightarrow> n) [] l = (Inr blks, l')"
    using assms(2) by (auto simp: produce_custom_l2_blocks_def chain_ask_Inr elim!: andthen_Inr_E)
  then show ?thesis using l2_loop_nonces [OF assms(1,2)] by blast
qed

section \<open>Instances\<close>

text \<open>
  A small chain. Its state: the nonce of the signer, the pool, the number of the latest block, the payload that is being built. A
  transaction carries its nonce as its gas limit; a block has a mark first, for its parent, and then the pool.
\<close>

record mini =
  mi_nonce :: u64
  mi_pool :: "transaction list"
  mi_number :: u64
  mi_payload :: "payload_args option"

definition plain_tx :: "string + address \<Rightarrow> u64 \<Rightarrow> h256 \<Rightarrow> transaction" where
  "plain_tx sender nonce h = \<lparr>tx_type = EIP1559, tx_to = Create, tx_data = [], tx_value = 0, tx_gas_limit = nonce,
     tx_hash = h, tx_sender = sender, tx_access_list = []\<rparr>"

definition mini_block :: "mini \<Rightarrow> payload_args \<Rightarrow> block" where
  "mini_block s args = \<lparr>b_header = \<lparr>bh_number = mi_number s + 1, bh_gas_limit = 30000000, bh_gas_used = pa_timestamp args\<rparr>,
     b_transactions = plain_tx (Inl ''mark'') 0 (pa_parent args) # mi_pool s\<rparr>"

definition mini_append :: "block \<Rightarrow> mini \<Rightarrow> string + mini" where
  "mini_append blk s =
     (if mi_nonce s = - 1 then Inl ''no more nonces''
      else Inr (s\<lparr>mi_nonce := mi_nonce s + (if list_ex (\<lambda>tx. tx_sender tx = Inr 9) (b_transactions blk) then 1 else 0), mi_pool := [], mi_number := mi_number s + 1\<rparr>))"

definition mini_builder :: "(nat, mini, payload_args, unit, unit, unit, unit) builder_ext" where
  "mini_builder =
     \<lparr>bx_signer = 9, bx_gas_ceil = 30000000, bx_random = (\<lambda>n. (of_nat n, 0, n)), bx_calldata = (\<lambda>_ _ _. Inr []),
      bx_sign = (\<lambda>u. Inr (plain_tx (Inr 9) (et_nonce u) 0)),
      bx_new = (\<lambda>_. Inr \<lparr>mi_nonce = 0, mi_pool = [], mi_number = 0, mi_payload = None\<rparr>),
      bx_genesis_hash = (\<lambda>_. 77), bx_config = (\<lambda>_. \<lparr>cc_chain_id = 9\<rparr>), bx_hash = (\<lambda>blk. ucast (blk_number blk)),
      bx_parent_hash = (\<lambda>blk. tx_hash (hd (b_transactions blk))), bx_payload_id = (\<lambda>_. Inr 1),
      bx_create_payload = (\<lambda>args _. Inr args),
      bx_add_tx = (\<lambda>tx s. if mi_nonce s \<le> tx_gas_limit tx then Inr (s\<lparr>mi_pool := mi_pool s @ [tx]\<rparr>) else Inl ''nonce too low''),
      bx_initiate = (\<lambda>args _ s. s\<lparr>mi_payload := Some args\<rparr>),
      bx_get_payload = (\<lambda>_ s. case mi_payload s of None \<Rightarrow> (Inl UnknownPayload, s) | Some args \<Rightarrow> (Inr (mini_block s args), s)),
      bx_show_rpc_err = (\<lambda>e. case e of RpcUnknownPayload m \<Rightarrow> m | RpcInternal m \<Rightarrow> m), bx_add_block = mini_append, bx_fork_choice = (\<lambda>_ s. Inr s), bx_witness = (\<lambda>_ _ _. Inr ()),
      bx_witness_config = (\<lambda>_. \<lparr>cc_chain_id = 9\<rparr>), bx_rpc_witness = (\<lambda>_. Inr empty_witness), bx_rollup_new = Inr (),
      bx_latest = (\<lambda>s. Inr (mi_number s)), bx_nonce = (\<lambda>_ _ s. Inr (Some (mi_nonce s))),
      bx_build_payload = (\<lambda>args p s. Inr (\<lparr>br_payload = mini_block s args, br_account_updates = (), br_receipts = ()\<rparr>, p, s)),
      bx_header = (\<lambda>_ s. Inr (Some \<lparr>bh_number = mi_number s, bh_gas_limit = 30000000, bh_gas_used = 0\<rparr>)),
      bx_validate = (\<lambda>_ _ _ _. Inr ()), bx_apply_updates = (\<lambda>_ _ _. Inr (Some ())),
      bx_store_block = (\<lambda>_ _ _ _ s. Inr (s\<lparr>mi_number := mi_number s + 1\<rparr>)), bx_store_rollup = (\<lambda>_ _ s. Inr s)\<rparr>"

definition mini_lab :: "(nat, content, mini) lab" where
  "mini_lab = \<lparr>lb_world = example_world 7, lb_chain = \<lparr>mi_nonce = 0, mi_pool = [], mi_number = 0, mi_payload = None\<rparr>\<rparr>"

definition transfers :: "u64 \<Rightarrow> custom_block_options" where
  "transfers n = \<lparr>cb_common = common_default, cb_n_txs = Some n, cb_tx = Some ETHTransfer, cb_save_program_input = None\<rparr>"

lemma transfers_simps [simp]: "cb_n_txs (transfers n) = Some n" "cb_tx (transfers n) = Some ETHTransfer"
  by (simp_all add: transfers_def)

lemma mini_builder_simps [simp]:
  "bx_signer mini_builder = 9" "bx_random mini_builder n = (of_nat n, 0, n)" "bx_calldata mini_builder sig adr v = Inr []"
  "bx_sign mini_builder u = Inr (plain_tx (Inr 9) (et_nonce u) 0)" "bx_config mini_builder s = \<lparr>cc_chain_id = 9\<rparr>"
  "bx_hash mini_builder blk = ucast (blk_number blk)" "bx_parent_hash mini_builder blk = tx_hash (hd (b_transactions blk))"
  "bx_payload_id mini_builder args = Inr 1" "bx_create_payload mini_builder args s = Inr args"
  "bx_add_tx mini_builder tx s =
     (if mi_nonce s \<le> tx_gas_limit tx then Inr (s\<lparr>mi_pool := mi_pool s @ [tx]\<rparr>) else Inl ''nonce too low'')"
  "bx_initiate mini_builder args k s = s\<lparr>mi_payload := Some args\<rparr>"
  "bx_get_payload mini_builder k s =
     (case mi_payload s of None \<Rightarrow> (Inl UnknownPayload, s) | Some args \<Rightarrow> (Inr (mini_block s args), s))"
  "bx_add_block mini_builder = mini_append" "bx_fork_choice mini_builder h s = Inr s"
  "bx_latest mini_builder s = Inr (mi_number s)" "bx_nonce mini_builder k adr s = Inr (Some (mi_nonce s))"
  "bx_build_payload mini_builder args p s =
     Inr (\<lparr>br_payload = mini_block s args, br_account_updates = (), br_receipts = ()\<rparr>, p, s)"
  "bx_header mini_builder h s = Inr (Some \<lparr>bh_number = mi_number s, bh_gas_limit = 30000000, bh_gas_used = 0\<rparr>)"
  "bx_validate mini_builder blk hdr cfg m = Inr ()" "bx_apply_updates mini_builder h up s = Inr (Some ())"
  "bx_store_block mini_builder blk ul r g s = Inr (s\<lparr>mi_number := mi_number s + 1\<rparr>)"
  "bx_store_rollup mini_builder k up s = Inr s"
  by (simp_all add: mini_builder_def)

lemma mini_l1_block:
  assumes "mi_nonce (lb_chain l) = 0" "mi_pool (lb_chain l) = []"
  shows "\<exists>blk h l'. produce_l1_block example_env mini_builder (transfers 0) parent t l = (Inr (blk, h), l') \<and>
    mi_nonce (lb_chain l') = 0 \<and> mi_pool (lb_chain l') = []"
  using assms by (simp add: produce_l1_block_def Let_def andthen_def chain_ask_def chain_do_def get_payload_def mini_append_def
      mini_block_def plain_tx_def)

lemma mini_submit:
  assumes "mi_nonce (lb_chain l) \<le> n" "add_ovf (en_chk l2_env) n 1 = Inr (n + 1)"
  obtains l' where "submit_l2_txs l2_env mini_builder BuildETHTransfer c (Suc k) n l =
      submit_l2_txs l2_env mini_builder BuildETHTransfer c k (n + 1) l'"
    "mi_nonce (lb_chain l') = mi_nonce (lb_chain l)"
  using assms
  by (simp add: andthen_def chain_do_def build_tx_def build_signed_transaction_def expected_def zoom_def outside_def
      plain_tx_def split: prod.splits)

lemma mini_l2_block:
  assumes "mi_nonce (lb_chain l) \<le> n" "mi_nonce (lb_chain l) \<le> n + 1"
    "add_ovf (en_chk l2_env) n 1 = Inr (n + 1)" "add_ovf (en_chk l2_env) (n + 1) 1 = Inr (n + 2)"
  shows "\<exists>blk l'. produce_custom_l2_block l2_env mini_builder (transfers 2) parent t n p l = (Inr (blk, n + 2, p), l') \<and>
    mi_nonce (lb_chain l') = mi_nonce (lb_chain l)"
proof -
  obtain l1 where one: "submit_l2_txs l2_env mini_builder BuildETHTransfer 9 2 n l =
      submit_l2_txs l2_env mini_builder BuildETHTransfer 9 1 (n + 1) l1" and l1: "mi_nonce (lb_chain l1) = mi_nonce (lb_chain l)"
    using mini_submit [OF assms(1,3), of 9 1] by (auto simp: numeral_2_eq_2)
  obtain l2 where "submit_l2_txs l2_env mini_builder BuildETHTransfer 9 1 (n + 1) l1 = (Inr (n + 2), l2)"
    and l2: "mi_nonce (lb_chain l2) = mi_nonce (lb_chain l)"
    using mini_submit [of l1 "n + 1" 9 0] assms(2,4) l1 by (auto simp: algebra_simps)
  with one have all: "submit_l2_txs l2_env mini_builder BuildETHTransfer 9 2 n l = (Inr (n + 2), l2)" by simp
  show ?thesis
    by (simp add: produce_custom_l2_block_def Let_def andthen_def chain_ask_def chain_do_def builder_for_def
        all l2 build_l2_payload_def)
qed

lemma never_full: "n < n + 1" if "n \<noteq> - 1" for n :: u64
proof (cases "unat n + 1 < 2 ^ 64")
  case True
  then show ?thesis by (simp add: word_less_nat_alt unat_word_ariths)
next
  case False
  moreover have "unat (- 1 :: u64) = 2 ^ 64 - 1" by (simp add: unsigned_minus_1_eq_mask mask_eq_exp_minus_1)
  ultimately have "unat n = unat (- 1 :: u64)" using unsigned_less [of n, where 'a = nat] by simp
  then show ?thesis using that by simp
qed



theorem l2_nonces_consecutive_witness:
  "\<exists>blks l'. produce_custom_l2_blocks l2_env mini_builder (transfers 2) 2 77 1 mini_lab = (Inr blks, l') \<and>
     map tx_gas_limit (mi_pool (lb_chain l')) = [0, 1, 2, 3]"
proof -
  have laws: "submission_laws mini_builder (\<lambda>s. map tx_gas_limit (mi_pool s)) tx_gas_limit"
    unfolding submission_laws_def by (auto simp: plain_tx_def split: if_splits)
  have start: "mi_nonce (lb_chain mini_lab) = 0" "mi_pool (lb_chain mini_lab) = []" by (simp_all add: mini_lab_def)
  obtain b1 l1 where one: "produce_custom_l2_block l2_env mini_builder (transfers 2) 77 1 0 [] mini_lab = (Inr (b1, 2, []), l1)"
    and l1: "mi_nonce (lb_chain l1) = 0"
    using mini_l2_block [of mini_lab 0 77 1 "[]"] start by (simp add: add_ovf_def) blast
  obtain b2 l' where two: "produce_custom_l2_block l2_env mini_builder (transfers 2) (bx_hash mini_builder b1) 13 2 [] l1 =
      (Inr (b2, 4, []), l')"
    using mini_l2_block [of l1 2 "bx_hash mini_builder b1" 13 "[]"] l1 by (simp add: add_ovf_def) blast
  have run: "produce_custom_l2_blocks l2_env mini_builder (transfers 2) 2 77 1 mini_lab = (Inr [b1, b2], l')"
    unfolding produce_custom_l2_blocks_def numeral_2_eq_2 produce_l2_loop.simps andthen_def using one two start
    by (simp add: add_ovf_def lift_res_def ret_def chain_ask_def flip: numeral_2_eq_2)
  from l2_nonces_consecutive [OF laws _ run] show ?thesis using run start
    by (auto simp: upt_rec)
qed

end
