(* ===== verification/Program.thy ===== *)
theory Program
  imports Custom_Facts
begin

text \<open>
  The program as a whole: the dispatch on the command (\<open>EthrexReplayCommand::run\<close> of \<open>src/cli.rs\<close>) and what the process answers
  (\<open>src/main.rs\<close>), and which commands are sure to end. The parsing of the command line belongs to \<open>clap\<close>.
\<close>

section \<open>Dispatch\<close>

fun run_l2 ::
    "('n, 'b, 'e, 'c) env \<Rightarrow> ('n, 'j, 'd, 't, 'p) fallback_ext \<Rightarrow> ('e, 'g, 'x, 'k, 's, 'n) store_ext \<Rightarrow>
     ('e, 'g, account_change list, receipt) vm_ext \<Rightarrow> 'c display_ext \<Rightarrow>
     ('n, 's2, 'pl, 'w, 'u, 'r, 'ul) builder_ext \<Rightarrow> l2_subcommand \<Rightarrow> (('n, 'c) world, unit) act" where
  "run_l2 env fb sx vx dx bx (L2Batch args) = replay_batch env dx args"
| "run_l2 env fb sx vx dx bx (L2Block args) = replay_block env fb sx args"
| "run_l2 env fb sx vx dx bx (L2Custom cmd) = replay_custom env bx cmd"
| "run_l2 env fb sx vx dx bx (L2Transaction args) = replay_transaction env fb vx (dx_data dx) args"

fun run_command ::
    "('n, 'b, 'e, 'c) env \<Rightarrow> ('n, 'j, 'd, 't, 'p) fallback_ext \<Rightarrow> ('e, 'g, 'x, 'k, 's, 'n) store_ext \<Rightarrow>
     ('e, 'g, account_change list, receipt) vm_ext \<Rightarrow> 'c display_ext \<Rightarrow>
     ('n, 's2, 'pl, 'w, 'u, 'r, 'ul) builder_ext \<Rightarrow> command \<Rightarrow> (('n, 'c) world, unit) run" where
  "run_command env fb sx vx dx bx (BlockCmd args) w = Some (replay_block env fb sx args w)"
| "run_command env fb sx vx dx bx (BlocksCmd args) w = replay_blocks env fb sx args w"
| "run_command env fb sx vx dx bx (BlockComposition args) w = Some (block_composition env dx args w)"
| "run_command env fb sx vx dx bx (Custom cmd) w = Some (replay_custom env bx cmd w)"
| "run_command env fb sx vx dx bx (GenerateInput args) w = generate_input env fb args w"
| "run_command env fb sx vx dx bx (TransactionCmd args) w = Some (replay_transaction env fb vx (dx_data dx) args w)"
| "run_command env fb sx vx dx bx (L2 cmd) w = Some (run_l2 env fb sx vx dx bx cmd w)"

text \<open>The exit code: an error is logged and ends the process with 1, a panic of the main thread with 101.\<close>

fun exit_code :: "unit res \<Rightarrow> nat" where
  "exit_code (Inr ()) = 0"
| "exit_code (Inl (Error e)) = 1"
| "exit_code (Inl (Panic e)) = 101"

definition main where
  "main env fb sx vx dx bx cmd w =
     map_option (\<lambda>(r, w'). (exit_code r, w')) (run_command env fb sx vx dx bx cmd w)"

text \<open>What \<open>clap\<close> guarantees about a command that it hands over.\<close>

fun l2_options_ok :: "l2_subcommand \<Rightarrow> bool" where
  "l2_options_ok (L2Batch args) = replay_options_ok (bt_opts args)"
| "l2_options_ok (L2Block args) = replay_options_ok (bo_opts args)"
| "l2_options_ok (L2Custom cmd) = custom_block_options_ok (cu_block_opts (as_batch cmd))"
| "l2_options_ok (L2Transaction args) = replay_options_ok (to_opts args)"

fun options_ok :: "command \<Rightarrow> bool" where
  "options_ok (BlockCmd args) = replay_options_ok (bo_opts args)"
| "options_ok (BlocksCmd args) = blocks_options_ok args"
| "options_ok (BlockComposition args) = block_composition_options_ok args"
| "options_ok (Custom cmd) = custom_block_options_ok (cu_block_opts (as_batch cmd))"
| "options_ok (GenerateInput args) = generate_input_options_ok args"
| "options_ok (TransactionCmd args) = replay_options_ok (to_opts args)"
| "options_ok (L2 cmd) = l2_options_ok cmd"

definition command_ok :: "features \<Rightarrow> command \<Rightarrow> bool" where
  "command_ok feats cmd \<longleftrightarrow> command_in_build feats cmd \<and> options_ok cmd"

section \<open>Which commands end\<close>

definition ends :: "('a res \<times> 's) option \<Rightarrow> bool" where
  "ends r \<longleftrightarrow> r \<noteq> None"

lemma ends_Some [simp]: "ends (Some v)"
  by (simp add: ends_def)

lemma proceed_ends:
  assumes "ends r" and "\<And>x s. r = Some (Inr x, s) \<Longrightarrow> ends (f x s)"
  shows "ends (proceed r f)"
  using assms by (cases r) (auto simp: ends_def split: sum.split)

lemma fetch_latest_ends: "ends (fetch_latest_block_number env url False w)"
  unfolding fetch_latest_block_number_def
  by (auto simp: wait_for_multiple.simps split: sum.split prod.split)

lemma or_latest_ends: "n \<noteq> None \<or> \<not> bs_only_eth_proofs_blocks args \<Longrightarrow> ends (or_latest env args n w)"
  by (cases n) (auto simp: or_latest_def latest_from_def fetch_latest_ends split: sum.split)

lemma listed_nothing: "listed_blocks env args w = (Inr [], w') \<Longrightarrow> bs_blocks args = []"
  by (auto simp: listed_blocks_def Let_def split: if_splits)

text \<open>
  The loop over a range: every round raises the number of the block. Only at the largest number of all
  it would start again at zero, where a build with overflow checks stops.
\<close>

lemma replay_loop_ends:
  fixes env :: "('n, 'b, 'e, 'c) env"
  assumes "\<not> bs_endless args" and "en_chk env \<or> last_block \<noteq> - 1"
  shows "ends (replay_loop env args replay n last_block w)"
proof (induction "Suc (unat last_block) - unat n" arbitrary: n w rule: less_induct)
  case less
  show ?case
  proof (cases "n \<le> last_block")
    case False
    then show ?thesis by (simp add: replay_loop.simps)
  next
    case True
    have shrinks: "ends (replay_loop env args replay m last_block w')" if "add_ovf (en_chk env) n 1 = Inr m" for m w'
    proof (rule less.hyps)
      have exact: "unat n + 1 < 2 ^ 64"
      proof (rule ccontr)
        assume full: "\<not> unat n + 1 < 2 ^ 64"
        then have "\<not> en_chk env" using that by (auto simp: add_ovf_def split: if_splits)
        have "unat last_block + 1 \<ge> 2 ^ 64" using full True by (simp add: word_le_nat_alt)
        then have "last_block = - 1" using never_full [of last_block] unsigned_less [of last_block, where 'a = nat]
          by (cases "last_block = - 1") (simp_all add: word_less_nat_alt unat_word_ariths)
        then show False using assms(2) \<open>\<not> en_chk env\<close> by blast
      qed
      then have "unat m = unat n + 1" using that add_one_exact [of n] by simp
      then show "Suc (unat last_block) - unat m < Suc (unat last_block) - unat n"
        using True by (simp add: word_le_nat_alt)
    qed
    show ?thesis
      using True assms(1) shrinks
      by (subst replay_loop.simps) (auto simp: await_block.simps split: sum.split prod.split)
  qed
qed

text \<open>A command that neither follows the chain nor waits for a block that the node does not have yet.\<close>

definition bounded :: "('n, 'b, 'e, 'c) env \<Rightarrow> command \<Rightarrow> bool" where
  "bounded env cmd =
     (case cmd of
        BlocksCmd args \<Rightarrow> \<not> bs_endless args \<and> (bs_only_eth_proofs_blocks args \<longrightarrow> bs_to args \<noteq> None) \<and>
          (en_chk env \<or> bs_to args \<noteq> None \<and> bs_to args \<noteq> Some (- 1))
      | _ \<Rightarrow> True)"

lemma replay_blocks_ends:
  assumes ok: "blocks_options_ok args" and "bounded env (BlocksCmd args)"
  shows "ends (replay_blocks env fb sx args w)"
proof -
  have ends: "\<not> bs_endless args" "bs_from args \<noteq> None \<or> \<not> bs_only_eth_proofs_blocks args"
    "bs_to args \<noteq> None \<or> \<not> bs_only_eth_proofs_blocks args"
    if "bs_blocks args = []" using assms that by (auto simp: bounded_def blocks_options_ok_def)
  have chk: "en_chk env \<or> to \<noteq> - 1" if "or_latest env args (bs_to args) w2 = Some (Inr to, w3)" for to w2 w3
    using assms(2) that by (auto simp: bounded_def or_latest_def)
  have loop: "ends (replay_loop env args replay n to w3)"
    if "or_latest env args (bs_to args) w2 = Some (Inr to, w3)" for replay n to w2 w3
    using assms(2) chk [OF that] by (intro replay_loop_ends) (simp_all add: bounded_def)
  show ?thesis
    unfolding replay_blocks_def blocks_with_def
  proof (rule proceed_ends)
    fix blocks w1
    assume listed: "Some (listed_blocks env args w) = Some (Inr blocks, w1)"
    show "ends (if blocks \<noteq> []
       then Some (for_each (\<lambda>n. replay_block env fb sx \<lparr>bo_block = Some n, bo_opts = bs_opts args\<rparr>) (sort blocks) w1)
       else proceed (or_latest env args (bs_from args) w1) (\<lambda>from w2.
         proceed (or_latest env args (bs_to args) w2) (\<lambda>to w3.
           if to < from then Some (Inl (Error ''starting point can't be greater than ending point''), w3)
           else replay_loop env args (\<lambda>n. replay_block env fb sx \<lparr>bo_block = Some n, bo_opts = bs_opts args\<rparr>) from to w3)))"
    proof (cases "blocks = []")
      case True
      then have "bs_blocks args = []" using listed listed_nothing [of env args w w1] by simp
      then show ?thesis using True ends loop by (simp add: proceed_ends or_latest_ends)
    qed simp
  qed simp
qed

lemma generate_input_ends: "ends (generate_input env fb args w)"
  unfolding generate_input_def blocks_to_process_def
  by (intro proceed_ends) (auto intro!: proceed_ends fetch_latest_ends split: option.split)


text \<open>At the example's node: the blocks 99 to 201, the multiples of 100, in a build with overflow checks.\<close>

definition example_vm :: "(u64, unit, account_change list, receipt) vm_ext" where
  "example_vm =
     \<lparr>vx_guest = (\<lambda>_. Inr ()), vx_prepare = (\<lambda>_ _ _. Inr []), vx_apply = (\<lambda>_ _. Inr ()), vx_txs_with_sender = (\<lambda>_. Inr []),
      vx_execute_tx = (\<lambda>_ _ _ _ _ _ _. Inl ''no transaction'')\<rparr>"

definition example_display :: "content display_ext" where
  "example_display =
     \<lparr>dx_hex = (\<lambda>_. ''0x''), dx_address = (\<lambda>_. ''0x''), dx_render = (\<lambda>_. Inl ''no charts''), dx_line = (\<lambda>_. []),
      dx_result = (\<lambda>_. ''result''), dx_data = (\<lambda>_. ''0x'')\<rparr>"


end
