(* ===== verification/Session.thy ===== *)
theory Session
  imports Program
begin

text \<open>
  Sessions: any commands, one after the other, while the outside goes on. No command of \<open>src/cli.rs\<close> breaks a
  directory of caches, however it ends; so \<open>--cached\<close> always replays the block that was asked for.
\<close>

section \<open>Actions that keep a condition\<close>

definition preserves :: "('s \<Rightarrow> bool) \<Rightarrow> ('s, 'a) act \<Rightarrow> bool" where
  "preserves P m \<longleftrightarrow> (\<forall>s. P s \<longrightarrow> P (snd (m s)))"

named_theorems preserves_intros \<open>how actions that keep a condition compose\<close>

lemma preservesD: "preserves P m \<Longrightarrow> P s \<Longrightarrow> m s = (r, t) \<Longrightarrow> P t"
  unfolding preserves_def by (metis snd_conv)

lemma preserves_basic [preserves_intros]: "preserves P (ret x)" "preserves P (throw e)" "preserves P (lift_res r)"
  by (simp_all add: preserves_def)

lemma preserves_andthen [preserves_intros]:
  "preserves P m \<Longrightarrow> (\<And>x. preserves P (k x)) \<Longrightarrow> preserves P (andthen m k)"
  unfolding preserves_def andthen_def by (auto split: prod.split sum.split)

lemma preserves_lift: "(\<And>x. r = Inr x \<Longrightarrow> preserves P (k x)) \<Longrightarrow> preserves P (andthen (lift_res r) k)"
  by (cases r) (simp_all add: preserves_def andthen_def lift_res_def)

lemma preserves_attempt [preserves_intros]:
  "preserves P m \<Longrightarrow> preserves P (attempt m)" "preserves P m \<Longrightarrow> preserves P (map_err g m)"
  "preserves P m \<Longrightarrow> preserves P (wrap_err ctx m)"
  by (simp_all add: preserves_def)

lemma preserves_expecting [preserves_intros]:
  assumes "preserves P m"
  shows "preserves P (expecting msg m)"
proof -
  have "snd (expecting msg m s) = snd (m s)" for s
    by (simp add: expecting_def split: prod.split sum.split fault.split)
  then show ?thesis using assms by (simp add: preserves_def)
qed

lemma preserves_cases [preserves_intros]:
  "preserves P m \<Longrightarrow> preserves P m' \<Longrightarrow> preserves P (if b then m else m')"
  "(\<And>e. preserves P (g e)) \<Longrightarrow> (\<And>x. preserves P (h x)) \<Longrightarrow> preserves P (case r of Inl e \<Rightarrow> g e | Inr x \<Rightarrow> h x)"
  "preserves P m \<Longrightarrow> (\<And>x. preserves P (k x)) \<Longrightarrow> preserves P (case v of None \<Rightarrow> m | Some x \<Rightarrow> k x)"
  "(\<And>x y. preserves P (l x y)) \<Longrightarrow> preserves P (case p of (x, y) \<Rightarrow> l x y)"
  by (auto split: sum.split option.split prod.split)

lemma preserves_for_each [preserves_intros]: "(\<And>x. preserves P (g x)) \<Longrightarrow> preserves P (for_each g xs)"
  by (induction xs) (auto intro!: preserves_intros)

section \<open>Directories of caches\<close>

text \<open>What may be at a path: a file that parses as a cache and has the name of a single block is the cache of that block.\<close>

definition fits :: "('n, 'b, 'e, 'c) env \<Rightarrow> path \<Rightarrow> 'c \<Rightarrow> bool" where
  "fits env p content \<longleftrightarrow>
     (\<forall>dir net n c. p = join dir (get_block_cache_file_name (en_show_net env) net n None) \<longrightarrow>
        en_from_json env content = Inr c \<longrightarrow> c_network c = net \<and> map blk_number (c_blocks c) = [n])"

definition honest_files :: "('n, 'b, 'e, 'c) env \<Rightarrow> (path \<Rightarrow> 'c option) \<Rightarrow> bool" where
  "honest_files env files \<longleftrightarrow> (\<forall>p content. files p = Some content \<longrightarrow> fits env p content)"

abbreviation honest_world :: "('n, 'b, 'e, 'c) env \<Rightarrow> ('n, 'c) world \<Rightarrow> bool" where
  "honest_world env w \<equiv> honest_files env (wd_read w)"

abbreviation honest_fs :: "('n, 'b, 'e, 'c) env \<Rightarrow> 'c fs \<Rightarrow> bool" where
  "honest_fs env f \<equiv> honest_files env (fs_read f)"

lemma honest_well_named: "honest_files env files \<Longrightarrow> well_named env dir files"
  unfolding honest_files_def well_named_def fits_def by metis

lemma honest_upd: "honest_files env files \<Longrightarrow> fits env p content \<Longrightarrow> honest_files env (files(p \<mapsto> content))"
  by (simp add: honest_files_def)

lemma honest_del: "honest_files env files \<Longrightarrow> honest_files env (files(p := None))"
  by (simp add: honest_files_def)

lemma honest_keeps [preserves_intros]: "keeps wd_fs m \<Longrightarrow> preserves (honest_world env) m"
  by (simp add: preserves_def keeps_def)

lemma honest_on_disk [preserves_intros]: "preserves (honest_fs env) m \<Longrightarrow> preserves (honest_world env) (on_disk m)"
  by (auto simp: preserves_def zoom_def split: prod.split)

text \<open>The steps on the file system. What a program writes that is not a cache does not parse as one.\<close>

lemma honest_dirs: "preserves (honest_fs env) (fs_create_dir_all d)"
  unfolding preserves_def by (metis fs_create_dir_all_frame prod.collapse)

lemma honest_write: "fits env p content \<Longrightarrow> preserves (honest_fs env) (fs_write p content)"
  unfolding preserves_def
proof (intro allI impI)
  fix f assume "fits env p content" "honest_fs env f"
  then show "honest_fs env (snd (fs_write p content f))"
    using disk.put_Inr [of p content f] disk.put_Inl [of p content f] honest_upd
    by (cases "fs_write p content f"; cases "fst (fs_write p content f)") (auto simp: disk.put_Inr disk.put_Inl)
qed

lemma honest_remove: "preserves (honest_fs env) (fs_remove p)"
  unfolding preserves_def
proof (intro allI impI)
  fix f assume "honest_fs env f"
  then show "honest_fs env (snd (fs_remove p f))"
    using disk.del_Inr [of p f] disk.del_Inl [of p f] honest_del
    by (cases "fs_remove p f"; cases "fst (fs_remove p f)") auto
qed

text \<open>A cache is written under its own name, so its content fits, also when the writing was cut off.\<close>

lemma cache_fits:
  assumes "env_ok env"
  shows "fits env (cache_path (en_show_net env) c) (fst (en_to_json env c))"
  unfolding fits_def
proof (intro allI impI)
  fix dir net n c'
  assume path: "cache_path (en_show_net env) c = join dir (get_block_cache_file_name (en_show_net env) net n None)"
    and parses: "en_from_json env (fst (en_to_json env c)) = Inr c'"
  have "c_network c = net \<and> blk_number (hd (c_blocks c)) = n \<and>
      (if length (c_blocks c) = 1 then None else Some (blk_number (last (c_blocks c)))) = None"
    using path file_name_inj [OF env_okD(1) [OF assms]] unfolding join_inj cache_file_name_def by blast
  then have "c_network c = net" "length (c_blocks c) = 1" "blk_number (hd (c_blocks c)) = n" by (auto split: if_splits)
  then have "map blk_number (c_blocks c) = [n]" by (cases "c_blocks c") auto
  then show "c_network c' = net \<and> map blk_number (c_blocks c') = [n]"
    using env_okD(3) [OF assms parses] \<open>c_network c = net\<close> by simp
qed

lemma honest_cache_write: "env_ok env \<Longrightarrow> preserves (honest_fs env) (cache_write (en_show_net env) (en_to_json env) c)"
  unfolding cache_write_def
  by (intro preserves_intros honest_dirs honest_write cache_fits)

lemma honest_cache_delete: "preserves (honest_fs env) (cache_delete show_net c)"
  unfolding cache_delete_def by (intro preserves_intros honest_remove)

section \<open>The commands\<close>

text \<open>What the other crates promise here: no input of a guest program, no chart and no benchmark entry parses as a cache.\<close>

definition other_formats :: "('n, 'b, 'e, 'c) env \<Rightarrow> 'c display_ext \<Rightarrow> bool" where
  "other_formats env dx \<longleftrightarrow>
     (\<forall>inp s c. en_rkyv env inp = Inr s \<longrightarrow> en_from_json env s \<noteq> Inr c) \<and>
     (\<forall>entry c. en_from_json env (fst (en_bench_json env entry)) \<noteq> Inr c) \<and>
     (\<forall>ch s c. dx_render dx ch = Inr s \<longrightarrow> en_from_json env s \<noteq> Inr c)"

lemma other_fits:
  assumes "other_formats env dx"
  shows "en_rkyv env inp = Inr s \<Longrightarrow> fits env p s" "fits env p (fst (en_bench_json env entry))"
    "dx_render dx ch = Inr s \<Longrightarrow> fits env p s"
  using assms unfolding other_formats_def fits_def by metis+

lemma honest_get_blockdata: "env_ok env \<Longrightarrow> preserves (honest_world env) (get_blockdata env fb opts number)"
  unfolding get_blockdata_def
  by (intro preserves_intros honest_cache_write keeps_intros) simp_all

lemma honest_get_batchdata: "env_ok env \<Longrightarrow> preserves (honest_world env) (get_batchdata env client net n dir)"
  unfolding get_batchdata_def Let_def
  by (intro preserves_intros honest_cache_write keeps_intros) simp_all

lemma honest_settle: "preserves (honest_world env) (settle_cache env opts r c)"
  unfolding settle_cache_def
  by (cases "o_cache_level opts") (simp_all add: preserves_intros honest_cache_delete)

lemma honest_write_bench: "other_formats env dx \<Longrightarrow> preserves (honest_world env) (write_bench env opts r)"
  unfolding write_bench_def by (intro preserves_intros honest_write other_fits(2))

lemma honest_replay_block:
  assumes "env_ok env" "other_formats env dx"
  shows "preserves (honest_world env) (replay_block env fb sx args)"
  unfolding replay_block_def Let_def
  by (intro preserves_intros honest_get_blockdata [OF assms(1)] honest_settle honest_write_bench [OF assms(2)] keeps_intros)

lemma honest_replay_transaction:
  assumes "env_ok env"
  shows "preserves (honest_world env) (replay_transaction env fb vx show_data args)"
  unfolding replay_transaction_def Let_def
  by (intro preserves_intros honest_get_blockdata [OF assms] keeps_intros)

lemma honest_write_input:
  assumes "other_formats env dx"
  shows "preserves (honest_world env) (write_program_input env p inp)"
proof -
  let ?m = "andthen (if p = [] then ret () else on_disk (fs_create_dir_all (butlast p))) (\<lambda>_.
       andthen (lift_res (in_context (input_context (en_feats env) inp) (en_rkyv env inp))) (\<lambda>serialized.
         wrap_err (''failed to write ProgramInput to '' @ path_display p) (on_disk (fs_write p serialized))))"
  have m: "preserves (honest_world env) ?m"
    by (intro preserves_lift preserves_intros honest_dirs honest_write other_fits(1) [OF assms])
      (simp add: in_context_def split: sum.splits)
  have "write_program_input env p inp w = ?m w \<or> snd (write_program_input env p inp w) = w" for w
    unfolding write_program_input_def by (simp only: split: if_split) simp
  then show ?thesis using m unfolding preserves_def by metis
qed

lemma honest_generate_one:
  assumes "env_ok env" "other_formats env dx"
  shows "preserves (honest_world env) (generate_one env fb args n)"
  unfolding generate_one_def
  by (intro preserves_intros honest_get_blockdata [OF assms(1)] honest_write_input [OF assms(2)])

lemma keeps_load_blocks [keeps_intros]: "keeps wd_fs (load_blocks env dir net ns)"
  by (induction ns) (simp_all only: load_blocks.simps, (intro keeps_intros | assumption)+)

lemma keeps_composition_blocks [keeps_intros]: "keeps wd_fs (composition_blocks env client ns)"
  by (induction ns) (simp_all only: composition_blocks.simps, (intro keeps_intros | assumption)+)

lemma honest_analyze:
  fixes env :: "('n, 'b, 'e, 'c) env"
  assumes "other_formats env dx"
  shows "preserves (\<lambda>c. honest_fs env (co_fs c)) (analyze_and_display chk hexs addr_hex (dx_render dx) blocks output_dir)"
proof -
  let ?P = "\<lambda>c. honest_fs env (co_fs c)"
  have disk: "preserves ?P (on_fs m)" if "preserves (honest_fs env) m" for m :: "('c fs, unit) act"
    using that by (auto simp: preserves_def zoom_def split: prod.split)
  have "preserves ?P (print_lines ls)" for ls
    by (simp add: preserves_def print_lines_def)
  moreover have "preserves ?P (save_chart (dx_render dx) output_dir a b ch)" for a b ch
    unfolding save_chart_def
    by (cases ch) (simp, intro preserves_lift disk honest_write other_fits(3) [OF assms], simp add: res_simps)
  moreover have "preserves ?P (\<lambda>w. if fs_exists (co_fs w) output_dir then (Inr (), w) else on_fs (fs_create_dir_all output_dir) w)"
    using disk [OF honest_dirs] by (simp add: preserves_def)
  ultimately show ?thesis
    unfolding analyze_and_display_def Let_def by (intro preserves_intros)
qed

lemma honest_composition:
  assumes "other_formats env dx"
  shows "preserves (honest_world env) (block_composition env dx args)"
proof -
  have console: "preserves (honest_world env) (on_console dx (analyze_and_display chk hexs addr_hex (dx_render dx) blocks dir))"
    for chk hexs addr_hex blocks dir
    unfolding preserves_def
  proof (intro allI impI)
    fix w assume w: "honest_world env w"
    obtain r c where run: "analyze_and_display chk hexs addr_hex (dx_render dx) blocks dir \<lparr>co_lines = [], co_fs = wd_fs w\<rparr> = (r, c)"
      by fastforce
    have "honest_fs env (co_fs c)" using preservesD [OF honest_analyze [OF assms] _ run] w by simp
    then show "honest_world env (snd (on_console dx (analyze_and_display chk hexs addr_hex (dx_render dx) blocks dir) w))"
      by (simp add: on_console_def zoom_def run)
  qed
  show ?thesis
    unfolding block_composition_def by (intro preserves_andthen preserves_cases preserves_basic console honest_keeps keeps_intros)
qed

lemma honest_replay_batch:
  assumes "env_ok env"
  shows "preserves (honest_world env) (replay_batch env dx args)"
  unfolding replay_batch_def Let_def
  by (cases "o_action (o_common (bt_opts args))")
    (simp_all only: action.case, (intro preserves_intros honest_get_batchdata [OF assms] keeps_intros)+)


section \<open>Produced blocks\<close>

lemma keeps_run_and_report [keeps_intros]: "keeps wd_fs (run_and_report env opts net blk c)"
  unfolding run_and_report_def by (intro keeps_intros)

lemma honest_save_input:
  assumes "other_formats env dx"
  shows "preserves (honest_world env) (save_input env save_to inp)"
  unfolding save_input_def by (intro preserves_andthen preserves_cases preserves_basic honest_write_input [OF assms])

abbreviation honest_lab :: "('n, 'b, 'e, 'c) env \<Rightarrow> ('n, 'c, 's) lab \<Rightarrow> bool" where
  "honest_lab env l \<equiv> honest_world env (lb_world l)"

lemma honest_chain [preserves_intros]:
  "preserves (honest_lab env) (chain_ask f)" "preserves (honest_lab env) (chain_do g)"
  "preserves (honest_lab env) (get_payload bx i)" "preserves (honest_lab env) (build_l2_payload bx payload p)"
  by (auto simp: preserves_def chain_ask_def chain_do_def get_payload_def build_l2_payload_def
      split: sum.split prod.split payload_error.split)

lemma honest_on_world: "preserves (honest_world env) m \<Longrightarrow> preserves (honest_lab env) (on_world m)"
  by (auto simp: preserves_def zoom_def split: prod.split)

lemma honest_with_chain: "preserves (honest_lab env) m \<Longrightarrow> preserves (honest_world env) (with_chain chain m)"
  unfolding preserves_def with_chain_def by (auto split: sum.split prod.split) (metis lab.select_convs(1) snd_conv)

lemma honest_build_tx [preserves_intros]: "preserves (honest_lab env) (build_tx bx builder n chain_id)"
  unfolding build_tx_def
  by (cases builder) (simp_all only: tx_builder.case, (intro preserves_andthen preserves_basic honest_on_world honest_keeps keeps_intros)+)

lemma honest_submit [preserves_intros]: "preserves (honest_lab env) (submit_l1_tx bx opts chain_id n)"
  unfolding submit_l1_tx_def by (intro preserves_intros)

lemma honest_produce_l1_blocks [preserves_intros]: "preserves (honest_lab env) (produce_l1_blocks env bx opts n parent t)"
proof (induction n arbitrary: parent t)
  case (Suc n)
  have "preserves (honest_lab env) (produce_l1_block env bx opts parent t)"
    unfolding produce_l1_block_def Let_def by (intro preserves_intros)
  then show ?case unfolding produce_l1_blocks.simps by (intro preserves_intros Suc)
qed (simp add: preserves_intros)

lemma honest_submit_l2 [preserves_intros]: "preserves (honest_lab env) (submit_l2_txs env bx builder chain_id n nonce)"
  by (induction n arbitrary: nonce) (simp_all only: submit_l2_txs.simps, (intro preserves_intros | assumption)+)

lemma honest_produce_l2_blocks [preserves_intros]:
  "preserves (honest_lab env) (produce_custom_l2_blocks env bx opts n parent t)"
proof -
  have "preserves (honest_lab env) (produce_l2_loop env bx opts n parent t nonce p)" for parent t nonce p
  proof (induction n arbitrary: parent t nonce p)
    case (Suc n)
    have "preserves (honest_lab env) (produce_custom_l2_block env bx opts parent t nonce p)"
      unfolding produce_custom_l2_block_def Let_def by (intro preserves_intros)
    then show ?case unfolding produce_l2_loop.simps by (intro preserves_intros Suc)
  qed (simp add: preserves_intros)
  then show ?thesis unfolding produce_custom_l2_blocks_def by (intro preserves_intros)
qed

lemma honest_replay_custom:
  assumes "other_formats env dx"
  shows "preserves (honest_world env) (replay_custom env bx cmd)"
proof -
  have report: "preserves (honest_lab env) (on_world (andthen (save_input env save_to inp) (\<lambda>_. run_and_report env opts net blk c)))"
    for save_to inp opts net blk c
    by (intro honest_on_world preserves_andthen honest_save_input [OF assms] honest_keeps keeps_intros)
  have "preserves (honest_world env) (replay_custom_l1_blocks env bx n block_opts opts)" for n block_opts opts
    unfolding replay_custom_l1_blocks_def Let_def
    by (intro preserves_andthen preserves_basic honest_with_chain report honest_chain honest_produce_l1_blocks)
  moreover have "preserves (honest_world env) (replay_custom_l2_blocks env bx n block_opts opts)" for n block_opts opts
    unfolding replay_custom_l2_blocks_def Let_def
    by (intro preserves_andthen preserves_basic honest_with_chain report honest_chain honest_produce_l2_blocks)
  ultimately show ?thesis unfolding replay_custom_def Let_def by (intro preserves_cases)
qed

section \<open>Runs that may not end\<close>

definition stays :: "('s \<Rightarrow> bool) \<Rightarrow> ('a res \<times> 's) option \<Rightarrow> bool" where
  "stays P r \<longleftrightarrow> (\<forall>v w. r = Some (v, w) \<longrightarrow> P w)"

named_theorems stays_intros \<open>how runs that keep a condition compose\<close>

lemma stays_Some [stays_intros]: "P w \<Longrightarrow> stays P (Some (v, w))"
  by (simp add: stays_def)

lemma stays_act: "preserves P m \<Longrightarrow> P w \<Longrightarrow> stays P (Some (m w))"
  unfolding stays_def by (auto dest: preservesD)

lemma stays_proceed [stays_intros]:
  assumes "stays P r" "\<And>x w. P w \<Longrightarrow> stays P (f x w)"
  shows "stays P (proceed r f)"
  unfolding stays_def
proof (intro allI impI)
  fix v w assume "proceed r f = Some (v, w)"
  then show "P w"
    by (cases rule: proceed_Some) (use assms in \<open>unfold stays_def, blast\<close>)+
qed

lemma stays_cases [stays_intros]: "(b \<Longrightarrow> stays P r) \<Longrightarrow> (\<not> b \<Longrightarrow> stays P r') \<Longrightarrow> stays P (if b then r else r')"
  by simp

lemma stays_result: "stays P r \<Longrightarrow> r = Some rw \<Longrightarrow> P (snd rw)"
  by (cases rw) (simp add: stays_def)

text \<open>Conditions on the files only.\<close>

definition about_files :: "(('n, 'c) world \<Rightarrow> bool) \<Rightarrow> bool" where
  "about_files P \<longleftrightarrow> (\<forall>w w'. wd_fs w = wd_fs w' \<longrightarrow> P w \<longrightarrow> P w')"

lemma about_files_keeps: "about_files P \<Longrightarrow> keeps wd_fs m \<Longrightarrow> preserves P m"
  unfolding about_files_def preserves_def keeps_def by metis

lemma wait_stays:
  fixes env :: "('n, 'b, 'e, 'c) env" and w :: "('n, 'c) world"
  assumes P: "about_files P" and w: "P w"
  shows "stays P (wait_for_multiple env client only latest w)"
proof -
  have "P w \<longrightarrow> P (snd rw)" if "wait_for_multiple env client only latest w = Some rw" for rw
  proof (rule wait_for_multiple.raw_induct [where P = "\<lambda>env client only latest w rw. P w \<longrightarrow> P (snd rw)", OF _ that])
    fix f and env :: "('n, 'b, 'e, 'c) env" and client only and latest :: u64 and w :: "('n, 'c) world"
      and rw :: "u64 res \<times> ('n, 'c) world"
    assume IH: "\<And>env client only latest w rw. f env client only latest w = Some rw \<Longrightarrow> P w \<longrightarrow> P (snd rw)"
      and eq: "(if only \<and> latest mod 100 \<noteq> 0 then
          proceed (Some (wait_once env client latest w)) (\<lambda>latest' w'. f env client only latest' w')
        else Some (Inr latest, w)) = Some rw"
    have IH': "P w \<Longrightarrow> stays P (f env client only latest w)" for env client only latest w
      using IH unfolding stays_def by fastforce
    have once: "preserves P (wait_once env client latest)"
      unfolding wait_once_def Let_def by (intro about_files_keeps [OF P] keeps_intros)
    show "P w \<longrightarrow> P (snd rw)"
      by (intro impI stays_result [where P = P, OF _ eq] stays_intros stays_act once IH')
  qed
  then show ?thesis using w unfolding stays_def by fastforce
qed

lemma fetch_latest_stays: "about_files P \<Longrightarrow> P w \<Longrightarrow> stays P (fetch_latest_block_number env url only w)"
  unfolding fetch_latest_block_number_def
  by (cases "en_client_new env url")
    (simp_all only: sum.case, intro stays_intros, assumption,
      intro stays_intros stays_act wait_stays about_files_keeps keeps_intros)

lemma latest_from_stays: "about_files P \<Longrightarrow> P w \<Longrightarrow> stays P (latest_from env args w)"
  unfolding latest_from_def by (intro stays_intros stays_act fetch_latest_stays preserves_basic)

lemma or_latest_stays: "about_files P \<Longrightarrow> P w \<Longrightarrow> stays P (or_latest env args n w)"
  by (cases n) (simp_all add: or_latest_def latest_from_stays stays_Some)

lemma second_later_stays: "about_files P \<Longrightarrow> P w \<Longrightarrow> P (second_later env w)"
  unfolding second_later_def using about_files_keeps [of P "sleep env 1"] keeps_wd_fs(3) by (metis preserves_def)

lemma await_stays:
  fixes env :: "('n, 'b, 'e, 'c) env" and w :: "('n, 'c) world"
  assumes P: "about_files P" and w: "P w"
  shows "stays P (await_block env args b m w)"
proof -
  have "P w \<longrightarrow> P (snd rw)" if "await_block env args b m w = Some rw" for rw
  proof (rule await_block.raw_induct [where P = "\<lambda>env args b m w rw. P w \<longrightarrow> P (snd rw)", OF _ that])
    fix f and env :: "('n, 'b, 'e, 'c) env" and args and b m :: u64 and w :: "('n, 'c) world" and rw :: "u64 res \<times> ('n, 'c) world"
    assume IH: "\<And>env args b m w rw. f env args b m w = Some rw \<Longrightarrow> P w \<longrightarrow> P (snd rw)"
      and eq: "(if bs_endless args \<and> m < b then
          proceed (latest_from env args w) (\<lambda>m' w'. f env args b m' (second_later env w'))
        else Some (Inr m, w)) = Some rw"
    have IH': "P w \<Longrightarrow> stays P (f env args b m w)" for env args b m w
      using IH unfolding stays_def by fastforce
    show "P w \<longrightarrow> P (snd rw)"
      by (intro impI stays_result [where P = P, OF _ eq] stays_intros latest_from_stays [OF P] IH' second_later_stays [OF P])
  qed
  then show ?thesis using w unfolding stays_def by fastforce
qed

lemma replay_loop_stays:
  fixes env :: "('n, 'b, 'e, 'c) env" and w :: "('n, 'c) world"
  assumes P: "about_files P" and w: "P w" and replay: "\<And>n. preserves P (replay n)"
  shows "stays P (replay_loop env args replay n m w)"
proof -
  let ?I = "\<lambda>replay w rw. (\<forall>n. preserves P (replay n)) \<longrightarrow> P w \<longrightarrow> P (snd rw)"
  have "?I replay w rw" if "replay_loop env args replay n m w = Some rw" for rw
  proof (rule replay_loop.raw_induct [where P = "\<lambda>env args replay n m w rw. ?I replay w rw", OF _ that], intro impI)
    fix f and env :: "('n, 'b, 'e, 'c) env" and args and replay :: "u64 \<Rightarrow> (('n, 'c) world, unit) act" and n m :: u64
      and w :: "('n, 'c) world" and rw :: "unit res \<times> ('n, 'c) world"
    assume IH: "\<And>env args replay n m w rw. f env args replay n m w = Some rw \<Longrightarrow> ?I replay w rw"
      and eq: "(if n \<le> m then
          if bs_only_eth_proofs_blocks args \<and> n mod 100 \<noteq> 0 then
            proceed (Some (add_ovf (en_chk env) n 1, w)) (\<lambda>n' w'.
              if bs_endless args \<and> m < n' then
                proceed (latest_from env args w') (\<lambda>m' w''. f env args replay n' m' (second_later env w''))
              else f env args replay n' m w')
          else
            proceed (Some (replay n w)) (\<lambda>_ w'.
            proceed (Some (add_ovf (en_chk env) n 1, w')) (\<lambda>n' w''.
            proceed (await_block env args n' m w'') (\<lambda>m' w3. f env args replay n' m' w3)))
        else Some (Inr (), w)) = Some rw"
      and each: "\<forall>n. preserves P (replay n)" and w: "P w"
    have IH': "P w \<Longrightarrow> stays P (f env args replay n m w)" for env args n m w
      using IH each unfolding stays_def by fastforce
    show "P (snd rw)"
      by (rule stays_result [where P = P, OF _ eq])
        (intro stays_intros stays_act latest_from_stays [OF P] await_stays [OF P] IH' second_later_stays [OF P] w each [rule_format])
  qed
  then show ?thesis using w replay unfolding stays_def by fastforce
qed

section \<open>Any command\<close>

lemma honest_about_files: "about_files (honest_world env)"
  by (simp add: about_files_def)

lemma keeps_listed_blocks [keeps_intros]: "keeps wd_fs (listed_blocks env args)"
proof -
  have "snd (get_block_numbers_in_cache_dir show_net dir net f) = f" for show_net dir net f
    using listing_state [of show_net dir net f] by (metis prod.collapse)
  then show ?thesis unfolding listed_blocks_def Let_def by (intro keeps_intros)
qed

lemma replay_blocks_honest:
  assumes "env_ok env" "other_formats env dx" "honest_world env w"
  shows "stays (honest_world env) (replay_blocks env fb sx args w)"
  unfolding replay_blocks_def blocks_with_def
  by (intro stays_intros stays_act or_latest_stays replay_loop_stays honest_about_files honest_keeps keeps_intros assms(3)
      preserves_for_each honest_replay_block [OF assms(1,2)])

lemma blocks_to_process_stays:
  assumes "about_files P" "P w"
  shows "stays P (blocks_to_process env args w)"
  unfolding blocks_to_process_def
  by (cases "gi_block args"; cases "gi_from args"; cases "gi_to args")
    (simp_all add: stays_Some stays_proceed fetch_latest_stays assms)

lemma generate_input_honest:
  assumes "env_ok env" "other_formats env dx" "honest_world env w"
  shows "stays (honest_world env) (generate_input env fb args w)"
proof -
  have "stays (honest_world env) (Some (if fs_exists (wd_fs w) (gi_output_dir args) then (Inr (), w)
      else on_disk (fs_create_dir_all (gi_output_dir args)) w))"
    by (cases "fs_exists (wd_fs w) (gi_output_dir args)")
      (simp_all add: stays_Some assms(3) stays_act [OF honest_on_disk [OF honest_dirs] assms(3)])
  then show ?thesis
    unfolding generate_input_def
    by (rule stays_proceed) (intro stays_intros stays_act blocks_to_process_stays honest_about_files preserves_for_each
        honest_generate_one [OF assms(1,2)])
qed

lemma run_l2_honest:
  assumes "env_ok env" "other_formats env dx" "honest_world env w"
  shows "stays (honest_world env) (Some (run_l2 env fb sx vx dx bx cmd w))"
  by (cases cmd)
    (simp_all only: run_l2.simps
      stays_act [OF honest_replay_block [OF assms(1,2)] assms(3)] stays_act [OF honest_replay_custom [OF assms(2)] assms(3)]
      stays_act [OF honest_replay_transaction [OF assms(1)] assms(3)] stays_act [OF honest_replay_batch [OF assms(1)] assms(3)])

lemma run_command_honest:
  assumes "env_ok env" "other_formats env dx" "honest_world env w"
  shows "stays (honest_world env) (run_command env fb sx vx dx bx cmd w)"
  by (cases cmd)
    (simp_all only: run_command.simps replay_blocks_honest [OF assms] generate_input_honest [OF assms]
      stays_act [OF honest_replay_block [OF assms(1,2)] assms(3)] stays_act [OF honest_composition [OF assms(2)] assms(3)]
      stays_act [OF honest_replay_custom [OF assms(2)] assms(3)] stays_act [OF honest_replay_transaction [OF assms(1)] assms(3)]
      run_l2_honest [OF assms])

section \<open>Sessions\<close>

text \<open>
  A session: commands run, each to its end, well or badly. In between, the outside goes on, and other programs may delete files.
\<close>

inductive session ::
    "('n, 'b, 'e, 'c) env \<Rightarrow> ('n, 'j, 'd, 't, 'p) fallback_ext \<Rightarrow> ('e, 'g, 'x, 'k, 's, 'n) store_ext \<Rightarrow>
     ('e, 'g, account_change list, receipt) vm_ext \<Rightarrow> 'c display_ext \<Rightarrow>
     ('n, 's2, 'pl, 'w, 'u, 'r, 'ul) builder_ext \<Rightarrow> ('n, 'c) world \<Rightarrow> ('n, 'c) world \<Rightarrow> bool"
  for env fb sx vx dx bx w where
  session_start: "session env fb sx vx dx bx w w"
| session_command: "session env fb sx vx dx bx w w1 \<Longrightarrow> run_command env fb sx vx dx bx cmd w1 = Some (r, w2) \<Longrightarrow>
    session env fb sx vx dx bx w w2"
| session_meanwhile: "session env fb sx vx dx bx w w1 \<Longrightarrow> (\<And>p. wd_read w2 p = wd_read w1 p \<or> wd_read w2 p = None) \<Longrightarrow>
    session env fb sx vx dx bx w w2"

lemma session_honest:
  assumes "session env fb sx vx dx bx w w'" "env_ok env" "other_formats env dx" "honest_world env w"
  shows "honest_world env w'"
  using assms(1,4)
proof (induction rule: session.induct)
  case session_start
  then show ?case .
next
  case (session_command w1 cmd r w2)
  then show ?case using run_command_honest [OF assms(2,3)] unfolding stays_def by blast
next
  case (session_meanwhile w1 w2)
  then show ?case unfolding honest_files_def by (metis option.distinct(1))
qed

text \<open>
  C7. Whatever commands were run before, in any order and with any result, and whatever files were deleted in between: a
  replay with \<open>--cached\<close> that finds its cache gets the block and the network that it asked for. Every command keeps all
  directories of caches in order, those that fail or panic half way included.
\<close>

theorem cached_replays_right:
  assumes "env_ok env" and "other_formats env dx" and "honest_world env w"
    and "session env fb sx vx dx bx w w1"
    and "o_cached opts" and "get_blockdata env fb opts number w1 = (Inr (c, net), w2)"
  shows "honest_world env w1 \<and> o_network opts = Some net \<and> number \<noteq> None \<and> asked_for c net number (o_cache_dir opts)"
proof -
  have honest: "honest_world env w1" using session_honest [OF assms(4,1-3)] .
  from assms(5,6) obtain n where n: "number = Some n" "o_network opts = Some net"
    and load: "on_disk (cache_load (en_from_json env) (o_cache_dir opts)
      (get_block_cache_file_name (en_show_net env) net n None)) w1 = (Inr c, w2)"
    by (auto simp: get_blockdata_def res_simps elim!: andthen_Inr_E)
  have "asked_for c net (Some n) (o_cache_dir opts)"
    using cache_load_asked [OF honest_well_named [OF honest]] on_disk_frame [OF load] by blast
  then show ?thesis using honest n by simp
qed

text \<open>A transaction that is not in block 5 is looked for there; the cache of the block stays, and is replayed later.\<close>

definition missing_tx :: transaction_opts where
  "missing_tx = \<lparr>to_tx_hash = 1, to_block_number = Some 5, to_opts = online_opts\<rparr>"

lemma missing_tx_fails:
  "\<exists>e. run_command example_env nat_fallback example_store example_vm example_display mini_builder
     (TransactionCmd missing_tx) (example_world 7) = Some (Inl e, world_with_block5)"
proof -
  have "run_tx example_env example_vm block5_cache 1 = Inl (Error ''transaction not found inside block'')"
    by (simp add: run_tx_def block5_cache_def cache_new_def genesis_config_def in_context_def example_vm_def Let_def)
  moreover have "\<not> o_cached online_opts" by (simp add: online_opts_def)
  ultimately show ?thesis
    by (simp add: missing_tx_def replay_transaction_def andthen_def block5_run)
qed

theorem cached_replays_right_witness:
  "session example_env nat_fallback example_store example_vm example_display mini_builder (example_world 7) world_with_block5 \<and>
   get_blockdata example_env nat_fallback offline_opts (Some 5) world_with_block5
     = (Inr (block5_cache, PublicNetwork Mainnet), world_with_block5) \<and>
   asked_for block5_cache (PublicNetwork Mainnet) (Some 5) [''replay_cache'']"
proof -
  have name: "get_block_cache_file_name injective_net (PublicNetwork Mainnet) 5 None = ''cache_mainnet_5.json''"
    using show_five by (simp add: get_block_cache_file_name_def injective_net_def)
  have session: "session example_env nat_fallback example_store example_vm example_display mini_builder
      (example_world 7) world_with_block5"
    using missing_tx_fails session_start session_command by blast
  have found: "get_blockdata example_env nat_fallback offline_opts (Some 5) world_with_block5
      = (Inr (block5_cache, PublicNetwork Mainnet), world_with_block5)"
    by (simp add: get_blockdata_def offline_opts_def online_opts_def andthen_def zoom_def name world_with_block5_def
        cache_load_def fs_open_def empty_fs_def join_def map_err_def block5_cache_def cache_new_def)
  have formats: "other_formats example_env example_display"
    by (simp add: other_formats_def example_display_def example_env_def)
  have start: "honest_world example_env (example_world 7)"
    by (simp add: honest_files_def example_world_def empty_fs_def)
  show ?thesis
    using cached_replays_right [OF example_env_ok formats start session _ found] session found
    by (simp add: offline_opts_def online_opts_def)
qed

end
