(* ===== verification/Interleaving.thy ===== *)
theory Interleaving
  imports Main
begin

text \<open>
  Tasks that take turns on a shared state, as the futures of one \<open>join_all\<close> do: they are polled by
  one task of the runtime, so between two \<open>await\<close> points a future runs alone, and at every \<open>await\<close>
  any other may go on. A schedule is a list of events; an event is a move of one task or the
  passing of time. \<open>move\<close> is what a task does: given who it is and the move, its phase and the shared
  state before give those after, or the move is not possible.
\<close>

datatype 'm event = Move nat 'm | Wait nat

fun event_step ::
    "('i \<Rightarrow> 'm \<Rightarrow> 'p \<times> 's \<Rightarrow> ('p \<times> 's) option) \<Rightarrow> (nat \<Rightarrow> 's \<Rightarrow> 's) \<Rightarrow> 'm event \<Rightarrow>
     ('i \<times> 'p) list \<times> 's \<Rightarrow> (('i \<times> 'p) list \<times> 's) option" where
  "event_step move wait (Wait d) (ts, s) = Some (ts, wait d s)"
| "event_step move wait (Move n m) (ts, s) =
     (if n < length ts then
        (case move (fst (ts ! n)) m (snd (ts ! n), s) of
           Some (p, s') \<Rightarrow> Some (ts[n := (fst (ts ! n), p)], s')
         | None \<Rightarrow> None)
      else None)"

primrec play ::
    "('i \<Rightarrow> 'm \<Rightarrow> 'p \<times> 's \<Rightarrow> ('p \<times> 's) option) \<Rightarrow> (nat \<Rightarrow> 's \<Rightarrow> 's) \<Rightarrow> 'm event list \<Rightarrow>
     ('i \<times> 'p) list \<times> 's \<Rightarrow> (('i \<times> 'p) list \<times> 's) option" where
  "play move wait [] c = Some c"
| "play move wait (e # es) c =
     (case event_step move wait e c of Some c' \<Rightarrow> play move wait es c' | None \<Rightarrow> None)"

fun is_move :: "'m event \<Rightarrow> bool" where
  "is_move (Move _ _) = True"
| "is_move (Wait _) = False"

lemma play_append:
  "play move wait (es @ es') c = (case play move wait es c of Some c' \<Rightarrow> play move wait es' c' | None \<Rightarrow> None)"
  by (induction es arbitrary: c) (auto split: option.split)

lemma play_trans:
  "play move wait es c = Some c' \<Longrightarrow> play move wait es' c' = Some c'' \<Longrightarrow> play move wait (es @ es') c = Some c''"
  by (simp add: play_append)

lemma play_Cons_Some:
  "play move wait (e # es) c = Some c'' \<longleftrightarrow>
     (\<exists>ts s. event_step move wait e c = Some (ts, s) \<and> play move wait es (ts, s) = Some c'')"
  by (auto split: option.split)

text \<open>The tasks stay who they are.\<close>

lemma event_step_ids: "event_step move wait e (ts, s) = Some (ts', s') \<Longrightarrow> map fst ts' = map fst ts"
  by (cases e) (auto simp: map_update list_update_same_conv split: if_splits option.splits)

lemma play_ids: "play move wait es (ts, s) = Some (ts', s') \<Longrightarrow> map fst ts' = map fst ts"
  by (induction es arbitrary: ts s) (auto simp: play_Cons_Some simp del: play.simps(2) dest!: event_step_ids)

text \<open>
  What no interleaving breaks. Each move keeps an invariant of the shared state and a property of
  the phase of its own task; the property of a phase does not speak of the shared state, so the
  moves of the others cannot invalidate it.
\<close>

locale steady_tasks =
  fixes move :: "'i \<Rightarrow> 'm \<Rightarrow> 'p \<times> 's \<Rightarrow> ('p \<times> 's) option"
    and wait :: "nat \<Rightarrow> 's \<Rightarrow> 's"
    and inv :: "'s \<Rightarrow> bool"
    and ok :: "'i \<Rightarrow> 'p \<Rightarrow> bool"
  assumes move_keeps: "inv s \<Longrightarrow> ok i p \<Longrightarrow> move i m (p, s) = Some (p', s') \<Longrightarrow> inv s' \<and> ok i p'"
    and wait_keeps: "inv s \<Longrightarrow> inv (wait d s)"
begin

abbreviation all_ok :: "('i \<times> 'p) list \<Rightarrow> bool" where
  "all_ok ts \<equiv> \<forall>n < length ts. ok (fst (ts ! n)) (snd (ts ! n))"

lemma event_keeps:
  assumes "event_step move wait e (ts, s) = Some (ts', s')" "inv s" "all_ok ts"
  shows "inv s' \<and> all_ok ts'"
proof (cases e)
  case (Wait d)
  then show ?thesis using assms by (auto intro: wait_keeps)
next
  case (Move n m)
  then obtain p where "n < length ts" and step: "move (fst (ts ! n)) m (snd (ts ! n), s) = Some (p, s')"
    and ts': "ts' = ts[n := (fst (ts ! n), p)]"
    using assms(1) by (auto split: if_splits option.splits)
  then show ?thesis
    using move_keeps [OF assms(2) _ step] assms(3) by (auto simp: nth_list_update)
qed

lemma play_keeps:
  "play move wait es (ts, s) = Some (ts', s') \<Longrightarrow> inv s \<Longrightarrow> all_ok ts \<Longrightarrow> inv s' \<and> all_ok ts'"
proof (induction es arbitrary: ts s)
  case Nil
  then show ?case by simp
next
  case (Cons e es)
  then obtain ts1 s1 where step: "event_step move wait e (ts, s) = Some (ts1, s1)"
    and rest: "play move wait es (ts1, s1) = Some (ts', s')" unfolding play_Cons_Some by blast
  show ?case by (rule Cons.IH [OF rest]) (use event_keeps [OF step Cons.prems(2,3)] in simp_all)
qed

end

text \<open>
  What a schedule can cost. Every move pays its cost, and what it adds to what the shared state
  has spent, from the potential of its task; some moves give potential back.
\<close>

locale paying_tasks =
  fixes move :: "'i \<Rightarrow> 'm \<Rightarrow> 'p \<times> 's \<Rightarrow> ('p \<times> 's) option"
    and wait :: "nat \<Rightarrow> 's \<Rightarrow> 's"
    and potential :: "'p \<Rightarrow> nat"
    and spent :: "'s \<Rightarrow> nat"
    and cost :: nat
    and gain :: "'m \<Rightarrow> nat"
  assumes move_pays: "move i m (p, s) = Some (p', s') \<Longrightarrow> potential p' + spent s' + cost \<le> potential p + spent s + gain m"
    and wait_free: "spent (wait d s) = spent s"
begin

primrec gained :: "'m event list \<Rightarrow> nat" where
  "gained [] = 0"
| "gained (e # es) = (case e of Move _ m \<Rightarrow> gain m | Wait _ \<Rightarrow> 0) + gained es"

lemma event_pays:
  assumes "event_step move wait e (ts, s) = Some (ts', s')"
  shows "(\<Sum>t\<leftarrow>ts'. potential (snd t)) + spent s' + (if is_move e then cost else 0)
    \<le> (\<Sum>t\<leftarrow>ts. potential (snd t)) + spent s + (case e of Move _ m \<Rightarrow> gain m | Wait _ \<Rightarrow> 0)"
proof (cases e)
  case (Wait d)
  then show ?thesis using assms by (auto simp: wait_free)
next
  case (Move n m)
  then obtain p where n: "n < length ts" and step: "move (fst (ts ! n)) m (snd (ts ! n), s) = Some (p, s')"
    and ts': "ts' = ts[n := (fst (ts ! n), p)]"
    using assms(1) by (auto split: if_splits option.splits)
  have "(\<Sum>t\<leftarrow>ts. potential (snd t)) = (\<Sum>t\<leftarrow>take n ts @ ts ! n # drop (Suc n) ts. potential (snd t))"
    by (simp only: id_take_nth_drop [OF n, symmetric])
  moreover have "(\<Sum>t\<leftarrow>ts'. potential (snd t)) = (\<Sum>t\<leftarrow>take n ts @ (fst (ts ! n), p) # drop (Suc n) ts. potential (snd t))"
    by (simp only: ts' upd_conv_take_nth_drop [OF n])
  ultimately show ?thesis using move_pays [OF step] Move by simp
qed

lemma play_pays:
  "play move wait es (ts, s) = Some (ts', s') \<Longrightarrow>
     (\<Sum>t\<leftarrow>ts'. potential (snd t)) + spent s' + cost * length (filter is_move es)
       \<le> (\<Sum>t\<leftarrow>ts. potential (snd t)) + spent s + gained es"
proof (induction es arbitrary: ts s)
  case Nil
  then show ?case by simp
next
  case (Cons e es)
  then obtain ts1 s1 where step: "event_step move wait e (ts, s) = Some (ts1, s1)"
    and rest: "play move wait es (ts1, s1) = Some (ts', s')" unfolding play_Cons_Some by blast
  show ?case using event_pays [OF step] Cons.IH [OF rest] by (cases e) simp_all
qed

end

text \<open>Moves of one task alone.\<close>

primrec moves :: "('i \<Rightarrow> 'm \<Rightarrow> 'p \<times> 's \<Rightarrow> ('p \<times> 's) option) \<Rightarrow> 'i \<Rightarrow> 'm list \<Rightarrow> 'p \<times> 's \<Rightarrow> ('p \<times> 's) option" where
  "moves move i [] c = Some c"
| "moves move i (m # ms) c = (case move i m c of Some c' \<Rightarrow> moves move i ms c' | None \<Rightarrow> None)"

lemma play_moves:
  assumes "moves move i ms (p, s) = Some (p', s')" "n < length ts" "ts ! n = (i, p)"
  shows "play move wait (map (Move n) ms) (ts, s) = Some (ts[n := (i, p')], s')"
  using assms
proof (induction ms arbitrary: ts p s)
  case Nil
  then show ?case using list_update_id [of ts n] by simp
next
  case (Cons m ms)
  then obtain p1 s1 where "move i m (p, s) = Some (p1, s1)" and rest: "moves move i ms (p1, s1) = Some (p', s')"
    by (auto split: option.splits)
  then show ?case using Cons.IH [OF rest, of "ts[n := (i, p1)]"] Cons.prems(2,3) by simp
qed

text \<open>
  If every task can reach a rest by at most \<open>k\<close> moves of its own, whatever the shared state, the
  tasks can all be brought to rest.
\<close>

locale live_tasks =
  fixes move :: "'i \<Rightarrow> 'm \<Rightarrow> 'p \<times> 's \<Rightarrow> ('p \<times> 's) option"
    and wait :: "nat \<Rightarrow> 's \<Rightarrow> 's"
    and rest :: "'p \<Rightarrow> bool"
    and allowed :: "'m \<Rightarrow> bool"
    and k :: nat
  assumes reaches_rest: "\<exists>ms p' s'. length ms \<le> k \<and> list_all allowed ms \<and> moves move i ms (p, s) = Some (p', s') \<and> rest p'"
begin

lemma all_rest:
  "\<exists>es ts' s'. play move wait es (ts, s) = Some (ts', s') \<and> length es \<le> k * length ts \<and>
     (\<forall>e \<in> set es. \<exists>n m. e = Move n m \<and> allowed m) \<and> list_all (rest \<circ> snd) ts'"
proof -
  have "\<exists>es ts' s'. play move wait es (ts, s) = Some (ts', s') \<and> length es \<le> k * n \<and>
      (\<forall>e \<in> set es. \<exists>n m. e = Move n m \<and> allowed m) \<and> length ts' = length ts \<and> (\<forall>j < n. rest (snd (ts' ! j)))"
    if "n \<le> length ts" for n
    using that
  proof (induction n)
    case 0
    show ?case by (rule exI [of _ "[]"]) simp
  next
    case (Suc n)
    then obtain es ts1 s1 where done_n: "play move wait es (ts, s) = Some (ts1, s1)" "length es \<le> k * n"
      "\<forall>e \<in> set es. \<exists>n m. e = Move n m \<and> allowed m" "length ts1 = length ts" "\<forall>j < n. rest (snd (ts1 ! j))"
      by auto
    obtain i p where at: "ts1 ! n = (i, p)" by (cases "ts1 ! n")
    obtain ms p' s' where ms: "length ms \<le> k" "list_all allowed ms" "moves move i ms (p, s1) = Some (p', s')" "rest p'"
      using reaches_rest by blast
    have "play move wait (map (Move n) ms) (ts1, s1) = Some (ts1[n := (i, p')], s')"
      by (rule play_moves [OF ms(3) _ at]) (use Suc.prems done_n(4) in simp)
    note run = play_trans [OF done_n(1) this]
    have "length (es @ map (Move n) ms) \<le> k * Suc n" using done_n(2) ms(1) by simp
    moreover have "\<forall>e \<in> set (es @ map (Move n) ms). \<exists>n m. e = Move n m \<and> allowed m"
      using done_n(3) ms(2) by (auto simp: list_all_iff)
    moreover have "\<forall>j < Suc n. rest (snd (ts1[n := (i, p')] ! j))"
      using done_n(4,5) ms(4) Suc.prems by (simp add: nth_list_update less_Suc_eq)
    ultimately show ?case using run done_n(4) by (metis length_list_update)
  qed
  from this [OF order.refl] show ?thesis unfolding list_all_length comp_def by metis
qed

end

end
