(* ===== verification/Rpc_Concurrent.thy ===== *)
theory Rpc_Concurrent
  imports Rpc_Reads Interleaving
begin

text \<open>
  The concurrency of \<open>RpcDB::fetch_accounts\<close> (\<open>src/rpc/db.rs\<close>). The accounts of a chunk are fetched by
  one future each, and \<open>join_all\<close> polls them together: their requests, the writes to the shared cache of
  codes and their retries interleave. \<open>Rpc_Db\<close> runs them one after the other; here every order is a
  schedule, a list of events in the sense of \<open>Interleaving\<close>, and every property is proved of all of them.

  A future of \<open>get_account\<close> can be interrupted where it awaits an answer, so its phases are the two
  requests before and after the node has answered. The node handles one request at a time, in any
  order; an answer waits until its future is polled; the clock may advance between any two events.
\<close>

section \<open>The task of one account\<close>

text \<open>What \<open>get_account\<close> holds while it awaits the code of the account.\<close>

record pending_account =
  pa_state :: account_state
  pa_storage :: "(h256, u256) hmap"
  pa_account_proof :: "bytes list"
  pa_storage_proofs :: "(h256, bytes list) hmap"

datatype 'j phase =
    Proof_Requested
  | Proof_Answered "string + 'j"
  | Code_Requested pending_account
  | Code_Answered pending_account "string + 'j"
  | Failed fault
  | Finished "account res"

datatype task_move = Serve | Resume | Retry | Give_Up

definition with_code :: "pending_account \<Rightarrow> bytes option \<Rightarrow> account" where
  "with_code pa code = Existing (pa_state pa) (pa_storage pa) (pa_account_proof pa) (pa_storage_proofs pa) code"

text \<open>The request a future has in flight.\<close>

fun request_of ::
    "('n, 'j, 'd, 't) rpc_ext \<Rightarrow> nat \<Rightarrow> address \<times> h256 list \<Rightarrow> 'j phase \<Rightarrow> rpc_request option" where
  "request_of ext block_number (address, storage_keys) Proof_Requested =
     Some (EthGetProof (''0x'' @ x_addr_hex ext address)
       (map (\<lambda>key. ''0x'' @ x_h256_hex ext key) storage_keys) (hex_quantity block_number))"
| "request_of ext block_number (address, storage_keys) (Code_Requested _) =
     Some (EthGetCode (''0x'' @ x_addr_hex ext address) (hex_quantity block_number))"
| "request_of _ _ _ _ = None"

text \<open>
  From the answer to \<open>eth_getProof\<close> to the account, or to what is still missing its code; and from the
  answer to \<open>eth_getCode\<close> to the code. Nothing is awaited in between.
\<close>

definition read_proof ::
    "('n, 'j, 'd, 't) rpc_ext \<Rightarrow> address \<Rightarrow> string + 'j \<Rightarrow> (account + pending_account) res" where
  "read_proof ext address answer =
     bind_res (of_result answer) (\<lambda>response.
     bind_res (get_result ext (x_json_proof ext) response) (\<lambda>ap.
     bind_res (map_res (decode_hex ext) (ap_account_proof ap)) (\<lambda>account_proof.
     bind_res (map_res (parse_storage_proof ext) (ap_storage_proof ap)) (\<lambda>pairs.
     bind_res (account_in_trie ext address account_proof) (\<lambda>found.
     if \<not> found then Inr (Inl (NonExisting account_proof (hm_collect (map snd pairs))))
     else bind_res (parse_account_state ext ap) (\<lambda>st.
       Inr (Inr \<lparr>pa_state = st, pa_storage = hm_collect (map fst pairs), pa_account_proof = account_proof,
                 pa_storage_proofs = hm_collect (map snd pairs)\<rparr>)))))))"

definition read_code :: "('n, 'j, 'd, 't) rpc_ext \<Rightarrow> string + 'j \<Rightarrow> bytes res" where
  "read_code ext answer =
     bind_res (of_result answer) (\<lambda>response.
     bind_res (get_result ext (x_json_string ext) response) (decode_hex ext))"

text \<open>Polled with an answer, the future runs to its next \<open>await\<close> or to its end.\<close>

fun resume ::
    "('n, 'j, 'd, 't) rpc_ext \<Rightarrow> address \<Rightarrow> (h256, bytes) hmap \<Rightarrow> 'j phase \<Rightarrow> ('j phase \<times> (h256, bytes) hmap) option" where
  "resume ext address codes (Proof_Answered answer) =
     Some (case read_proof ext address answer of
         Inl e \<Rightarrow> Failed e
       | Inr (Inl acc) \<Rightarrow> Finished (Inr acc)
       | Inr (Inr pa) \<Rightarrow>
           if as_code_hash (pa_state pa) = x_empty_keccak ext then Finished (Inr (with_code pa None))
           else (case map_of codes (as_code_hash (pa_state pa)) of
               Some cached_code \<Rightarrow> Finished (Inr (with_code pa (Some cached_code)))
             | None \<Rightarrow> Code_Requested pa),
       codes)"
| "resume ext address codes (Code_Answered pa answer) =
     Some (case read_code ext answer of
         Inl e \<Rightarrow> (Failed e, codes)
       | Inr fetched_code \<Rightarrow>
           (Finished (Inr (with_code pa (Some fetched_code))),
            AList.update (as_code_hash (pa_state pa)) fetched_code codes))"
| "resume _ _ _ _ = None"

text \<open>
  The moves of a task: the node handles its request; it is polled with the answer; after an error the
  retry policy calls \<open>get_account\<close> again; or gives up.
\<close>

fun answered :: "'j phase \<Rightarrow> string + 'j \<Rightarrow> 'j phase" where
  "answered (Code_Requested pa) answer = Code_Answered pa answer"
| "answered _ answer = Proof_Answered answer"

fun task_step ::
    "('n, 'j, 'd, 't) rpc_ext \<Rightarrow> nat \<Rightarrow> address \<times> h256 list \<Rightarrow> task_move \<Rightarrow> 'j phase \<times> 'n rpc_state \<Rightarrow>
     ('j phase \<times> 'n rpc_state) option" where
  "task_step ext block_number task Serve (p, s) =
     (case request_of ext block_number task p of
        Some req \<Rightarrow> (case x_post ext req (rs_node s) of (answer, _, n) \<Rightarrow>
          Some (answered p answer, s\<lparr>rs_node := n, rs_requests := rs_requests s @ [req]\<rparr>))
      | None \<Rightarrow> None)"
| "task_step ext block_number task Resume (p, s) =
     (case resume ext (fst task) (rs_codes s) p of
        Some (p', codes) \<Rightarrow> Some (p', s\<lparr>rs_codes := codes\<rparr>)
      | None \<Rightarrow> None)"
| "task_step ext block_number task Retry (p, s) =
     (case p of Failed (Error _) \<Rightarrow> Some (Proof_Requested, s) | _ \<Rightarrow> None)"
| "task_step ext block_number task Give_Up (p, s) =
     (case p of Failed e \<Rightarrow> Some (Finished (Inl e), s) | _ \<Rightarrow> None)"

section \<open>A chunk, the chunks and the whole call\<close>

definition advance :: "nat \<Rightarrow> 'n rpc_state \<Rightarrow> 'n rpc_state" where
  "advance d s = s\<lparr>rs_clock := rs_clock s + d\<rparr>"

abbreviation play_chunk ::
    "('n, 'j, 'd, 't) rpc_ext \<Rightarrow> nat \<Rightarrow> task_move event list \<Rightarrow>
     ((address \<times> h256 list) \<times> 'j phase) list \<times> 'n rpc_state \<Rightarrow>
     (((address \<times> h256 list) \<times> 'j phase) list \<times> 'n rpc_state) option" where
  "play_chunk ext block_number \<equiv> play (task_step ext block_number) advance"

definition started :: "(address \<times> h256 list) list \<Rightarrow> ((address \<times> h256 list) \<times> 'j phase) list" where
  "started chunk = map (\<lambda>x. (x, Proof_Requested)) chunk"

fun outcome :: "'j phase \<Rightarrow> account res option" where
  "outcome (Finished r) = Some r"
| "outcome _ = None"

text \<open>
  What \<open>join_all\<close> returns once every future has ended, collected: the first error in the order of the
  chunk, else the accounts by their addresses.
\<close>

definition chunk_result ::
    "((address \<times> h256 list) \<times> 'j phase) list \<Rightarrow> (address, account) hmap res option" where
  "chunk_result ts =
     (if \<exists>t \<in> set ts. outcome (snd t) = None then None
      else Some (bind_res
        (map_res (\<lambda>((address, _), p). bind_res (the (outcome p)) (\<lambda>acc. Inr (address, acc))) ts)
        (\<lambda>kvs. Inr (hm_collect kvs))))"

inductive chunk_fetched ::
    "('n, 'j, 'd, 't) rpc_ext \<Rightarrow> nat \<Rightarrow> (address \<times> h256 list) list \<Rightarrow> 'n rpc_state \<Rightarrow>
     (address, account) hmap res \<times> 'n rpc_state \<Rightarrow> bool" for ext block_number where
  chunk_fetched: "play_chunk ext block_number es (started chunk, s) = Some (ts, t) \<Longrightarrow> chunk_result ts = Some r \<Longrightarrow>
    chunk_fetched ext block_number chunk s (r, t)"

inductive chunks_fetched ::
    "('n, 'j, 'd, 't) rpc_ext \<Rightarrow> nat \<Rightarrow> nat \<Rightarrow> (address, account) hmap \<Rightarrow> (address \<times> h256 list) list list \<Rightarrow>
     'n rpc_state \<Rightarrow> (address, account) hmap res \<times> 'n rpc_state \<Rightarrow> bool" for ext rps block_number where
  no_chunk: "chunks_fetched ext rps block_number fetched [] s (Inr fetched, s)"
| chunk_fails: "chunk_fetched ext block_number chunk s (Inl e, t) \<Longrightarrow>
    chunks_fetched ext rps block_number fetched (chunk # rest) s (Inl e, t)"
| no_cooldown: "chunk_fetched ext block_number chunk s (Inr m, s1) \<Longrightarrow>
    cooldown rps (rs_clock s) (length chunk) s1 = (Inl e, t) \<Longrightarrow>
    chunks_fetched ext rps block_number fetched (chunk # rest) s (Inl e, t)"
| next_chunk: "chunk_fetched ext block_number chunk s (Inr m, s1) \<Longrightarrow>
    cooldown rps (rs_clock s) (length chunk) s1 = (Inr u, s2) \<Longrightarrow>
    chunks_fetched ext rps block_number (hm_extend fetched m) rest s2 r \<Longrightarrow>
    chunks_fetched ext rps block_number fetched (chunk # rest) s r"

text \<open>The end of \<open>fetch_accounts\<close>, which awaits nothing: the accounts are merged into the cache, the codes stored.\<close>

definition store_fetched ::
    "('n, 'j, 'd, 't) rpc_ext \<Rightarrow> bool \<Rightarrow> (address, account) hmap \<Rightarrow> ('n rpc_db, (address, account) hmap) act" where
  "store_fetched ext from_child fetched =
     andthen (merge_fetched from_child fetched) (\<lambda>_.
     andthen (on_rpc (\<lambda>s. (Inr (), s\<lparr>rs_codes := insert_codes ext fetched (rs_codes s)\<rparr>))) (\<lambda>_.
     ret fetched))"

inductive accounts_fetched ::
    "('n, 'j, 'd, 't) rpc_ext \<Rightarrow> bool \<Rightarrow> nat \<Rightarrow> (address \<times> h256 list) list \<Rightarrow> bool \<Rightarrow> 'n rpc_db \<Rightarrow>
     (address, account) hmap res \<times> 'n rpc_db \<Rightarrow> bool" for ext chk rps index from_child db where
  no_parent: "\<not> from_child \<Longrightarrow> sub_ovf chk (db_block_number db) 1 = Inl e \<Longrightarrow>
    accounts_fetched ext chk rps index from_child db (Inl e, db)"
| no_rate: "(if from_child then Inr (db_block_number db) else sub_ovf chk (db_block_number db) 1) = Inr bn \<Longrightarrow> rps = 0 \<Longrightarrow>
    accounts_fetched ext chk rps index from_child db (Inl (Panic ''chunk size must be non-zero''), db)"
| fetched: "(if from_child then Inr (db_block_number db) else sub_ovf chk (db_block_number db) 1) = Inr bn \<Longrightarrow> rps \<noteq> 0 \<Longrightarrow>
    chunks_fetched ext rps (unat bn) [] (chunks rps index) (db_rpc db) (r, s) \<Longrightarrow>
    accounts_fetched ext chk rps index from_child db
      (andthen (lift_res r) (store_fetched ext from_child) (db\<lparr>db_rpc := s\<rparr>))"

end
