(* ===== verification/Rpc_Schedules.thy ===== *)
theory Rpc_Schedules
  imports Rpc_Concurrent
begin

text \<open>
  The run of \<open>fetch_accounts\<close> in \<open>Rpc_Db\<close>, whose futures run one after the other in the order of the chunk,
  is one of the schedules of \<open>Rpc_Concurrent\<close>: \<open>get_account\<close> is a task run alone, a retry policy a
  sequence of such runs, \<open>join_all\<close> the tasks in a row.
\<close>

section \<open>One task alone is \<open>get_account\<close>\<close>

abbreviation proof_request :: "('n, 'j, 'd, 't) rpc_ext \<Rightarrow> nat \<Rightarrow> address \<Rightarrow> h256 list \<Rightarrow> rpc_request" where
  "proof_request ext bn a ks \<equiv> EthGetProof (''0x'' @ x_addr_hex ext a)
     (map (\<lambda>key. ''0x'' @ x_h256_hex ext key) ks) (hex_quantity bn)"

abbreviation code_request :: "('n, 'j, 'd, 't) rpc_ext \<Rightarrow> nat \<Rightarrow> address \<Rightarrow> rpc_request" where
  "code_request ext bn a \<equiv> EthGetCode (''0x'' @ x_addr_hex ext a) (hex_quantity bn)"

text \<open>The state after a request that the node answered with \<open>n\<close> as its new state.\<close>

abbreviation sent :: "rpc_request \<Rightarrow> nat \<Rightarrow> 'n \<Rightarrow> 'n rpc_state \<Rightarrow> 'n rpc_state" where
  "sent req latency n s \<equiv>
     s\<lparr>rs_node := n, rs_requests := rs_requests s @ [req], rs_clock := rs_clock s + latency\<rparr>"

lemma get_code_read:
  assumes "x_post ext (code_request ext bn a) (rs_node s) = (answer, latency, n)"
  shows "get_code ext bn a s = (read_code ext answer, sent (code_request ext bn a) latency n s)"
  using assms
  by (cases answer)
    (auto simp: get_code_def read_code_def send_def andthen_def bind_res_def split: sum.split)

lemma get_account_read:
  assumes "x_post ext (proof_request ext bn a ks) (rs_node s) = (answer, latency, n)"
  shows "get_account ext bn a ks s =
    (case read_proof ext a answer of
       Inl e \<Rightarrow> throw e
     | Inr (Inl acc) \<Rightarrow> ret acc
     | Inr (Inr pa) \<Rightarrow> andthen (account_code ext bn a (pa_state pa)) (\<lambda>code. ret (with_code pa code)))
      (sent (proof_request ext bn a ks) latency n s)"
proof (cases answer)
  case (Inl e)
  then show ?thesis using assms by (simp add: get_account_def read_proof_def send_def andthen_def)
next
  case (Inr j)
  then have post: "get_account ext bn a ks s = (andthen (lift_res (get_result ext (x_json_proof ext) j)) (\<lambda>ap.
     andthen (lift_res (map_res (decode_hex ext) (ap_account_proof ap))) (\<lambda>account_proof.
     andthen (lift_res (map_res (parse_storage_proof ext) (ap_storage_proof ap))) (\<lambda>pairs.
     andthen (lift_res (account_in_trie ext a account_proof)) (\<lambda>found.
     if \<not> found then ret (NonExisting account_proof (hm_collect (map snd pairs)))
     else
       andthen (lift_res (parse_account_state ext ap)) (\<lambda>st.
       andthen (account_code ext bn a st) (\<lambda>code.
         ret (Existing st (hm_collect (map fst pairs)) account_proof (hm_collect (map snd pairs)) code))))))))
      (sent (proof_request ext bn a ks) latency n s)"
    using assms by (simp add: get_account_def send_def andthen_def Let_def)
  show ?thesis
    unfolding post read_proof_def lift_res_def Inr of_result_simps bind_res_simps
    by (cases "get_result ext (x_json_proof ext) j", simp)
       (simp add: bind_res_def with_code_def split: sum.split)
qed

section \<open>The order of the chunk is a schedule\<close>

lemma round_trip:
  assumes "i < length ts" "ts ! i = ((a, ks), p)" "request_of ext bn (a, ks) p = Some req"
    and "x_post ext req (rs_node s) = (answer, latency, n)" "resume ext a (rs_codes s) (answered p answer) = Some (p', codes)"
  shows "play_chunk ext bn [Move i Serve, Wait latency, Move i Resume] (ts, s) =
    Some (ts[i := ((a, ks), p')], (sent req latency n s)\<lparr>rs_codes := codes\<rparr>)"
  using assms by (simp add: advance_def)

fun ended_as :: "account res \<Rightarrow> 'j phase" where
  "ended_as (Inl e) = Failed e"
| "ended_as (Inr acc) = Finished (Inr acc)"

lemma get_account_schedule:
  fixes ts :: "((address \<times> h256 list) \<times> 'j phase) list"
  assumes i: "i < length ts" "ts ! i = ((a, ks), Proof_Requested)"
    and run: "get_account ext bn a ks s = (r, t)"
  shows "\<exists>es. play_chunk ext bn es (ts, s) = Some (ts[i := ((a, ks), ended_as r)], t)"
proof -
  obtain answer latency n where post: "x_post ext (proof_request ext bn a ks) (rs_node s) = (answer, latency, n)"
    by (cases "x_post ext (proof_request ext bn a ks) (rs_node s)") auto
  let ?s = "sent (proof_request ext bn a ks) latency n s"
  note get = run [unfolded get_account_read [OF post]]
  have codes: "?s\<lparr>rs_codes := rs_codes s\<rparr> = ?s" by simp
  have first: "play_chunk ext bn [Move i Serve, Wait latency, Move i Resume] (ts, s) = Some (ts[i := ((a, ks), p)], ?s)"
    if "resume ext a (rs_codes s) (Proof_Answered answer) = Some (p, rs_codes s)" for p
    using round_trip [where p' = p and codes = "rs_codes s", OF i _ post] that codes by simp
  show ?thesis
  proof (cases "resume ext a (rs_codes s) (Proof_Answered answer) = Some (ended_as r, rs_codes s) \<and> t = ?s")
    case True
    then show ?thesis using first by blast
  next
    case False
    then obtain pa where pa: "read_proof ext a answer = Inr (Inr pa)"
      and h: "as_code_hash (pa_state pa) \<noteq> x_empty_keccak ext" "map_of (rs_codes s) (as_code_hash (pa_state pa)) = None"
      using get by (auto simp: account_code_def andthen_def split: sum.splits if_splits option.splits)
    let ?ts = "ts[i := ((a, ks), Code_Requested pa)]"
    have one: "play_chunk ext bn [Move i Serve, Wait latency, Move i Resume] (ts, s) = Some (?ts, ?s)"
      by (rule first) (simp add: pa h)
    obtain answer' latency' n' where post': "x_post ext (code_request ext bn a) (rs_node ?s) = (answer', latency', n')"
      by (cases "x_post ext (code_request ext bn a) (rs_node ?s)") auto
    have "\<exists>codes. resume ext a (rs_codes ?s) (Code_Answered pa answer') = Some (ended_as r, codes) \<and>
        t = (sent (code_request ext bn a) latency' n' ?s)\<lparr>rs_codes := codes\<rparr>"
      using get h get_code_read [OF post']
      by (cases "read_code ext answer'") (auto simp: pa account_code_def andthen_def)
    then obtain codes where "resume ext a (rs_codes ?s) (Code_Answered pa answer') = Some (ended_as r, codes)"
      and t: "t = (sent (code_request ext bn a) latency' n' ?s)\<lparr>rs_codes := codes\<rparr>" by blast
    then have "play_chunk ext bn [Move i Serve, Wait latency', Move i Resume] (?ts, ?s) = Some (?ts[i := ((a, ks), ended_as r)], t)"
      using round_trip [OF _ _ _ post', where ts = ?ts and i = i and ks = ks and p = "Code_Requested pa"] i by simp
    from play_trans [OF one this] show ?thesis unfolding list_update_overwrite by blast
  qed
qed

text \<open>Under a retry policy: an attempt that failed is either repeated or the last.\<close>

lemma retried_schedule:
  fixes ts :: "((address \<times> h256 list) \<times> 'j phase) list"
  assumes "retried (get_account ext bn a ks) s (r, t)" "i < length ts" "ts ! i = ((a, ks), Proof_Requested)"
  shows "\<exists>es. play_chunk ext bn es (ts, s) = Some (ts[i := ((a, ks), Finished r)], t)"
  using assms
proof (induction "get_account ext bn a ks" s "(r, t)" rule: retried.induct)
  case (last_try s)
  from get_account_schedule [OF last_try.prems last_try.hyps]
  obtain es where es: "play_chunk ext bn es (ts, s) = Some (ts[i := ((a, ks), ended_as r)], t)" by blast
  show ?case
  proof (cases r)
    case (Inl e)
    then have "play_chunk ext bn [Move i Give_Up] (ts[i := ((a, ks), ended_as r)], t) = Some (ts[i := ((a, ks), Finished r)], t)"
      using last_try.prems by simp
    from play_trans [OF es this] show ?thesis by blast
  next
    case (Inr acc)
    then show ?thesis using es by auto
  qed
next
  case (again s e s')
  from get_account_schedule [OF again.prems again.hyps(1)]
  obtain es where es: "play_chunk ext bn es (ts, s) = Some (ts[i := ((a, ks), Failed (Error e))], s')" by auto
  have "play_chunk ext bn [Move i Retry] (ts[i := ((a, ks), Failed (Error e))], s') = Some (ts, s')"
    using again.prems list_update_id [of ts i] by simp
  note again_run = play_trans [OF es this]
  from again.hyps(3) [OF again.prems] obtain es' where
    "play_chunk ext bn es' (ts, s') = Some (ts[i := ((a, ks), Finished r)], t)" by blast
  from play_trans [OF again_run this] show ?case by blast
qed

text \<open>The tasks of a chunk, one after the other.\<close>

lemma attempt_calm: "\<not> is_panic (fst (m s)) \<Longrightarrow> \<exists>r t. attempt m s = (Inr r, t)"
  by (cases "m s"; cases "fst (m s)") (auto simp: attempt_def split: fault.splits)

lemma join_all_Cons:
  "attempt (f x) s = (Inr r, s1) \<Longrightarrow> join_all f (x # xs) s =
     (case join_all f xs s1 of (Inl e, t) \<Rightarrow> (Inl e, t) | (Inr rs, t) \<Rightarrow> (Inr (r # rs), t))"
  by (simp add: andthen_def split: prod.split sum.split)

lemma join_all_calm:
  "(\<And>x s. \<not> is_panic (fst (f x s))) \<Longrightarrow> \<exists>rs t. join_all f xs s = (Inr rs, t)"
proof (induction xs arbitrary: s)
  case Nil
  then show ?case by simp
next
  case (Cons x xs)
  obtain r s1 where r: "attempt (f x) s = (Inr r, s1)" using attempt_calm [where m = "f x" and s = s] Cons.prems by blast
  obtain rs t where "join_all f xs s1 = (Inr rs, t)" using Cons by blast
  then show ?case by (simp add: join_all_Cons [where f = f, OF r] del: join_all.simps)
qed

lemma join_all_schedule:
  fixes left :: "((address \<times> h256 list) \<times> 'j phase) list"
  assumes policy: "retry_policy policy"
    and run: "join_all (\<lambda>(a, ks). andthen (policy (get_account ext bn a ks)) (\<lambda>acc. ret (a, acc))) chunk s = (Inr rs, t)"
  shows "\<exists>es outs. play_chunk ext bn es (left @ started chunk, s) = Some (left @ zip chunk (map Finished outs), t) \<and>
    length outs = length chunk \<and>
    rs = map2 (\<lambda>(a, _) out. case out of Inl (Error e) \<Rightarrow> Inl e | Inl (Panic p) \<Rightarrow> Inl p | Inr acc \<Rightarrow> Inr (a, acc)) chunk outs \<and>
    (\<forall>out \<in> set outs. \<not> is_panic out)"
  using run
proof (induction chunk arbitrary: left s rs)
  case Nil
  then show ?case by (intro exI [of _ "[]"]) (simp add: started_def)
next
  case (Cons x chunk)
  obtain a ks where x: "x = (a, ks)" by (cases x)
  obtain out s1 where pol: "policy (get_account ext bn a ks) s = (out, s1)" by fastforce
  have tried: "retried (get_account ext bn a ks) s (out, s1)"
    using policy pol unfolding retry_policy_def by metis
  have calm: "\<not> is_panic out" using retried_no_panic [OF tried] by simp
  let ?r = "case out of Inl (Error e) \<Rightarrow> Inl e | Inl (Panic p) \<Rightarrow> Inl p | Inr acc \<Rightarrow> Inr (a, acc)"
  have "attempt (andthen (policy (get_account ext bn a ks)) (\<lambda>acc. ret (a, acc))) s = (Inr ?r, s1)"
    using pol calm by (cases out) (auto simp: attempt_def andthen_def split: fault.split)
  then obtain rs' where rest: "join_all (\<lambda>(a, ks). andthen (policy (get_account ext bn a ks)) (\<lambda>acc. ret (a, acc))) chunk s1 = (Inr rs', t)"
    and rs: "rs = ?r # rs'"
    using Cons.prems unfolding x
    by (subst (asm) join_all_Cons) (auto simp del: join_all.simps split: prod.splits sum.splits)
  let ?ts = "left @ started (x # chunk)"
  have at: "length left < length ?ts" "?ts ! length left = ((a, ks), Proof_Requested)"
    by (simp_all add: started_def x)
  obtain es where es: "play_chunk ext bn es (?ts, s) = Some (?ts[length left := ((a, ks), Finished out)], s1)"
    using retried_schedule [OF tried at] by blast
  have upd: "?ts[length left := ((a, ks), Finished out)] = (left @ [(x, Finished out)]) @ started chunk"
    by (simp add: started_def x)
  from Cons.IH [OF rest, of "left @ [(x, Finished out)]"] obtain es' outs where
    es': "play_chunk ext bn es' ((left @ [(x, Finished out)]) @ started chunk, s1)
        = Some ((left @ [(x, Finished out)]) @ zip chunk (map Finished outs), t)"
    and outs: "length outs = length chunk"
      "rs' = map2 (\<lambda>(a, _) out. case out of Inl (Error e) \<Rightarrow> Inl e | Inl (Panic p) \<Rightarrow> Inl p | Inr acc \<Rightarrow> Inr (a, acc)) chunk outs"
      "\<forall>out \<in> set outs. \<not> is_panic out" by blast
  from play_trans [OF es [unfolded upd] es']
  have "play_chunk ext bn (es @ es') (left @ started (x # chunk), s) = Some (left @ zip (x # chunk) (map Finished (out # outs)), t)"
    by simp
  then show ?case using outs calm rs by (intro exI [of _ "es @ es'"] exI [of _ "out # outs"]) (simp add: x)
qed

lemma chunk_result_zip:
  assumes "length outs = length chunk"
  shows "chunk_result (zip chunk (map (Finished :: account res \<Rightarrow> 'j phase) outs)) = Some (bind_res
    (map_res (\<lambda>((a, _), out). bind_res out (\<lambda>acc. Inr (a, acc))) (zip chunk outs)) (\<lambda>kvs. Inr (hm_collect kvs)))"
proof -
  have "map_res (\<lambda>((a, _), p). bind_res (the (outcome p)) (\<lambda>acc. Inr (a, acc))) (zip chunk (map (Finished :: account res \<Rightarrow> 'j phase) outs))
    = map_res (\<lambda>((a, _), out). bind_res out (\<lambda>acc. Inr (a, acc))) (zip chunk outs)"
    using assms by (induction outs chunk rule: list_induct2) auto
  moreover have "\<not> (\<exists>t \<in> set (zip chunk (map (Finished :: account res \<Rightarrow> 'j phase) outs)). outcome (snd t) = None)"
    by (fastforce dest: set_zip_rightD)
  ultimately show ?thesis unfolding chunk_result_def by (simp only: if_False)
qed

lemma fetch_chunk_schedule:
  assumes "retry_policy policy"
  shows "chunk_fetched ext bn chunk s (fetch_chunk ext policy bn chunk s)"
proof -
  let ?f = "\<lambda>(a, ks). andthen (policy (get_account ext bn a ks)) (\<lambda>acc. ret (a, acc))"
  have calm: "\<not> is_panic (fst (?f x s))" for x s
  proof (cases x)
    case (Pair a ks)
    have "\<not> is_panic (fst (policy (get_account ext bn a ks) s))"
      using retried_no_panic [of "get_account ext bn a ks" s "policy (get_account ext bn a ks) s"] assms
      by (simp add: retry_policy_def)
    then show ?thesis by (simp add: Pair no_panic_andthen)
  qed
  then obtain rs t where run: "join_all ?f chunk s = (Inr rs, t)" using join_all_calm [where f = ?f, OF calm] by blast
  from join_all_schedule [OF assms run, of "[]"] obtain es outs where
    es: "play_chunk ext bn es (started chunk, s) = Some (zip chunk (map Finished outs), t)"
    and outs: "length outs = length chunk" "\<forall>out \<in> set outs. \<not> is_panic out"
    and rs: "rs = map2 (\<lambda>(a, _) out. case out of Inl (Error e) \<Rightarrow> Inl e | Inl (Panic p) \<Rightarrow> Inl p | Inr acc \<Rightarrow> Inr (a, acc)) chunk outs"
    by auto
  have "map_res of_result rs = map_res (\<lambda>((a, _), out). bind_res out (\<lambda>acc. Inr (a, acc))) (zip chunk outs)"
    unfolding rs using outs
    by (induction outs chunk rule: list_induct2) (auto split: sum.split fault.split)
  then show ?thesis
    using chunk_fetched [OF es chunk_result_zip [OF outs(1)]] run by (simp add: fetch_chunk_def andthen_def)
qed

lemma fetch_chunks_schedule:
  assumes "retry_policy policy"
  shows "chunks_fetched ext rps bn m cs s (fetch_chunks ext policy rps bn m cs s)"
proof (induction cs arbitrary: m s)
  case Nil
  then show ?case by (simp add: no_chunk)
next
  case (Cons c cs)
  note chunk = fetch_chunk_schedule [OF assms, of ext bn c s]
  show ?case
  proof (cases "fetch_chunk ext policy bn c s")
    case (Pair r s1)
    show ?thesis
    proof (cases r)
      case (Inl e)
      then show ?thesis using chunk Pair by (simp add: andthen_def chunk_fails)
    next
      case (Inr fetched)
      then show ?thesis
        using chunk Pair Cons.IH
        by (cases "cooldown rps (rs_clock s) (length c) s1"; cases "fst (cooldown rps (rs_clock s) (length c) s1)")
          (auto simp: andthen_def intro: no_cooldown next_chunk)
    qed
  qed
qed

lemma fetch_accounts_split:
  assumes "(if from_child then Inr (db_block_number db) else sub_ovf chk (db_block_number db) 1) = Inr bn" "rps \<noteq> 0"
  shows "fetch_accounts ext policy chk rps index from_child db =
    (case fetch_chunks ext policy rps (unat bn) [] (chunks rps index) (db_rpc db) of
       (r, s) \<Rightarrow> andthen (lift_res r) (store_fetched ext from_child) (db\<lparr>db_rpc := s\<rparr>))"
  using assms
  by (auto simp: fetch_accounts_def andthen_def zoom_def store_fetched_def split: prod.splits sum.splits)

text \<open>
  \<open>fetch_accounts\<close> with its futures run one after the other is one of the schedules: whatever the
  retry policy does, its result and the database it leaves are those of an interleaving.
\<close>

lemma fetch_accounts_schedule:
  assumes "retry_policy policy"
  shows "accounts_fetched ext chk rps index from_child db (fetch_accounts ext policy chk rps index from_child db)"
proof (cases "if from_child then Inr (db_block_number db) else sub_ovf chk (db_block_number db) 1")
  case (Inl e)
  then have "fetch_accounts ext policy chk rps index from_child db = (Inl e, db)" "\<not> from_child"
    by (auto simp: fetch_accounts_def andthen_def split: if_splits)
  then show ?thesis using Inl no_parent by simp
next
  case (Inr bn)
  show ?thesis
  proof (cases "rps = 0")
    case True
    then have "fetch_accounts ext policy chk rps index from_child db = (Inl (Panic ''chunk size must be non-zero''), db)"
      using Inr by (auto simp: fetch_accounts_def andthen_def split: if_splits)
    then show ?thesis using no_rate [OF Inr True] by simp
  next
    case False
    obtain r s where run: "fetch_chunks ext policy rps (unat bn) [] (chunks rps index) (db_rpc db) = (r, s)" by fastforce
    show ?thesis
      using accounts_fetched.fetched [where ext = ext and r = r and s = s, OF Inr False]
        fetch_chunks_schedule [OF assms, of ext rps "unat bn" "[]" "chunks rps index" "db_rpc db"]
      by (simp add: fetch_accounts_split [OF Inr False] run)
  qed
qed

end
