(* ===== verification/Rpc_Races.thy ===== *)
theory Rpc_Races
  imports Rpc_Schedules
begin

text \<open>
  What holds of \<open>fetch_accounts\<close> however its requests interleave: the accounts are those of the chain on
  all schedules; a node that does not contradict itself makes them all return the same; no schedule is
  stuck, and none sends more than two requests per account and retry. Each rests on one interpretation of a
  locale of \<open>Interleaving\<close> on the moves of \<open>get_account\<close>.
\<close>

section \<open>What no interleaving breaks\<close>

text \<open>
  What an answer of the node gives for an account; and the codes that the node answers with, under the
  hash of the account they were asked for.
\<close>

definition proof_gives ::
    "('n, 'j, 'd, 't) rpc_ext \<Rightarrow> nat \<Rightarrow> address \<Rightarrow> h256 list \<Rightarrow> account + pending_account \<Rightarrow> bool" where
  "proof_gives ext bn a ks x \<longleftrightarrow> (\<exists>n. read_proof ext a (fst (x_post ext (proof_request ext bn a ks) n)) = Inr x)"

definition answered_codes :: "('n, 'j, 'd, 't) rpc_ext \<Rightarrow> nat \<Rightarrow> (h256 \<times> bytes) set" where
  "answered_codes ext bn = {(as_code_hash (pa_state pa), c) | pa c. \<exists>a ks n.
     proof_gives ext bn a ks (Inr pa) \<and> read_code ext (fst (x_post ext (code_request ext bn a) n)) = Inr c}"

abbreviation cached_codes :: "'n rpc_state \<Rightarrow> (h256 \<times> bytes) set" where
  "cached_codes s \<equiv> Map.graph (map_of (rs_codes s))"

text \<open>An account made from such an answer, with a code of \<open>K\<close>.\<close>

fun completed :: "('n, 'j, 'd, 't) rpc_ext \<Rightarrow> (h256 \<times> bytes) set \<Rightarrow> account + pending_account \<Rightarrow> account \<Rightarrow> bool" where
  "completed ext K (Inl acc') acc \<longleftrightarrow> acc = acc'"
| "completed ext K (Inr pa) acc \<longleftrightarrow>
     (if as_code_hash (pa_state pa) = x_empty_keccak ext then acc = with_code pa None
      else \<exists>c. (as_code_hash (pa_state pa), c) \<in> K \<and> acc = with_code pa (Some c))"

fun from_node ::
    "('n, 'j, 'd, 't) rpc_ext \<Rightarrow> nat \<Rightarrow> (h256 \<times> bytes) set \<Rightarrow> address \<times> h256 list \<Rightarrow> 'j phase \<Rightarrow> bool" where
  "from_node ext bn K (a, ks) Proof_Requested \<longleftrightarrow> True"
| "from_node ext bn K (a, ks) (Proof_Answered answer) \<longleftrightarrow> (\<exists>n. answer = fst (x_post ext (proof_request ext bn a ks) n))"
| "from_node ext bn K (a, ks) (Code_Requested pa) \<longleftrightarrow>
     proof_gives ext bn a ks (Inr pa) \<and> as_code_hash (pa_state pa) \<noteq> x_empty_keccak ext"
| "from_node ext bn K (a, ks) (Code_Answered pa answer) \<longleftrightarrow>
     proof_gives ext bn a ks (Inr pa) \<and> as_code_hash (pa_state pa) \<noteq> x_empty_keccak ext \<and>
     (\<exists>n. answer = fst (x_post ext (code_request ext bn a) n))"
| "from_node ext bn K (a, ks) (Failed e) \<longleftrightarrow> (\<forall>p. e \<noteq> Panic p)"
| "from_node ext bn K (a, ks) (Finished (Inl e)) \<longleftrightarrow> (\<forall>p. e \<noteq> Panic p)"
| "from_node ext bn K (a, ks) (Finished (Inr acc)) \<longleftrightarrow> (\<exists>x. proof_gives ext bn a ks x \<and> completed ext K x acc)"

lemma read_proof_no_panic [simp]: "\<not> is_panic (read_proof ext a answer)"
  unfolding read_proof_def by (intro no_panic_bind) (auto simp: map_res_no_panic no_panic_bind)

lemma read_code_no_panic [simp]: "\<not> is_panic (read_code ext answer)"
  by (simp add: read_code_def no_panic_bind)

lemma no_panic_Inl: "\<not> is_panic r \<Longrightarrow> r = Inl e \<Longrightarrow> e \<noteq> Panic p"
  by auto

lemma resume_from_node:
  assumes "from_node ext bn K (a, ks) p" "resume ext a codes p = Some (p', codes')"
    and "Map.graph (map_of codes) \<subseteq> K" "answered_codes ext bn \<subseteq> K"
  shows "Map.graph (map_of codes') \<subseteq> K \<and> from_node ext bn K (a, ks) p'"
proof (cases p)
  case (Proof_Answered answer)
  then obtain n where n: "answer = fst (x_post ext (proof_request ext bn a ks) n)" using assms(1) by auto
  have gives: "proof_gives ext bn a ks x" if "read_proof ext a answer = Inr x" for x
    using that n by (auto simp: proof_gives_def)
  have cached: "(h, c) \<in> K" if "map_of codes h = Some c" for h c
    using assms(3) that by (auto simp: graph_def)
  show ?thesis
    using assms(2,3) no_panic_Inl [OF read_proof_no_panic] gives cached
    by (auto simp: Proof_Answered split: sum.splits option.splits if_splits) force+
next
  case (Code_Answered pa answer)
  then obtain n where n: "answer = fst (x_post ext (code_request ext bn a) n)"
    and pa: "proof_gives ext bn a ks (Inr pa)" "as_code_hash (pa_state pa) \<noteq> x_empty_keccak ext" using assms(1) by auto
  have served: "(as_code_hash (pa_state pa), c) \<in> K" if "read_code ext answer = Inr c" for c
    using assms(4) that pa(1) unfolding n answered_codes_def by blast
  show ?thesis
  proof (cases "read_code ext answer")
    case (Inl e)
    then show ?thesis using assms(2,3) no_panic_Inl [OF read_code_no_panic Inl] by (auto simp: Code_Answered)
  next
    case (Inr c)
    then have "codes' = AList.update (as_code_hash (pa_state pa)) c codes" "p' = Finished (Inr (with_code pa (Some c)))"
      using assms(2) by (simp_all add: Code_Answered)
    moreover have "Map.graph (map_of (AList.update (as_code_hash (pa_state pa)) c codes)) \<subseteq> K"
      using assms(3) served [OF Inr] by (auto simp: graph_def update_conv' split: if_splits)
    moreover have "completed ext K (Inr pa) (with_code pa (Some c))" using pa(2) served [OF Inr] by auto
    ultimately show ?thesis using pa(1) by auto
  qed
qed (use assms(2) in simp_all)

interpretation node_tasks: steady_tasks "task_step ext bn" advance
  "\<lambda>s. cached_codes s \<subseteq> K \<union> answered_codes ext bn" "from_node ext bn (K \<union> answered_codes ext bn)"
  for ext :: "('n, 'j, 'd, 't) rpc_ext" and bn K
proof
  fix s s' :: "'n rpc_state" and x m p p'
  assume inv: "cached_codes s \<subseteq> K \<union> answered_codes ext bn"
    and ok: "from_node ext bn (K \<union> answered_codes ext bn) x p"
    and step: "task_step ext bn x m (p, s) = Some (p', s')"
  obtain a ks where x: "x = (a, ks)" by (cases x)
  show "cached_codes s' \<subseteq> K \<union> answered_codes ext bn \<and> from_node ext bn (K \<union> answered_codes ext bn) x p'"
  proof (cases m)
    case Serve
    then obtain req where req: "request_of ext bn (a, ks) p = Some req"
      and p': "p' = answered p (fst (x_post ext req (rs_node s)))" and s': "rs_codes s' = rs_codes s"
      using step by (auto simp: x split: option.splits prod.splits)
    show ?thesis using req inv ok by (cases p) (auto simp: x p' s')
  next
    case Resume
    then obtain codes where "resume ext a (rs_codes s) p = Some (p', codes)" "s' = s\<lparr>rs_codes := codes\<rparr>"
      using step by (auto simp: x split: option.splits)
    then show ?thesis using resume_from_node [OF ok [unfolded x]] inv by (simp add: x)
  next
    case Retry
    then show ?thesis using step inv by (auto simp: x split: phase.splits fault.splits)
  next
    case Give_Up
    then show ?thesis using step inv ok by (auto simp: x split: phase.splits)
  qed
qed (simp add: advance_def)

text \<open>A chunk, on every schedule: its accounts in the order of the chunk, each read from the node.\<close>

lemma started_ok: "\<forall>n < length (started chunk). from_node ext bn K (fst (started chunk ! n)) (snd (started chunk ! n))"
  by (auto simp: started_def) (metis from_node.simps(1) surj_pair)

lemma chunk_from_node:
  assumes "chunk_fetched ext bn chunk s (r, t)" "cached_codes s \<subseteq> K \<union> answered_codes ext bn"
  shows "cached_codes t \<subseteq> K \<union> answered_codes ext bn"
    and "r = Inl e \<Longrightarrow> e \<noteq> Panic p"
    and "r = Inr m \<Longrightarrow> \<exists>kvs. m = hm_collect kvs \<and> list_all2 (\<lambda>(a, ks) (a', acc). a' = a \<and>
      (\<exists>x. proof_gives ext bn a ks x \<and> completed ext (K \<union> answered_codes ext bn) x acc)) chunk kvs"
proof -
  let ?K = "K \<union> answered_codes ext bn"
  let ?f = "\<lambda>((address, _), p). bind_res (the (outcome p)) (\<lambda>acc. Inr (address, acc))"
  obtain es ts where run: "play_chunk ext bn es (started chunk, s) = Some (ts, t)" and res: "chunk_result ts = Some r"
    using assms(1) by (auto elim: chunk_fetched.cases)
  note kept = node_tasks.play_keeps [OF run assms(2) started_ok]
  then show "cached_codes t \<subseteq> ?K" by blast
  have ok: "from_node ext bn ?K x p" if "(x, p) \<in> set ts" for x p
    using kept that by (fastforce simp: in_set_conv_nth)
  have ended: "\<exists>out. p = Finished out" if "(x, p) \<in> set ts" for x p
    using res that by (cases p) (force simp: chunk_result_def split: if_splits)+
  have r: "r = bind_res (map_res ?f ts) (\<lambda>kvs. Inr (hm_collect kvs))"
    using res by (simp add: chunk_result_def split: if_splits)
  have one: "from_node ext bn ?K (a, ks) (Finished out) \<Longrightarrow> \<not> is_panic out" for a ks out
    by (cases out) auto
  have calm: "\<not> is_panic (?f y)" if y: "y \<in> set ts" for y
  proof -
    obtain a ks p where yp: "y = ((a, ks), p)" by (metis surj_pair)
    then obtain out where "p = Finished out" using ended y by blast
    then have "\<not> is_panic out" using one ok y yp by blast
    then show ?thesis using \<open>p = Finished out\<close> yp by (simp add: no_panic_bind)
  qed
  show "e \<noteq> Panic p" if "r = Inl e"
    using map_res_no_panic [of ts ?f, OF calm] that by (cases "map_res ?f ts") (auto simp: r)
  assume "r = Inr m"
  then obtain kvs where kvs: "map_res ?f ts = Inr kvs" and m: "m = hm_collect kvs" using r by (auto simp: res_simps)
  have "list_all2 (\<lambda>x y. ?f x = Inr y) ts kvs" using kvs by (simp only: map_res_Inr_iff)
  then have "list_all2 (\<lambda>(a, ks) (a', acc). a' = a \<and>
      (\<exists>x. proof_gives ext bn a ks x \<and> completed ext ?K x acc)) (map fst ts) kvs"
  proof (simp only: list.rel_map, elim list.rel_mono_strong)
    fix y kv
    assume y: "y \<in> set ts" and kv: "?f y = Inr kv"
    obtain a ks p where yp: "y = ((a, ks), p)" by (metis surj_pair)
    then obtain out where p: "p = Finished out" using ended y by blast
    then obtain acc where "out = Inr acc" "kv = (a, acc)" using kv yp by (auto simp: res_simps)
    then show "(\<lambda>(a, ks) (a', acc). a' = a \<and>
        (\<exists>x. proof_gives ext bn a ks x \<and> completed ext ?K x acc)) (fst y) kv"
      using ok y yp p by fastforce
  qed
  moreover have "map fst ts = chunk" using play_ids [OF run] by (simp add: started_def comp_def)
  ultimately show "\<exists>kvs. m = hm_collect kvs \<and> list_all2 (\<lambda>(a, ks) (a', acc). a' = a \<and>
      (\<exists>x. proof_gives ext bn a ks x \<and> completed ext ?K x acc)) chunk kvs"
    using m by blast
qed

section \<open>An honest node\<close>

lemma read_proof_Inr:
  assumes "read_proof ext a answer = Inr x"
  shows "\<exists>j ap nodes pairs found. answer = Inr j \<and> get_result ext (x_json_proof ext) j = Inr ap \<and>
    map_res (decode_hex ext) (ap_account_proof ap) = Inr nodes \<and>
    map_res (parse_storage_proof ext) (ap_storage_proof ap) = Inr pairs \<and>
    account_in_trie ext a nodes = Inr found \<and>
    (if found then \<exists>st. parse_account_state ext ap = Inr st \<and>
       x = Inr \<lparr>pa_state = st, pa_storage = hm_collect (map fst pairs), pa_account_proof = nodes,
                pa_storage_proofs = hm_collect (map snd pairs)\<rparr>
     else x = Inl (NonExisting nodes (hm_collect (map snd pairs))))"
proof -
  obtain j ap nodes pairs found where "answer = Inr j" "get_result ext (x_json_proof ext) j = Inr ap"
    "map_res (decode_hex ext) (ap_account_proof ap) = Inr nodes"
    "map_res (parse_storage_proof ext) (ap_storage_proof ap) = Inr pairs" "account_in_trie ext a nodes = Inr found"
    and "(if \<not> found then Inr (Inl (NonExisting nodes (hm_collect (map snd pairs))))
      else bind_res (parse_account_state ext ap) (\<lambda>st.
        Inr (Inr \<lparr>pa_state = st, pa_storage = hm_collect (map fst pairs), pa_account_proof = nodes,
                  pa_storage_proofs = hm_collect (map snd pairs)\<rparr>))) = Inr x"
    using assms unfolding read_proof_def bind_res_Inr_iff of_result_Inr_iff by blast
  then show ?thesis by (intro exI [of _ j] exI [of _ ap] exI [of _ nodes] exI [of _ pairs] exI [of _ found])
    (auto simp: bind_res_Inr_iff)
qed

text \<open>What an honest node's answer gives is the account of the chain; the code is of the account's hash.\<close>

lemma honest_gives:
  assumes "honest_node ext bn truth" "proof_gives ext bn a ks x"
  shows "case x of
      Inl acc \<Rightarrow> consistent ext (truth a) acc \<and> covers ks acc
    | Inr pa \<Rightarrow> \<exists>ca. truth a = Some ca \<and> pa_state pa = ca_state ca \<and> hm_wf (pa_storage pa) \<and>
        set ks \<subseteq> dom (map_of (pa_storage pa)) \<and> (\<forall>k v. map_of (pa_storage pa) k = Some v \<longrightarrow> v = ca_storage ca k)"
proof -
  obtain n where "read_proof ext a (fst (x_post ext (proof_request ext bn a ks) n)) = Inr x"
    using assms(2) by (auto simp: proof_gives_def)
  from read_proof_Inr [OF this] obtain j ap nodes pairs found where
    post: "fst (x_post ext (proof_request ext bn a ks) n) = Inr j" "get_result ext (x_json_proof ext) j = Inr ap"
    and nodes: "map_res (decode_hex ext) (ap_account_proof ap) = Inr nodes"
    and pairs: "map_res (parse_storage_proof ext) (ap_storage_proof ap) = Inr pairs"
    and found: "account_in_trie ext a nodes = Inr found"
    and x: "if found then \<exists>st. parse_account_state ext ap = Inr st \<and>
       x = Inr \<lparr>pa_state = st, pa_storage = hm_collect (map fst pairs), pa_account_proof = nodes,
                pa_storage_proofs = hm_collect (map snd pairs)\<rparr>
     else x = Inl (NonExisting nodes (hm_collect (map snd pairs)))"
    by blast
  have ans: "proof_answers ext a (truth a) ks ap" using assms(1) post unfolding honest_node_def by blast
  then have there: "found = (truth a \<noteq> None)" using nodes found unfolding proof_answers_def by blast
  show ?thesis
  proof (cases "truth a")
    case None
    then show ?thesis using x there by simp
  next
    case (Some ca)
    then have ca: "proof_answers ext a (Some ca) ks ap" using ans by simp
    obtain st where st: "parse_account_state ext ap = Inr st" and xs: "x = Inr \<lparr>pa_state = st,
        pa_storage = hm_collect (map fst pairs), pa_account_proof = nodes, pa_storage_proofs = hm_collect (map snd pairs)\<rparr>"
      using x there Some by auto
    have "st = ca_state ca" using ca st by (simp add: proof_answers_def)
    then show ?thesis using storage_answers [OF ca pairs] Some by (simp add: xs hm_collect_def)
  qed
qed

lemma honest_codes:
  assumes "honest_node ext bn truth" "(h, c) \<in> answered_codes ext bn"
  shows "x_code_hash ext c = h"
proof -
  obtain pa a ks n where h: "h = as_code_hash (pa_state pa)" and gives: "proof_gives ext bn a ks (Inr pa)"
    and code: "read_code ext (fst (x_post ext (code_request ext bn a) n)) = Inr c"
    using assms(2) by (auto simp: answered_codes_def)
  obtain ca where ca: "truth a = Some ca" "pa_state pa = ca_state ca" using honest_gives [OF assms(1) gives] by auto
  obtain j answer where "fst (x_post ext (code_request ext bn a) n) = Inr j"
    "get_result ext (x_json_string ext) j = Inr answer" "decode_hex ext answer = Inr c"
    using code by (auto simp: read_code_def res_simps)
  then show ?thesis using assms(1) ca unfolding h honest_node_def by metis
qed

lemma honest_completed:
  assumes "honest_node ext bn truth" "proof_gives ext bn a ks x" "completed ext K x acc"
    and "\<And>h c. (h, c) \<in> K \<Longrightarrow> x_code_hash ext c = h"
  shows "consistent ext (truth a) acc \<and> covers ks acc"
  using honest_gives [OF assms(1,2)] assms(3,4)
  by (cases x) (auto simp: with_code_def split: if_splits)

lemma codes_ok_iff: "rpc_inv ext s \<longleftrightarrow> (\<forall>h c. (h, c) \<in> cached_codes s \<longrightarrow> x_code_hash ext c = h)"
  by (simp add: codes_ok_def graph_def)

lemma chunk_sound:
  assumes "chunk_fetched ext bn chunk s (r, t)" "honest_node ext bn truth" "rpc_inv ext s"
  shows "rpc_inv ext t" and "r = Inl e \<Longrightarrow> e \<noteq> Panic p" and "r = Inr m \<Longrightarrow> fetched_ok ext truth chunk m"
proof -
  let ?K = "cached_codes s \<union> answered_codes ext bn"
  have K: "x_code_hash ext c = h" if "(h, c) \<in> ?K" for h c
    using that assms(3) honest_codes [OF assms(2)] unfolding codes_ok_iff by blast
  note node = chunk_from_node [OF assms(1) Un_upper1]
  show "rpc_inv ext t" using node(1) K unfolding codes_ok_iff by blast
  show "r = Inl e \<Longrightarrow> e \<noteq> Panic p" by (rule node(2))
  assume "r = Inr m"
  then obtain kvs where m: "m = hm_collect kvs" and kvs: "list_all2 (\<lambda>(a, ks) (a', acc). a' = a \<and>
      (\<exists>x. proof_gives ext bn a ks x \<and> completed ext ?K x acc)) chunk kvs" using node(3) by blast
  show "fetched_ok ext truth chunk m"
    unfolding m by (rule fetched_ok_collect, rule list.rel_mono_strong [OF kvs])
      (use honest_completed [OF assms(2) _ _ K] in blast)
qed

lemma cooldown_result: "cooldown rps start n s = (r, t) \<Longrightarrow> rs_codes t = rs_codes s \<and> (rps \<noteq> 0 \<longrightarrow> r = Inr ())"
  by (auto simp: cooldown_def rate_limit_def andthen_def Let_def split: if_splits)

lemma chunks_sound:
  assumes "chunks_fetched ext rps bn m cs s res" "honest_node ext bn truth" "rps \<noteq> 0"
    and "rpc_inv ext s" "fetched_ok ext truth index m"
  shows "case res of (Inl e, t) \<Rightarrow> errs (rpc_inv ext) e t
    | (Inr m', t) \<Rightarrow> rpc_inv ext t \<and> fetched_ok ext truth (index @ concat cs) m'"
  using assms(1,4,5)
proof (induction arbitrary: index rule: chunks_fetched.induct)
  case (no_chunk m s)
  then show ?case by simp
next
  case (chunk_fails chunk s e t)
  then show ?case using chunk_sound [OF chunk_fails.hyps assms(2) chunk_fails.prems(1)] by simp
next
  case (no_cooldown chunk s m s1 e t)
  then show ?case using cooldown_result assms(3) by fastforce
next
  case (next_chunk chunk s m' s1 u s2 m rest res)
  note chunk = chunk_sound [OF next_chunk.hyps(1) assms(2) next_chunk.prems(1)]
  have "rpc_inv ext s2" using chunk(1) cooldown_result [OF next_chunk.hyps(2)] by simp
  from next_chunk.IH [OF this fetched_ok_extend [OF next_chunk.prems(2) chunk(3) [OF refl]]]
  show ?case by (simp only: append_assoc concat.simps)
qed

lemma store_fetched_triple:
  assumes "fetched_ok ext (v_at v from_child) index fetched"
  shows "triple (db_inv ext v) (store_fetched ext from_child fetched)
    (\<lambda>m t. db_inv ext v t \<and> fetched_ok ext (v_at v from_child) index m) (errs (db_inv ext v))"
proof -
  have codes: "triple (rpc_inv ext) (\<lambda>s. (Inr (), s\<lparr>rs_codes := insert_codes ext fetched (rs_codes s)\<rparr>))
      (\<lambda>_ t. rpc_inv ext t \<and> True) (errs (rpc_inv ext))"
    by (simp add: triple_def codes_ok_insert_codes)
  show ?thesis
    unfolding store_fetched_def
    by (intro triple_andthen [OF merge_fetched_triple [OF assms]] triple_andthen [OF on_rpc_triple [OF codes]]
        triple_ret) (use assms in simp)
qed

section \<open>A schedule of the example\<close>

text \<open>
  The two accounts of \<open>Rpc_Example\<close>, the second one asked for first: both proofs are requested before
  the first answer is read.
\<close>

definition example_index :: "(address \<times> h256 list) list" where
  "example_index = [(2, []), (1, [4])]"

definition example_opening :: "task_move event list" where
  "example_opening = [Move 1 Serve, Move 0 Serve, Wait 2000, Move 1 Resume]"

definition example_closing :: "task_move event list" where
  "example_closing = [Move 1 Serve, Move 0 Resume, Wait 1000, Move 1 Resume]"

definition example_pending :: pending_account where
  "example_pending = \<lparr>pa_state = ca_state example_account, pa_storage = [(4, 7)], pa_account_proof = [[1]],
     pa_storage_proofs = [(4, [])]\<rparr>"

definition example_midway :: "((address \<times> h256 list) \<times> example_answer phase) list \<times> unit rpc_state" where
  "example_midway =
     ([((2, []), Proof_Answered (Inr (AnsProof (example_proof (''0x'' @ show_hex 2) [])))),
       ((1, [4]), Code_Requested example_pending)],
      \<lparr>rs_codes = [], rs_node = (), rs_requests = [example_request 7 1 [4], example_request 7 2 []], rs_clock = 2000\<rparr>)"

definition example_at_end :: "unit rpc_state" where
  "example_at_end = (example_remote_after 3000)\<lparr>rs_requests :=
     [example_request 7 1 [4], example_request 7 2 [], example_code_request 7]\<rparr>"

lemma example_read_absent:
  "read_proof example_ext 2 (Inr (AnsProof (example_proof (''0x'' @ show_hex 2) []))) = Inr (Inl (example_absent_account []))"
  using example_hex(1)
  by (simp add: read_proof_def get_result_def example_found) (simp add: example_proof_def example_found example_absent_account_def)

lemma example_read_present:
  "read_proof example_ext 1 (Inr (AnsProof (example_proof ''0x1'' [''0x'' @ show_hex 4]))) = Inr (Inr example_pending)"
  using example_storage [of "''0x1''" "[4]"] example_state [of "''0x1''" "[''0x'' @ show_hex 4]"]
  by (simp add: read_proof_def get_result_def)
    (simp add: example_proof_def example_found example_pending_def hm_collect_def hm_extend_def)

lemma example_read_code: "read_code example_ext (Inr (AnsText ''0x600a'')) = Inr [96, 10]"
  by (simp add: read_code_def get_result_def)

lemma example_first_half: "play_chunk example_ext 7 example_opening (started example_index, example_remote) = Some example_midway"
  using example_read_present
  by (simp add: example_opening_def started_def example_index_def example_midway_def example_remote_def advance_def
      example_hex example_request_def example_pending_def example_account_def)

lemma example_second_half: "play_chunk example_ext 7 example_closing example_midway =
    Some ([((2, []), Finished (Inr (example_absent_account []))), ((1, [4]), Finished (Inr (example_present_account [4])))],
      example_at_end)"
  using example_read_absent example_read_code
  by (simp add: example_closing_def example_midway_def advance_def example_hex example_at_end_def example_remote_after_def
      example_request_def example_code_request_def with_code_def example_pending_def example_account_def
      example_present_account_def hm_collect_def hm_extend_def)

lemma example_chunk_fetched: "chunk_fetched example_ext 7 example_index example_remote (Inr example_fetched, example_at_end)"
proof (rule chunk_fetched)
  show "play_chunk example_ext 7 (example_opening @ example_closing) (started example_index, example_remote) =
      Some ([((2, []), Finished (Inr (example_absent_account []))), ((1, [4]), Finished (Inr (example_present_account [4])))],
        example_at_end)"
    by (rule play_trans [OF example_first_half example_second_half])
qed (simp add: chunk_result_def hm_collect_def hm_extend_def example_fetched_def)

text \<open>The database after that schedule, with the clock after the cooldown.\<close>

definition example_db_other :: "unit rpc_db" where
  "example_db_other = example_db\<lparr>db_rpc := example_at_end\<lparr>rs_clock := 200000000\<rparr>\<rparr>"

lemma example_accounts_fetched:
  "accounts_fetched example_ext True 10 example_index False example_empty_db (Inr example_fetched, example_db_other)"
proof -
  let ?s = "example_at_end\<lparr>rs_clock := 200000000\<rparr>"
  have cool: "cooldown 10 (rs_clock example_remote) (length example_index) example_at_end = (Inr (), ?s)"
    by (simp add: cooldown_def rate_limit_def andthen_def example_remote_def example_index_def example_at_end_def
        example_remote_after_def)
  have fetched: "hm_extend [] example_fetched = example_fetched" by (simp add: hm_extend_def example_fetched_def)
  have chunks: "chunks_fetched example_ext 10 7 [] [example_index] example_remote (Inr example_fetched, ?s)"
    by (rule next_chunk [OF example_chunk_fetched cool]) (simp add: fetched no_chunk)
  have start: "(if False then Inr (db_block_number example_empty_db) else sub_ovf True (db_block_number example_empty_db) 1) = Inr 7"
    by (simp add: example_empty_db_def rpc_db_new_def sub_ovf_def)
  have remote: "db_rpc example_empty_db = example_remote"
    by (simp add: example_empty_db_def rpc_db_new_def example_remote_def)
  have "andthen (lift_res (Inr example_fetched)) (store_fetched example_ext False) (example_empty_db\<lparr>db_rpc := ?s\<rparr>)
      = (Inr example_fetched, example_db_other)"
    by (simp add: andthen_def store_fetched_def merge_fetched_def zoom_def example_empty_db_def rpc_db_new_def)
      (simp add: merge_one_def example_fetched_def example_db_def example_db_other_def example_at_end_def
        example_remote_after_def example_absent_account_def example_present_account_def andthen_def)
  then show ?thesis
    using accounts_fetched.fetched [OF start, of 10 example_ext example_index "Inr example_fetched" ?s]
      chunks example_chunks by (simp add: remote example_index_def)
qed

text \<open>The accounts of any schedule are those of the chain.\<close>

lemma accounts_fetched_sound:
  assumes "sound_source ext policy rps v" and "db_inv ext v db"
    and "accounts_fetched ext chk rps index from_child db (r, db')"
  shows "case r of Inl e \<Rightarrow> db_inv ext v db' \<and> (\<forall>p. e \<noteq> Panic p)
    | Inr m \<Rightarrow> db_inv ext v db' \<and> fetched_ok ext (v_at v from_child) index m"
proof -
  let ?bn = "if from_child then v_number v else v_number v - 1"
  have honest: "honest_node ext (unat ?bn) (v_at v from_child)" and rps: "rps \<noteq> 0" and v0: "v_number v \<noteq> 0"
    using assms(1) by (simp_all add: sound_source_def v_at_def)
  have number: "db_block_number db = v_number v" and inv: "rpc_inv ext (db_rpc db)"
    using assms(2) by (simp_all add: db_inv_def)
  have start: "(if from_child then Inr (db_block_number db) else sub_ovf chk (db_block_number db) 1) = Inr ?bn"
    using v0 by (auto simp: number sub_ovf_def word_less_1)
  from assms(3) obtain rr s where
    run: "chunks_fetched ext rps (unat ?bn) [] (chunks rps index) (db_rpc db) (rr, s)"
    and stored: "(r, db') = andthen (lift_res rr) (store_fetched ext from_child) (db\<lparr>db_rpc := s\<rparr>)"
    using start rps by cases auto
  note sound = chunks_sound [OF run honest rps inv fetched_ok_Nil, unfolded append_Nil chunks_concat [OF rps]]
  show ?thesis
  proof (cases rr)
    case (Inl e)
    then show ?thesis using sound stored assms(2) by (auto simp: andthen_def db_inv_def)
  next
    case (Inr m)
    then have "db_inv ext v (db\<lparr>db_rpc := s\<rparr>)" "fetched_ok ext (v_at v from_child) index m"
      using sound assms(2) by (simp_all add: db_inv_def)
    then show ?thesis
      using tripleD_case [OF store_fetched_triple, of ext v from_child index m "db\<lparr>db_rpc := s\<rparr>"] stored Inr
      by (cases "store_fetched ext from_child m (db\<lparr>db_rpc := s\<rparr>)"; cases r) (simp_all add: andthen_def)
  qed
qed

text \<open>
  C3. \<open>fetch_accounts\<close> is right on every schedule of its requests. From a database whose caches agree
  with the chain, and an honest node: in whatever order the requests of a chunk are answered, the
  futures polled and the failed attempts repeated, the accounts returned are those of the index, each
  with the state, the code and the storage values that the chain has before (or after) the block; the
  caches still agree with the chain; and no schedule panics.
\<close>

theorem fetch_accounts_any_schedule:
  assumes "sound_source ext policy rps v" and "db_inv ext v db"
    and "accounts_fetched ext chk rps index from_child db (r, db')"
  shows "case r of Inl e \<Rightarrow> db_inv ext v db' \<and> (\<forall>p. e \<noteq> Panic p)
    | Inr m \<Rightarrow> db_inv ext v db' \<and> fetched_ok ext (v_at v from_child) index m"
  by (rule accounts_fetched_sound [OF assms])

theorem fetch_accounts_any_schedule_witness:
  "rs_requests (db_rpc example_db_other) \<noteq> rs_requests (db_rpc example_db) \<and>
   db_inv example_ext example_view example_db_other \<and> fetched_ok example_ext example_chain example_index example_fetched"
proof -
  have "rs_requests (db_rpc example_db_other) \<noteq> rs_requests (db_rpc example_db)"
    by (simp add: example_db_other_def example_at_end_def example_db_def example_remote_after_def example_request_def)
  then show ?thesis
    using fetch_accounts_any_schedule [OF example_source example_new_inv example_accounts_fetched]
    by (simp add: v_at_def example_view_def)
qed

section \<open>A node that does not contradict itself\<close>

text \<open>The node may fail at any time, but gives one answer about an account before (or after) the block.\<close>

definition steady_node :: "('n, 'j, 'd, 't) rpc_ext \<Rightarrow> nat \<Rightarrow> bool" where
  "steady_node ext bn \<longleftrightarrow> (\<forall>a ks n n' j j'.
     fst (x_post ext (proof_request ext bn a ks) n) = Inr j \<longrightarrow>
     fst (x_post ext (proof_request ext bn a ks) n') = Inr j' \<longrightarrow> j = j')"

lemma steady_gives:
  assumes "steady_node ext bn" "proof_gives ext bn a ks x" "proof_gives ext bn a ks x'"
  shows "x = x'"
proof -
  obtain n n' where n: "read_proof ext a (fst (x_post ext (proof_request ext bn a ks) n)) = Inr x"
    and n': "read_proof ext a (fst (x_post ext (proof_request ext bn a ks) n')) = Inr x'"
    using assms(2,3) by (auto simp: proof_gives_def)
  obtain j where j: "fst (x_post ext (proof_request ext bn a ks) n) = Inr j" using read_proof_Inr [OF n] by blast
  obtain j' where j': "fst (x_post ext (proof_request ext bn a ks) n') = Inr j'" using read_proof_Inr [OF n'] by blast
  have "j = j'" using assms(1) j j' unfolding steady_node_def by blast
  then show ?thesis using n n' j j' by simp
qed

lemma completed_unique:
  assumes "single_valued K" "completed ext K x acc" "completed ext K x acc'"
  shows "acc = acc'"
  using assms by (cases x) (auto simp: single_valued_def split: if_splits)

lemma chunk_agrees:
  assumes "chunk_fetched ext bn chunk s (Inr m, t)" "chunk_fetched ext bn chunk s' (Inr m', t')"
    and "cached_codes s \<subseteq> K \<union> answered_codes ext bn" "cached_codes s' \<subseteq> K \<union> answered_codes ext bn"
    and steady: "steady_node ext bn" and single: "single_valued (K \<union> answered_codes ext bn)"
  shows "m = m'"
proof -
  let ?R = "\<lambda>(a, ks) (a', acc). a' = a \<and>
    (\<exists>x. proof_gives ext bn a ks x \<and> completed ext (K \<union> answered_codes ext bn) x acc)"
  obtain kvs where m: "m = hm_collect kvs" and kvs: "list_all2 ?R chunk kvs"
    using chunk_from_node(3) [OF assms(1,3) refl] by blast
  obtain kvs' where m': "m' = hm_collect kvs'" and kvs': "list_all2 ?R chunk kvs'"
    using chunk_from_node(3) [OF assms(2,4) refl] by blast
  have "right_unique ?R"
    using steady_gives [OF steady] completed_unique [OF single] by (auto simp: right_unique_def) blast
  then have "right_unique (list_all2 ?R)" by (rule list.right_unique_rel)
  then show ?thesis using kvs kvs' unfolding m m' by (blast dest: right_uniqueD)
qed

inductive_cases no_chunkE: "chunks_fetched ext rps bn m [] s (Inr m', t)"
inductive_cases next_chunkE: "chunks_fetched ext rps bn m (c # cs) s (Inr m', t)"

lemma chunks_agree:
  assumes "chunks_fetched ext rps bn m0 cs s (Inr m, t)" "chunks_fetched ext rps bn m0 cs s' (Inr m', t')"
    and "cached_codes s \<subseteq> K \<union> answered_codes ext bn" "cached_codes s' \<subseteq> K \<union> answered_codes ext bn"
    and steady: "steady_node ext bn" and single: "single_valued (K \<union> answered_codes ext bn)"
  shows "m = m'"
  using assms(1-4)
proof (induction cs arbitrary: m0 s s')
  case Nil
  then show ?case by (auto elim!: no_chunkE)
next
  case (Cons c cs)
  obtain fc s1 u s2 where one: "chunk_fetched ext bn c s (Inr fc, s1)" "cooldown rps (rs_clock s) (length c) s1 = (Inr u, s2)"
    "chunks_fetched ext rps bn (hm_extend m0 fc) cs s2 (Inr m, t)" using Cons.prems(1) by (rule next_chunkE)
  obtain fc' s1' u' s2' where two: "chunk_fetched ext bn c s' (Inr fc', s1')"
    "cooldown rps (rs_clock s') (length c) s1' = (Inr u', s2')"
    "chunks_fetched ext rps bn (hm_extend m0 fc') cs s2' (Inr m', t')" using Cons.prems(2) by (rule next_chunkE)
  have same: "fc = fc'" by (rule chunk_agrees [OF one(1) two(1) Cons.prems(3,4) steady single])
  have "cached_codes s2 \<subseteq> K \<union> answered_codes ext bn" "cached_codes s2' \<subseteq> K \<union> answered_codes ext bn"
    using chunk_from_node(1) [OF one(1) Cons.prems(3)] chunk_from_node(1) [OF two(1) Cons.prems(4)]
      cooldown_result [OF one(2)] cooldown_result [OF two(2)] by simp_all
  then show ?case using Cons.IH [OF one(3)] two(3) same by blast
qed

lemma store_fetched_Inr:
  assumes "store_fetched ext from_child m db = (Inr m', db')"
  shows "m' = m \<and> (\<exists>c. for_each merge_one m (if from_child then db_child_cache db else db_cache db) = (Inr (), c) \<and>
    db_child_cache db' = (if from_child then c else db_child_cache db) \<and>
    db_cache db' = (if from_child then db_cache db else c))"
  using assms
  by (auto simp: store_fetched_def merge_fetched_def zoom_def elim!: andthen_Inr_E split: if_splits prod.splits)

text \<open>
  C4. The order of the requests does not matter. Two runs of \<open>fetch_accounts\<close> on the same database that
  return, on any two schedules with any failures and retries, return the same accounts and leave the
  same caches of accounts, if the node gives one answer about each account and no two of the codes it
  serves or that are cached have the same hash: not even the race for a code that two accounts share
  can be seen.
\<close>

theorem schedules_agree:
  assumes "steady_node ext (unat (if from_child then db_block_number db else db_block_number db - 1))"
    and "single_valued (cached_codes (db_rpc db) \<union>
      answered_codes ext (unat (if from_child then db_block_number db else db_block_number db - 1)))"
    and "accounts_fetched ext chk rps index from_child db (Inr m1, db1)"
    and "accounts_fetched ext chk rps index from_child db (Inr m2, db2)"
  shows "m1 = m2 \<and> db_cache db1 = db_cache db2 \<and> db_child_cache db1 = db_child_cache db2"
proof -
  let ?bn = "unat (if from_child then db_block_number db else db_block_number db - 1)"
  have run: "\<exists>s. chunks_fetched ext rps ?bn [] (chunks rps index) (db_rpc db) (Inr m, s) \<and>
      store_fetched ext from_child m (db\<lparr>db_rpc := s\<rparr>) = (Inr m, db')"
    if "accounts_fetched ext chk rps index from_child db (Inr m, db')" for m db'
    using that
  proof cases
    case (fetched bn r s)
    have bn: "unat bn = ?bn" using fetched(2) by (auto simp: sub_ovf_def split: if_splits)
    obtain m' where "r = Inr m'" using fetched(1) by (cases r) (auto simp: andthen_def)
    then show ?thesis using fetched bn store_fetched_Inr [of ext from_child m' "db\<lparr>db_rpc := s\<rparr>" m db']
      by (auto simp: andthen_def)
  qed
  obtain s1 where one: "chunks_fetched ext rps ?bn [] (chunks rps index) (db_rpc db) (Inr m1, s1)"
    "store_fetched ext from_child m1 (db\<lparr>db_rpc := s1\<rparr>) = (Inr m1, db1)" using run [OF assms(3)] by blast
  obtain s2 where two: "chunks_fetched ext rps ?bn [] (chunks rps index) (db_rpc db) (Inr m2, s2)"
    "store_fetched ext from_child m2 (db\<lparr>db_rpc := s2\<rparr>) = (Inr m2, db2)" using run [OF assms(4)] by blast
  have "m1 = m2" by (rule chunks_agree [OF one(1) two(1) Un_upper1 Un_upper1 assms(1,2)])
  then show ?thesis using store_fetched_Inr [OF one(2)] store_fetched_Inr [OF two(2)] by auto
qed

lemma example_in_order: "accounts_fetched example_ext True 10 example_index False example_empty_db (Inr example_fetched, example_db)"
  using fetch_accounts_schedule [OF retry_policy_id, of example_ext True 10 example_index False example_empty_db]
  unfolding example_index_def example_fetch_accounts .

theorem schedules_agree_witness:
  "accounts_fetched example_ext True 10 example_index False example_empty_db (Inr example_fetched, example_db) \<and>
   accounts_fetched example_ext True 10 example_index False example_empty_db (Inr example_fetched, example_db_other) \<and>
   db_cache example_db = db_cache example_db_other"
proof -
  have number: "unat (if False then db_block_number example_empty_db else db_block_number example_empty_db - 1) = 7"
    by (simp add: example_empty_db_def rpc_db_new_def)
  have steady: "steady_node example_ext 7" by (simp add: steady_node_def)
  have "snd x = [96, 10]" if "x \<in> answered_codes example_ext 7" for x
    using that example_read_code by (auto simp: answered_codes_def)
  moreover have "cached_codes (db_rpc example_empty_db) = {}" by (simp add: example_empty_db_def rpc_db_new_def graph_def)
  ultimately have single: "single_valued (cached_codes (db_rpc example_empty_db) \<union> answered_codes example_ext 7)"
    unfolding single_valued_def by (metis Un_empty_left snd_conv)
  show ?thesis
    using schedules_agree [where from_child = False and ext = example_ext and db = example_empty_db, unfolded number,
        OF steady single example_in_order example_accounts_fetched] example_in_order example_accounts_fetched by simp
qed

section \<open>What a schedule costs, and that it can end\<close>

fun requests_left :: "'j phase \<Rightarrow> nat" where
  "requests_left Proof_Requested = 2"
| "requests_left (Proof_Answered _) = 1"
| "requests_left (Code_Requested _) = 1"
| "requests_left _ = 0"

fun moves_left :: "'j phase \<Rightarrow> nat" where
  "moves_left Proof_Requested = 5"
| "moves_left (Proof_Answered _) = 4"
| "moves_left (Code_Requested _) = 3"
| "moves_left (Code_Answered _ _) = 2"
| "moves_left (Failed _) = 1"
| "moves_left (Finished _) = 0"

lemma task_step_pays:
  assumes "task_step ext bn x m (p, s) = Some (p', s')"
  shows "requests_left p' + length (rs_requests s') \<le> requests_left p + length (rs_requests s) + (if m = Retry then 2 else 0)"
    and "moves_left p' + 1 \<le> moves_left p + (if m = Retry then 5 else 0)"
proof -
  obtain a ks where x: "x = (a, ks)" by (cases x)
  show "requests_left p' + length (rs_requests s') \<le> requests_left p + length (rs_requests s) + (if m = Retry then 2 else 0)"
    using assms by (cases m; cases p) (auto simp: x split: prod.splits sum.splits option.splits if_splits fault.splits)
  show "moves_left p' + 1 \<le> moves_left p + (if m = Retry then 5 else 0)"
    using assms by (cases m; cases p) (auto simp: x split: prod.splits sum.splits option.splits if_splits fault.splits)
qed

interpretation request_tasks: paying_tasks "task_step ext bn" advance requests_left "\<lambda>s. length (rs_requests s)" 0
    "\<lambda>m. if m = Retry then 2 else 0"
  for ext :: "('n, 'j, 'd, 't) rpc_ext" and bn
  by unfold_locales (use task_step_pays(1) in \<open>force simp: advance_def\<close>)+

interpretation move_tasks: paying_tasks "task_step ext bn" advance moves_left "\<lambda>s. 0" 1
    "\<lambda>m. if m = Retry then 5 else 0"
  for ext :: "('n, 'j, 'd, 't) rpc_ext" and bn
  by unfold_locales (use task_step_pays(2) in force)+

definition retries :: "task_move event list \<Rightarrow> nat" where
  "retries es = length (filter (\<lambda>e. case e of Move _ m \<Rightarrow> m = Retry | Wait _ \<Rightarrow> False) es)"

lemma retries_simps [simp]:
  "retries [] = 0" "retries (Wait d # es) = retries es"
  "retries (Move n m # es) = (if m = Retry then Suc (retries es) else retries es)"
  by (simp_all add: retries_def)

lemma gained_retries: "request_tasks.gained es = 2 * retries es" "move_tasks.gained es = 5 * retries es"
  by (induction es) (auto split: event.splits)

lemma started_left:
  "(\<Sum>t\<leftarrow>started chunk. requests_left (snd t)) = 2 * length chunk"
  "(\<Sum>t\<leftarrow>started chunk. moves_left (snd t)) = 5 * length chunk"
  by (induction chunk) (simp_all add: started_def)

text \<open>
  C36. What a chunk costs on any schedule: at most two requests for each account and each repeated
  attempt, and at most five moves. So a schedule that goes on for ever repeats attempts for ever, and
  one without errors sends at most twice as many requests as the chunk has accounts, although the
  cooldown counts one per account.
\<close>

theorem chunk_cost:
  assumes "play_chunk ext bn es (started chunk, s) = Some (ts, t)"
  shows "length (rs_requests t) \<le> length (rs_requests s) + 2 * (length chunk + retries es) \<and>
    length (filter is_move es) \<le> 5 * (length chunk + retries es)"
  using request_tasks.play_pays [OF assms] move_tasks.play_pays [OF assms]
  by (simp add: gained_retries started_left)

theorem chunk_cost_witness:
  "play_chunk example_ext 7 (example_opening @ example_closing) (started example_index, example_remote) =
     Some ([((2, []), Finished (Inr (example_absent_account []))), ((1, [4]), Finished (Inr (example_present_account [4])))],
       example_at_end) \<and>
   length (rs_requests example_at_end) \<le> 4"
  using chunk_cost [OF play_trans [OF example_first_half example_second_half]]
    play_trans [OF example_first_half example_second_half]
  by (simp add: example_remote_def example_index_def example_opening_def example_closing_def)

text \<open>The ways to the end of a task.\<close>

definition ends_within ::
    "('n, 'j, 'd, 't) rpc_ext \<Rightarrow> nat \<Rightarrow> address \<times> h256 list \<Rightarrow> nat \<Rightarrow> 'j phase \<times> 'n rpc_state \<Rightarrow> bool" where
  "ends_within ext bn x k c \<longleftrightarrow> (\<exists>ms p' s'. length ms \<le> k \<and> list_all (\<lambda>m. m \<noteq> Retry) ms \<and>
     moves (task_step ext bn) x ms c = Some (p', s') \<and> outcome p' \<noteq> None)"

lemma ends_now: "ends_within ext bn x k (Finished r, s)"
  unfolding ends_within_def by (rule exI [of _ "[]"]) simp

lemma ends_step:
  assumes "task_step ext bn x m (p, s) = Some c" "m \<noteq> Retry" "ends_within ext bn x k c"
  shows "ends_within ext bn x (Suc k) (p, s)"
proof -
  obtain ms p' s' where "length ms \<le> k" "list_all (\<lambda>m. m \<noteq> Retry) ms"
    "moves (task_step ext bn) x ms c = Some (p', s')" "outcome p' \<noteq> None"
    using assms(3) unfolding ends_within_def by blast
  then show ?thesis
    unfolding ends_within_def using assms(1,2) by (intro exI [of _ "m # ms"] exI [of _ p'] exI [of _ s']) simp
qed

lemma ends_failed: "ends_within ext bn x (Suc k) (Failed e, s)"
  by (rule ends_step [where m = Give_Up, OF _ _ ends_now]) simp_all

lemma ends_code_answered: "ends_within ext bn x (Suc (Suc k)) (Code_Answered pa answer, s)"
  by (cases "read_code ext answer"; rule ends_step [where m = Resume])
    (auto simp: ends_failed ends_now)

lemma ends_code_requested: "ends_within ext bn x (Suc (Suc (Suc k))) (Code_Requested pa, s)"
  by (cases x; cases "x_post ext (code_request ext bn (fst x)) (rs_node s)"; rule ends_step [where m = Serve])
    (auto simp: ends_code_answered)

lemma ends_proof_answered: "ends_within ext bn x (Suc (Suc (Suc (Suc k)))) (Proof_Answered answer, s)"
  by (rule ends_step [where m = Resume, OF _ _], simp)
    (auto simp: ends_failed ends_now ends_code_requested split: sum.split option.split)

lemma ends_proof_requested: "ends_within ext bn x (Suc (Suc (Suc (Suc (Suc k))))) (Proof_Requested, s)"
  by (cases x; cases "x_post ext (proof_request ext bn (fst x) (snd x)) (rs_node s)"; rule ends_step [where m = Serve])
    (auto simp: ends_proof_answered)

interpretation ending_tasks: live_tasks "task_step ext bn" advance "\<lambda>p. outcome p \<noteq> None" "\<lambda>m. m \<noteq> Retry" 5
  for ext :: "('n, 'j, 'd, 't) rpc_ext" and bn
proof
  fix x and p :: "'j phase" and s :: "'n rpc_state"
  have "ends_within ext bn x (Suc (Suc (Suc (Suc (Suc 0))))) (p, s)"
    by (cases p) (simp_all only: ends_proof_requested ends_proof_answered ends_code_requested ends_code_answered
        ends_failed ends_now)
  then show "\<exists>ms p' s'. length ms \<le> 5 \<and> list_all (\<lambda>m. m \<noteq> Retry) ms \<and>
      moves (task_step ext bn) x ms (p, s) = Some (p', s') \<and> outcome p' \<noteq> None"
    by (simp add: ends_within_def numeral_eq_Suc)
qed

text \<open>
  C12. No schedule is stuck: from every state that the futures of a chunk can reach, with whatever they
  wait for, some at most five moves per account, none of them a repeated attempt, bring all of them
  to their end, so that \<open>join_all\<close> returns. No future waits for another one.
\<close>

theorem chunk_can_end:
  assumes "play_chunk ext bn es (started chunk, s) = Some (ts, t)"
  shows "\<exists>es' ts' t'. play_chunk ext bn es' (ts, t) = Some (ts', t') \<and> chunk_result ts' \<noteq> None \<and>
    length es' \<le> 5 * length chunk \<and> retries es' = 0"
proof -
  have "map fst ts = chunk" using play_ids [OF assms] by (simp add: started_def comp_def)
  then have len: "length ts = length chunk" by auto
  obtain es' ts' t' where run: "play_chunk ext bn es' (ts, t) = Some (ts', t')" "length es' \<le> 5 * length ts"
    and fresh: "\<forall>e \<in> set es'. \<exists>n m. e = Move n m \<and> m \<noteq> Retry" and ended: "list_all ((\<lambda>p. outcome p \<noteq> None) \<circ> snd) ts'"
    using ending_tasks.all_rest by blast
  have "retries es' = 0" using fresh by (induction es') auto
  moreover have "chunk_result ts' \<noteq> None" using ended by (auto simp: chunk_result_def list_all_iff)
  ultimately show ?thesis using run len by auto
qed

theorem chunk_can_end_witness:
  "\<exists>es' ts' t'. play_chunk example_ext 7 es' example_midway = Some (ts', t') \<and> chunk_result ts' \<noteq> None \<and> length es' \<le> 10"
proof -
  obtain ts t where midway: "example_midway = (ts, t)" by fastforce
  show ?thesis
    using chunk_can_end [OF example_first_half [unfolded midway]] unfolding midway
    by (auto simp: example_index_def)
qed

end
