(* ===== verification/Fallback_Schedules.thy ===== *)
theory Fallback_Schedules
  imports Rpc_Races Fetcher
begin

text \<open>
  The fallback on \<open>eth_getProof\<close> with every call of \<open>fetch_accounts\<close> on any schedule of its requests: the
  database that \<open>with_cache\<close> makes, and the witness that \<open>to_execution_witness\<close> gathers from it. The runs of
  \<open>Fetcher\<close> are among these. The relations hold of the runs that return.
\<close>

section \<open>The fallback on any schedule\<close>

inductive prefetched ::
    "('n, 'j, 'd, 't) rpc_ext \<Rightarrow> bool \<Rightarrow> nat \<Rightarrow> 'n rpc_state \<Rightarrow> chain_config \<Rightarrow> u64 \<Rightarrow> block \<Rightarrow> vm_type \<Rightarrow>
     'n rpc_db \<Rightarrow> bool" for ext chk rps remote cfg block_number blk vm where
  prefetched: "accounts_fetched ext chk rps (block_accounts (b_transactions blk)) False
      (rpc_db_new remote cfg block_number vm) (Inr accounts, db) \<Longrightarrow>
    prefetched ext chk rps remote cfg block_number blk vm (db\<lparr>db_cache := accounts\<rparr>)"

inductive witness_gathered ::
    "('n, 'j, 'd, 't) rpc_ext \<Rightarrow> ('d, 'p) node_ext \<Rightarrow> bytes_ext \<Rightarrow> bool \<Rightarrow> nat \<Rightarrow>
     (block \<Rightarrow> vm_type \<Rightarrow> ('n rpc_db, account_update list) act) \<Rightarrow> block \<Rightarrow> 'n rpc_db \<Rightarrow>
     rpc_execution_witness option \<times> 'n rpc_db \<Rightarrow> bool" for ext nx bx chk rps levm blk db where
  witness_gathered: "levm blk (db_vm_type db) db = (Inr updates, db1) \<Longrightarrow>
    index = witness_index updates (db_cache db1) \<Longrightarrow>
    accounts_fetched ext chk rps index False db1 (Inr initial, db2) \<Longrightarrow>
    accounts_fetched ext chk rps index True db2 (Inr final, db3) \<Longrightarrow>
    oldest_required chk (db_block_hashes db3) (blk_number blk) = Inr oldest \<Longrightarrow>
    on_rpc (fetch_headers ext [unat oldest..<unat (blk_number blk)]) db3 = (Inr headers, db4) \<Longrightarrow>
    witness_gathered ext nx bx chk rps levm blk db (gather_witness ext nx bx initial final headers, db4)"

inductive_cases prefetchedE: "prefetched ext chk rps remote cfg block_number blk vm db"
inductive_cases witness_gatheredE: "witness_gathered ext nx bx chk rps levm blk db (w, db')"

section \<open>The runs in order are among them\<close>

lemma with_cache_prefetched:
  assumes "retry_policy policy" "with_cache ext policy chk rps remote cfg number blk vm = (Inr (), db)"
  shows "prefetched ext chk rps remote cfg number blk vm db"
proof -
  obtain accounts db1 where run: "fetch_accounts ext policy chk rps (block_accounts (b_transactions blk)) False
      (rpc_db_new remote cfg number vm) = (Inr accounts, db1)" and db: "db = db1\<lparr>db_cache := accounts\<rparr>"
    using assms(2) unfolding with_cache_def cache_accounts_def by (auto elim!: andthen_Inr_E)
  show ?thesis unfolding db by (rule prefetched) (metis run fetch_accounts_schedule [OF assms(1)])
qed

lemma to_execution_witness_gathered:
  assumes "retry_policy policy" "to_execution_witness ext nx bx policy chk rps levm blk db = (Inr w, db')"
  shows "witness_gathered ext nx bx chk rps levm blk db (w, db')"
proof -
  from assms(2) obtain updates db1 initial db2 final db3 oldest hs where
    pre: "levm blk (db_vm_type db) db = (Inr updates, db1)"
    and f1: "fetch_accounts ext policy chk rps (witness_index updates (db_cache db1)) False db1 = (Inr initial, db2)"
    and f2: "fetch_accounts ext policy chk rps (witness_index updates (db_cache db1)) True db2 = (Inr final, db3)"
    and old: "oldest_required chk (db_block_hashes db3) (blk_number blk) = Inr oldest"
    and hs: "on_rpc (fetch_headers ext [unat oldest..<unat (blk_number blk)]) db3 = (Inr hs, db')"
    and w: "w = gather_witness ext nx bx initial final hs"
    unfolding to_execution_witness_def by (auto simp: unwrapped_Inr elim!: andthen_Inr_E)
  have "accounts_fetched ext chk rps (witness_index updates (db_cache db1)) False db1 (Inr initial, db2)"
    using fetch_accounts_schedule [OF assms(1), of ext chk rps "witness_index updates (db_cache db1)" False db1] f1 by simp
  moreover have "accounts_fetched ext chk rps (witness_index updates (db_cache db1)) True db2 (Inr final, db3)"
    using fetch_accounts_schedule [OF assms(1), of ext chk rps "witness_index updates (db_cache db1)" True db2] f2 by simp
  ultimately show ?thesis
    unfolding w by (rule witness_gathered [where levm = levm, OF pre refl _ _ old]) (rule hs)
qed

text \<open>
  C9. The sequential model is a refinement of the concurrent code: whatever the retry policy does,
  \<open>fetch_accounts\<close> with its futures run one after the other is one of the interleavings of its requests,
  its errors and panics included; and a witness that \<open>fallback_witness\<close> returns is one that the fallback
  gathers on some schedule. What holds of every schedule therefore holds of the commands, which use these.
\<close>

theorem fallback_is_schedule:
  assumes "retry_policy (fb_policy fb)"
  shows "(\<forall>index from_child db. accounts_fetched (fb_rpc fb url) chk (fb_rps fb) index from_child db
      (fetch_accounts (fb_rpc fb url) (fb_policy fb) chk (fb_rps fb) index from_child db)) \<and>
    (fallback_witness fb chk url cfg number blk vm remote = (Inr w, remote') \<longrightarrow>
      (\<exists>db db'. prefetched (fb_rpc fb url) chk (fb_rps fb) remote cfg number blk vm db \<and>
        witness_gathered (fb_rpc fb url) (fb_nodes fb) (fb_bytes fb) chk (fb_rps fb) (fb_levm fb) blk db (Some w, db') \<and>
        remote' = db_rpc db'))"
proof (intro conjI allI impI)
  show "accounts_fetched (fb_rpc fb url) chk (fb_rps fb) index from_child db
      (fetch_accounts (fb_rpc fb url) (fb_policy fb) chk (fb_rps fb) index from_child db)" for index from_child db
    by (rule fetch_accounts_schedule [OF assms])
next
  assume "fallback_witness fb chk url cfg number blk vm remote = (Inr w, remote')"
  then obtain db db' where create: "with_cache (fb_rpc fb url) (fb_policy fb) chk (fb_rps fb) remote cfg number blk vm = (Inr (), db)"
    and gather: "to_execution_witness (fb_rpc fb url) (fb_nodes fb) (fb_bytes fb) (fb_policy fb) chk (fb_rps fb) (fb_levm fb) blk db
      = (Inr (Some w), db')" and rest: "remote' = db_rpc db'"
    by (auto simp: fallback_witness_def split: prod.splits sum.splits option.splits)
  show "\<exists>db db'. prefetched (fb_rpc fb url) chk (fb_rps fb) remote cfg number blk vm db \<and>
      witness_gathered (fb_rpc fb url) (fb_nodes fb) (fb_bytes fb) chk (fb_rps fb) (fb_levm fb) blk db (Some w, db') \<and>
      remote' = db_rpc db'"
    using with_cache_prefetched [OF assms create] to_execution_witness_gathered [OF assms gather] rest by blast
qed

theorem fallback_is_schedule_witness:
  "\<exists>w remote' db db'.
     fallback_witness example_fallback True ''http://node'' example_config 8 example_block8 VM_L1 example_remote
       = (Inr w, remote') \<and>
     prefetched example_ext True 10 example_remote example_config 8 example_block8 VM_L1 db \<and>
     witness_gathered example_ext list_nodes example_bytes True 10 no_updates example_block8 db (Some w, db')"
proof -
  have policy: "retry_policy (fb_policy example_fallback)" by (simp add: example_fallback_def retry_policy_id)
  obtain w remote' where run: "fallback_witness example_fallback True ''http://node'' example_config 8
      example_block8 VM_L1 example_remote = (Inr w, remote')"
    using example_fallback_run by (auto simp: example_view_def)
  then show ?thesis
    using fallback_is_schedule [OF policy, where url = "''http://node''", THEN conjunct2, rule_format, OF run]
    by (auto simp: example_fallback_def)
qed

section \<open>The witness on any schedule\<close>

lemma accounts_fetched_hashes:
  assumes "accounts_fetched ext chk rps index from_child db (r, db')"
  shows "db_block_hashes db' = db_block_hashes db"
  using assms
proof cases
  case (fetched bn rr s)
  then show ?thesis
    by (cases rr) (auto simp: andthen_def store_fetched_def merge_fetched_def zoom_def split: prod.splits sum.splits if_splits)
qed simp_all

lemma prefetched_inv:
  assumes "sound_source ext policy rps v" "prefetched ext chk rps remote (v_config v) (v_number v) blk vm db"
  shows "db_inv ext v db"
proof -
  obtain accounts db1 where run: "accounts_fetched ext chk rps (block_accounts (b_transactions blk)) False
      (rpc_db_new remote (v_config v) (v_number v) vm) (Inr accounts, db1)" and db: "db = db1\<lparr>db_cache := accounts\<rparr>"
    using assms(2) by (rule prefetchedE)
  have "db_inv ext v db1 \<and> fetched_ok ext (v_pre v) (block_accounts (b_transactions blk)) accounts"
    using accounts_fetched_sound [OF assms(1) rpc_db_new_inv run] by (simp add: v_at_def)
  then show ?thesis by (auto simp: db db_inv_def dest: fetched_ok_cache)
qed


lemma example_prefetched:
  "prefetched example_ext True 10 example_remote example_config 8 example_block8 VM_L1 example_db"
  by (rule with_cache_prefetched [OF retry_policy_id example_with_cache])


end
